theory Spec2Isabelle
  imports Main "HOL-Library.Char_ord" "HOL-Library.List_Lexorder" "HOL-Library.Sublist"
    "HOL-Library.Multiset"
begin

section \<open>Python library functions used by the storage code\<close>

text \<open>
  Strings are \<^typ>\<open>string\<close>; their order is the lexicographic order on characters
  (\<open>Char_ord\<close>, \<open>List_Lexorder\<close>), which is how Python compares \<open>str\<close>.
\<close>

text \<open>\<open>str.lstrip('/')\<close>\<close>

definition lstrip_slash :: "string \<Rightarrow> string" where
  "lstrip_slash p = dropWhile (\<lambda>c. c = CHR ''/'') p"

text \<open>\<open>os.path.isabs\<close> (posixpath): the path starts with a slash.\<close>

definition os_path_isabs :: "string \<Rightarrow> bool" where
  "os_path_isabs p = (case p of [] \<Rightarrow> False | c # _ \<Rightarrow> c = CHR ''/'')"

text \<open>
  \<open>os.path.join(a, b)\<close> (posixpath): an absolute second component replaces the first;
  otherwise the two are concatenated, with a separator unless \<open>a\<close> is empty or ends in one.
\<close>

definition os_path_join :: "string \<Rightarrow> string \<Rightarrow> string" where
  "os_path_join a b =
     (if os_path_isabs b then b
      else if a = [] \<or> last a = CHR ''/'' then a @ b
      else a @ ''/'' @ b)"

text \<open>\<open>sep.join(xs)\<close>\<close>

fun str_join :: "string \<Rightarrow> string list \<Rightarrow> string" where
  "str_join sep [] = []"
| "str_join sep [x] = x"
| "str_join sep (x # y # ys) = x @ sep @ str_join sep (y # ys)"

text \<open>
  \<open>sorted(xs, key=k)\<close> is a stable ascending sort; \<open>sorted(xs, key=k, reverse=True)\<close>
  is a stable descending sort: elements with equal keys keep their original order, which is
  the reverse of a stable ascending sort of the reversed list.
\<close>

definition py_sorted :: "('a \<Rightarrow> 'k::linorder) \<Rightarrow> 'a list \<Rightarrow> 'a list" where
  "py_sorted k xs = sort_key k xs"

definition py_sorted_reverse :: "('a \<Rightarrow> 'k::linorder) \<Rightarrow> 'a list \<Rightarrow> 'a list" where
  "py_sorted_reverse k xs = rev (sort_key k (rev xs))"

section \<open>Errors\<close>

text \<open>
  One constructor per \<open>raise\<close> of the modelled code; the argument is the value the
  message is formatted from. The path-qualified \<open>error_label\<close> of the messages is not
  modelled.
\<close>

datatype error =
    AlreadyExists string          \<comment> \<open>\<open>ValueError('{} already exists')\<close>, manager.py\<close>
  | NotAbsolute string            \<comment> \<open>\<open>ValueError('{}: must be an absolute path')\<close>\<close>
  | MountPointDefined string      \<comment> \<open>\<open>ValueError("Mount point '{}' is already defined")\<close>\<close>
  | UnitAlreadyDefined string     \<comment> \<open>\<open>ValueError("Unit with id '{}' is already defined")\<close>\<close>
  | UnknownUnitId string          \<comment> \<open>\<open>ValueError("Unknown unit id '{}'")\<close>\<close>
  | NoRootMountPoint              \<comment> \<open>\<open>ValueError('No / mount point defined')\<close>\<close>
  | KeyNotSet string              \<comment> \<open>\<open>read_key_or_fail\<close> on a missing key\<close>
  | LatticeViolation string       \<comment> \<open>a unit used as the source of a layer that may not consume it\<close>
  | RestOfContainerNotLast string \<comment> \<open>a unit added after a zero-size unit of its container\<close>
  | CommandFailed "string list"   \<comment> \<open>\<open>run_cmd\<close> on a non-zero exit status\<close>
  | NoUUID string                 \<comment> \<open>\<open>RuntimeError('Unable to determine a file system UUID')\<close>\<close>
  | MdadmNoDevices                \<comment> \<open>\<open>RuntimeError('mdadm did not find any RAID devices')\<close>\<close>
  | StepFailed string             \<comment> \<open>an exception out of a device method that is not under src/\<close>

definition and_then :: "error + 'a \<Rightarrow> ('a \<Rightarrow> error + 'b) \<Rightarrow> error + 'b" where
  "and_then r f = (case r of Inl e \<Rightarrow> Inl e | Inr x \<Rightarrow> f x)"

text \<open>A \<open>for\<close> loop whose body may raise: the first exception ends the loop.\<close>

fun for_each :: "('a \<Rightarrow> 's \<Rightarrow> error + 's) \<Rightarrow> 'a list \<Rightarrow> 's \<Rightarrow> error + 's" where
  "for_each f [] s = Inr s"
| "for_each f (x # xs) s = and_then (f x s) (for_each f xs)"

section \<open>Units and devices\<close>

text \<open>
  Modelled from the spec: \<open>FSType\<close> (\<open>smanager/file_system.py\<close>) is not under src/. It is the
  closed vocabulary of filesystem kinds, with the pseudo-kinds that mark a unit as the input
  of a layer; \<open>str\<close> of a kind is the word the configuration uses for it.
\<close>

datatype FSType = EXT4 | XFS | VFAT | SWAP | RAID_MEMBER | CRYPTO_PARTITION | PHYSICAL_VOLUME

fun FSType_str :: "FSType \<Rightarrow> string" where
  "FSType_str EXT4 = ''ext4''"
| "FSType_str XFS = ''xfs''"
| "FSType_str VFAT = ''vfat''"
| "FSType_str SWAP = ''swap''"
| "FSType_str RAID_MEMBER = ''raid_member''"
| "FSType_str CRYPTO_PARTITION = ''crypto_partition''"
| "FSType_str PHYSICAL_VOLUME = ''physical_volume''"

text \<open>\<open>str(unit.fs_type)\<close>, where \<open>fs_type\<close> may be \<open>None\<close>.\<close>

definition str_fs_type :: "FSType option \<Rightarrow> string" where
  "str_fs_type t = (case t of None \<Rightarrow> ''None'' | Some f \<Rightarrow> FSType_str f)"

datatype StorageUnitFlag = ESP

datatype unit_class = Partition | LogicalVolume | CryptoVolume

text \<open>
  A storage unit. \<open>unit_device\<close> is the id of the device that owns it, \<open>unit_partition\<close>
  the id of the partition a crypto volume is built on.
\<close>

record StorageUnit =
  unit_class :: unit_class
  unit_id :: string
  unit_device :: string
  unit_size :: nat
  fs_type :: "FSType option"
  fs_opts :: "string list"
  mount_point :: "string option"
  flags :: "StorageUnitFlag list"
  crypto_passphrase :: "string option"
  unit_partition :: "string option"

datatype device_class =
    Disk
  | RAID int string "StorageUnit list"   \<comment> \<open>level, metadata, members\<close>
  | VolumeGroup "StorageUnit list"       \<comment> \<open>physical volumes\<close>
  | Cryptsetup

record StorageDevice =
  dev_class :: device_class
  dev_id :: string
  storage_units :: "StorageUnit list"

fun is_Disk :: "device_class \<Rightarrow> bool" where
  "is_Disk Disk = True"
| "is_Disk _ = False"

fun is_RAID :: "device_class \<Rightarrow> bool" where
  "is_RAID (RAID l md ms) = True"
| "is_RAID _ = False"

fun is_VolumeGroup :: "device_class \<Rightarrow> bool" where
  "is_VolumeGroup (VolumeGroup pvs) = True"
| "is_VolumeGroup _ = False"

fun is_Cryptsetup :: "device_class \<Rightarrow> bool" where
  "is_Cryptsetup Cryptsetup = True"
| "is_Cryptsetup _ = False"

section \<open>StorageManager (smanager/manager.py)\<close>

text \<open>
  \<open>_devices\<close> is a Python dict: an association list in insertion order, looked up with
  \<^const>\<open>map_of\<close>. The manager only ever stores under a key that is absent, so a store
  appends. Device objects are mutable and shared in Python; here a device is the value
  registered under its id, and a method that mutates a device rewrites that entry.
\<close>

record StorageManager =
  devices_dict :: "(string \<times> StorageDevice) list"
  mount_root_base :: "string option"

definition cryptsetup_id :: string where
  "cryptsetup_id = ''__cryptsetup__''"

definition StorageManager_init :: StorageManager where
  "StorageManager_init =
     \<lparr>devices_dict =
        [(cryptsetup_id, \<lparr>dev_class = Cryptsetup, dev_id = cryptsetup_id, storage_units = []\<rparr>)],
      mount_root_base = None\<rparr>"

definition get_device_by_id :: "StorageManager \<Rightarrow> string \<Rightarrow> StorageDevice option" where
  "get_device_by_id m i = map_of (devices_dict m) i"

text \<open>\<open>self._devices.values()\<close>, in insertion order.\<close>

definition devices_values :: "StorageManager \<Rightarrow> StorageDevice list" where
  "devices_values m = map snd (devices_dict m)"

text \<open>\<open>_get_unit_by_mount_point\<close>: the first unit, in registry order, with that mount point.\<close>

definition get_unit_by_mount_point_internal :: "StorageManager \<Rightarrow> string \<Rightarrow> StorageUnit option" where
  "get_unit_by_mount_point_internal m mp =
     find (\<lambda>u. mount_point u = Some mp) (concat (map storage_units (devices_values m)))"

text \<open>\<open>check_can_mount_to\<close>; a unit object that is found counts as true.\<close>

definition check_can_mount_to :: "StorageManager \<Rightarrow> string \<Rightarrow> error + unit" where
  "check_can_mount_to m mp =
     (if \<not> os_path_isabs mp then Inl (NotAbsolute mp)
      else if get_unit_by_mount_point_internal m mp \<noteq> None then Inl (MountPointDefined mp)
      else Inr ())"

text \<open>
  The \<open>devices\<close> property is \<open>set(self._devices.values())\<close>; a Python set has no specified
  iteration order. \<open>devices\<close> enumerates it in registry order. Where the outcome of the code
  depends on the order of the iteration, the order is not taken from \<open>devices\<close>: the
  sorted items of \<open>mount()\<close> and \<open>unmount()\<close> are shown to be the same for every
  enumeration of the mount points, and \<open>write_fstab\<close> below takes the iterations as
  parameters.
\<close>

definition devices :: "StorageManager \<Rightarrow> StorageDevice list" where
  "devices m = devices_values m"

definition manager_storage_units :: "StorageManager \<Rightarrow> StorageUnit list" where
  "manager_storage_units m = concat (map storage_units (devices m))"

text \<open>\<open>if unit.mount_point:\<close> holds for a mount point that is neither \<open>None\<close> nor empty.\<close>

fun units_mount_points :: "StorageUnit list \<Rightarrow> (string \<times> StorageUnit) list" where
  "units_mount_points [] = []"
| "units_mount_points (u # us) =
     (case mount_point u of
        None \<Rightarrow> units_mount_points us
      | Some mp \<Rightarrow> if mp = [] then units_mount_points us else (mp, u) # units_mount_points us)"

definition mount_points :: "StorageManager \<Rightarrow> (string \<times> StorageUnit) list" where
  "mount_points m = units_mount_points (manager_storage_units m)"

definition get_unit_by_mount_point :: "StorageManager \<Rightarrow> string \<Rightarrow> StorageUnit option" where
  "get_unit_by_mount_point m mp =
     map_option snd (find (\<lambda>(mnt, unit). mp = mnt) (mount_points m))"

definition get_devices_by_type :: "StorageManager \<Rightarrow> (device_class \<Rightarrow> bool) \<Rightarrow> StorageDevice list" where
  "get_devices_by_type m ty = filter (\<lambda>d. ty (dev_class d)) (devices_values m)"

text \<open>
  Modelled from the spec: the constructors \<open>Disk(...)\<close> (smanager/disk.py),
  \<open>RAID(...)\<close> (smanager/raid.py), \<open>VolumeGroup(...)\<close> (smanager/lvm.py) and
  \<open>Cryptsetup(...)\<close> (smanager/cryptsetup.py) are not under src/. A constructor allocates
  the device with no unit. By the layering lattice a RAID member is a Disk partition or a
  crypto volume, and an LVM physical volume is a Disk partition, a crypto volume or a RAID
  partition.
\<close>

definition owner_is :: "StorageManager \<Rightarrow> (device_class \<Rightarrow> bool) \<Rightarrow> StorageUnit \<Rightarrow> bool" where
  "owner_is m ty u =
     (case get_device_by_id m (unit_device u) of None \<Rightarrow> False | Some d \<Rightarrow> ty (dev_class d))"

definition raid_member_ok :: "StorageManager \<Rightarrow> StorageUnit \<Rightarrow> bool" where
  "raid_member_ok m u =
     (unit_class u = CryptoVolume \<or> (unit_class u = Partition \<and> owner_is m is_Disk u))"

definition physical_volume_ok :: "StorageManager \<Rightarrow> StorageUnit \<Rightarrow> bool" where
  "physical_volume_ok m u =
     (unit_class u = CryptoVolume
      \<or> (unit_class u = Partition \<and> (owner_is m is_Disk u \<or> owner_is m is_RAID u)))"

definition RAID_new ::
  "StorageManager \<Rightarrow> string \<Rightarrow> string \<Rightarrow> int \<Rightarrow> StorageUnit list \<Rightarrow> error + StorageDevice" where
  "RAID_new m i metadata level members =
     (case find (\<lambda>u. \<not> raid_member_ok m u) members of
        Some u \<Rightarrow> Inl (LatticeViolation (unit_id u))
      | None \<Rightarrow> Inr \<lparr>dev_class = RAID level metadata members, dev_id = i, storage_units = []\<rparr>)"

definition VolumeGroup_new ::
  "StorageManager \<Rightarrow> string \<Rightarrow> StorageUnit list \<Rightarrow> error + StorageDevice" where
  "VolumeGroup_new m i pvs =
     (case find (\<lambda>u. \<not> physical_volume_ok m u) pvs of
        Some u \<Rightarrow> Inl (LatticeViolation (unit_id u))
      | None \<Rightarrow> Inr \<lparr>dev_class = VolumeGroup pvs, dev_id = i, storage_units = []\<rparr>)"

text \<open>
  \<open>add_disk\<close>, \<open>add_vg\<close>, \<open>add_raid\<close>. \<open>if device:\<close> holds for every device object (the
  device classes define no truth value of their own). The Python methods return the new
  device; the model returns the manager, in which the device is registered under \<open>i\<close>.
\<close>

definition add_disk :: "StorageManager \<Rightarrow> string \<Rightarrow> error + StorageManager" where
  "add_disk m i =
     (case get_device_by_id m i of
        Some device \<Rightarrow> Inl (AlreadyExists (dev_id device))
      | None \<Rightarrow>
          Inr (m\<lparr>devices_dict := devices_dict m
                 @ [(i, \<lparr>dev_class = Disk, dev_id = i, storage_units = []\<rparr>)]\<rparr>))"

definition add_vg :: "StorageManager \<Rightarrow> string \<Rightarrow> StorageUnit list \<Rightarrow> error + StorageManager" where
  "add_vg m i physical_volumes =
     (case get_device_by_id m i of
        Some device \<Rightarrow> Inl (AlreadyExists (dev_id device))
      | None \<Rightarrow>
          and_then (VolumeGroup_new m i physical_volumes)
            (\<lambda>vg. Inr (m\<lparr>devices_dict := devices_dict m @ [(i, vg)]\<rparr>)))"

definition add_raid ::
  "StorageManager \<Rightarrow> string \<Rightarrow> int \<Rightarrow> StorageUnit list \<Rightarrow> string \<Rightarrow> error + StorageManager" where
  "add_raid m i level members metadata =
     (case get_device_by_id m i of
        Some device \<Rightarrow> Inl (AlreadyExists (dev_id device))
      | None \<Rightarrow>
          and_then (RAID_new m i metadata level members)
            (\<lambda>raid. Inr (m\<lparr>devices_dict := devices_dict m @ [(i, raid)]\<rparr>)))"

text \<open>
  Modelled from the spec: the unit factories \<open>Disk.add_partition\<close> (smanager/disk.py),
  \<open>RAID.add_partition\<close> (smanager/raid.py), \<open>VolumeGroup.add_lv\<close> (smanager/lvm.py) and
  \<open>Cryptsetup.add_volume\<close> (smanager/cryptsetup.py) are not under src/. A factory allocates
  the unit in its container. A mount point, if present, must be an absolute path and must
  not collide with another unit's mount point (\<open>check_can_mount_to\<close>, which is under src/).
  A zero-size unit consumes the rest of its container, so a unit that follows one is
  rejected. A crypto volume may be built only directly on a Disk partition. Registering
  the unit's id, and rejecting a duplicate, is done by the caller
  (\<open>StorageInstaller._add_unit\<close>, under src/).
\<close>

definition append_unit :: "StorageManager \<Rightarrow> string \<Rightarrow> StorageUnit \<Rightarrow> StorageManager" where
  "append_unit m i u =
     m\<lparr>devices_dict :=
         map (\<lambda>(k, d). if k = i then (k, d\<lparr>storage_units := storage_units d @ [u]\<rparr>) else (k, d))
           (devices_dict m)\<rparr>"

definition container_units :: "StorageManager \<Rightarrow> string \<Rightarrow> StorageUnit list" where
  "container_units m i = (case get_device_by_id m i of None \<Rightarrow> [] | Some d \<Rightarrow> storage_units d)"

definition check_mount_point :: "StorageManager \<Rightarrow> string option \<Rightarrow> error + unit" where
  "check_mount_point m mp = (case mp of None \<Rightarrow> Inr () | Some p \<Rightarrow> check_can_mount_to m p)"

definition check_not_after_rest :: "StorageManager \<Rightarrow> string \<Rightarrow> string \<Rightarrow> error + unit" where
  "check_not_after_rest m dev uid =
     (if list_ex (\<lambda>u. unit_size u = 0) (container_units m dev)
      then Inl (RestOfContainerNotLast uid) else Inr ())"

text \<open>\<open>UnitParams\<close> (installers/storage.py), with the declared types of its fields.\<close>

record UnitParams =
  p_id :: string
  p_size :: nat
  p_fs_type :: "FSType option"
  p_mount_point :: "string option"
  p_crypto_passphrase :: "string option"
  p_fs_opts :: "string list"
  p_flags :: "StorageUnitFlag list"

definition add_partition ::
  "StorageManager \<Rightarrow> string \<Rightarrow> UnitParams \<Rightarrow> error + (StorageManager \<times> StorageUnit)" where
  "add_partition m dev p =
     and_then (check_mount_point m (p_mount_point p)) (\<lambda>_.
     and_then (check_not_after_rest m dev (p_id p)) (\<lambda>_.
       let u = \<lparr>unit_class = Partition, unit_id = p_id p, unit_device = dev,
                unit_size = p_size p, fs_type = p_fs_type p, fs_opts = p_fs_opts p,
                mount_point = p_mount_point p, flags = p_flags p,
                crypto_passphrase = p_crypto_passphrase p, unit_partition = None\<rparr>
       in Inr (append_unit m dev u, u)))"

definition add_lv ::
  "StorageManager \<Rightarrow> string \<Rightarrow> UnitParams \<Rightarrow> error + (StorageManager \<times> StorageUnit)" where
  "add_lv m dev p =
     and_then (check_mount_point m (p_mount_point p)) (\<lambda>_.
     and_then (check_not_after_rest m dev (p_id p)) (\<lambda>_.
       let u = \<lparr>unit_class = LogicalVolume, unit_id = p_id p, unit_device = dev,
                unit_size = p_size p, fs_type = p_fs_type p, fs_opts = p_fs_opts p,
                mount_point = p_mount_point p, flags = [],
                crypto_passphrase = None, unit_partition = None\<rparr>
       in Inr (append_unit m dev u, u)))"

definition add_volume ::
  "StorageManager \<Rightarrow> StorageUnit \<Rightarrow> UnitParams \<Rightarrow> error + (StorageManager \<times> StorageUnit)" where
  "add_volume m part p =
     (if \<not> (unit_class part = Partition \<and> owner_is m is_Disk part)
      then Inl (LatticeViolation (unit_id part))
      else and_then (check_mount_point m (p_mount_point p)) (\<lambda>_.
        let u = \<lparr>unit_class = CryptoVolume, unit_id = p_id p, unit_device = cryptsetup_id,
                 unit_size = 0, fs_type = p_fs_type p, fs_opts = p_fs_opts p,
                 mount_point = p_mount_point p, flags = [],
                 crypto_passphrase = None, unit_partition = Some (unit_id part)\<rparr>
        in Inr (append_unit m cryptsetup_id u, u)))"

section \<open>The storage configuration\<close>

text \<open>
  The \<open>storage\<close> subtree of the configuration, after YAML loading. A key that the code
  reads with \<open>read_key_or_fail\<close>, or tests with \<open>in\<close>, is an option: \<open>None\<close> is the
  missing key. A list read with \<open>read_list\<close> is a list (empty when the key is missing);
  a unit entry is the \<open>UnitParams\<close> that \<open>UnitParams.from_dict\<close> makes of it. Entries of
  the wrong type are outside the model.
\<close>

record disk_item =
  disk_id :: "string option"
  disk_partitions :: "UnitParams list"

record crypto_item =
  crypto_params :: UnitParams
  on_partition :: "string option"

record raid_item =
  raid_id :: "string option"
  raid_level :: "int option"
  raid_metadata :: "string option"
  raid_members :: "string list"
  raid_partitions :: "UnitParams list"

record vg_item =
  vg_id :: "string option"
  vg_physical_volumes :: "string list"
  vg_logical_volumes :: "UnitParams list"

record storage_config =
  disks :: "disk_item list"
  crypto_volumes :: "crypto_item list option"
  raids :: "raid_item list option"
  volume_groups :: "vg_item list option"

text \<open>
  Modelled from the spec: \<open>read_key_or_fail\<close> (installers/utils.py) is not under src/.
  A missing field is a configuration error; otherwise the value of the key is returned.
\<close>

definition read_key_or_fail :: "'a option \<Rightarrow> string \<Rightarrow> error + 'a" where
  "read_key_or_fail v key = (case v of None \<Rightarrow> Inl (KeyNotSet key) | Some x \<Rightarrow> Inr x)"

section \<open>StorageInstaller (installers/storage.py)\<close>

text \<open>\<open>_units\<close> is a dict from unit id to unit, kept to make unit ids unique.\<close>

record StorageInstaller =
  smanager :: StorageManager
  units_dict :: "(string \<times> StorageUnit) list"
  has_disks :: bool
  has_crypto :: bool
  has_raids :: bool
  has_lvm :: bool
  target_root :: string

definition add_unit :: "StorageInstaller \<Rightarrow> StorageUnit \<Rightarrow> error + StorageInstaller" where
  "add_unit st u =
     (if map_of (units_dict st) (unit_id u) \<noteq> None then Inl (UnitAlreadyDefined (unit_id u))
      else Inr (st\<lparr>units_dict := units_dict st @ [(unit_id u, u)]\<rparr>))"

text \<open>\<open>_unit_by_id\<close> with \<open>fail=True\<close>, as every call of it has.\<close>

definition unit_by_id :: "StorageInstaller \<Rightarrow> string \<Rightarrow> error + StorageUnit" where
  "unit_by_id st i =
     (case map_of (units_dict st) i of None \<Rightarrow> Inl (UnknownUnitId i) | Some u \<Rightarrow> Inr u)"

definition validate :: "StorageInstaller \<Rightarrow> error + StorageInstaller" where
  "validate st =
     (if get_unit_by_mount_point (smanager st) ''/'' = None then Inl NoRootMountPoint
      else Inr st)"

text \<open>The body of the inner loops: make the unit in its device, then register its id.\<close>

definition parse_unit ::
  "(StorageManager \<Rightarrow> UnitParams \<Rightarrow> error + (StorageManager \<times> StorageUnit))
    \<Rightarrow> UnitParams \<Rightarrow> StorageInstaller \<Rightarrow> error + StorageInstaller" where
  "parse_unit factory p st =
     and_then (factory (smanager st) p) (\<lambda>(m, u). add_unit (st\<lparr>smanager := m\<rparr>) u)"

definition parse_disk_item :: "disk_item \<Rightarrow> StorageInstaller \<Rightarrow> error + StorageInstaller" where
  "parse_disk_item item st =
     and_then (read_key_or_fail (disk_id item) ''id'') (\<lambda>i.
     and_then (add_disk (smanager st) i) (\<lambda>m.
       for_each (parse_unit (\<lambda>m. add_partition m i)) (disk_partitions item)
         (st\<lparr>smanager := m\<rparr>)))"

definition parse_disks :: "storage_config \<Rightarrow> StorageInstaller \<Rightarrow> error + StorageInstaller" where
  "parse_disks cfg st =
     and_then (for_each parse_disk_item (disks cfg) st)
       (\<lambda>st'. Inr (st'\<lparr>has_disks := (disks cfg \<noteq> [])\<rparr>))"

definition parse_crypto_item :: "crypto_item \<Rightarrow> StorageInstaller \<Rightarrow> error + StorageInstaller" where
  "parse_crypto_item item st =
     and_then (read_key_or_fail (on_partition item) ''on_partition'') (\<lambda>part_id.
     and_then (unit_by_id st part_id) (\<lambda>part.
       parse_unit (\<lambda>m. add_volume m part) (crypto_params item) st))"

definition parse_crypto_volumes ::
  "storage_config \<Rightarrow> StorageInstaller \<Rightarrow> error + StorageInstaller" where
  "parse_crypto_volumes cfg st =
     (case crypto_volumes cfg of
        None \<Rightarrow> Inr (st\<lparr>has_crypto := False\<rparr>)
      | Some crypto_list \<Rightarrow>
          and_then (for_each parse_crypto_item crypto_list st)
            (\<lambda>st'. Inr (st'\<lparr>has_crypto := (crypto_list \<noteq> [])\<rparr>)))"

text \<open>The loop that resolves a list of unit ids (\<open>members\<close>, \<open>physical_volumes\<close>).\<close>

fun units_by_ids :: "StorageInstaller \<Rightarrow> string list \<Rightarrow> error + StorageUnit list" where
  "units_by_ids st [] = Inr []"
| "units_by_ids st (i # is) =
     and_then (unit_by_id st i) (\<lambda>u. and_then (units_by_ids st is) (\<lambda>us. Inr (u # us)))"

definition raid_device_id :: "string \<Rightarrow> string" where
  "raid_device_id r = os_path_join ''/dev/md'' r"

definition parse_raid_item :: "raid_item \<Rightarrow> StorageInstaller \<Rightarrow> error + StorageInstaller" where
  "parse_raid_item item st =
     and_then (read_key_or_fail (raid_id item) ''id'') (\<lambda>r.
     and_then (read_key_or_fail (raid_level item) ''level'') (\<lambda>level.
     and_then (read_key_or_fail (raid_metadata item) ''metadata'') (\<lambda>md.
       let metadata = (if md = [] then ''1.2'' else md) in
       and_then (units_by_ids st (raid_members item)) (\<lambda>members.
       and_then (add_raid (smanager st) (raid_device_id r) level members metadata) (\<lambda>m.
         for_each (parse_unit (\<lambda>m. add_partition m (raid_device_id r))) (raid_partitions item)
           (st\<lparr>smanager := m\<rparr>))))))"

definition parse_raids :: "storage_config \<Rightarrow> StorageInstaller \<Rightarrow> error + StorageInstaller" where
  "parse_raids cfg st =
     (case raids cfg of
        None \<Rightarrow> Inr (st\<lparr>has_raids := False\<rparr>)
      | Some raid_list \<Rightarrow>
          and_then (for_each parse_raid_item raid_list st)
            (\<lambda>st'. Inr (st'\<lparr>has_raids := (raid_list \<noteq> [])\<rparr>)))"

definition parse_vg_item :: "vg_item \<Rightarrow> StorageInstaller \<Rightarrow> error + StorageInstaller" where
  "parse_vg_item item st =
     and_then (read_key_or_fail (vg_id item) ''id'') (\<lambda>v.
     and_then (units_by_ids st (vg_physical_volumes item)) (\<lambda>physical_volumes.
     and_then (add_vg (smanager st) v physical_volumes) (\<lambda>m.
       for_each (parse_unit (\<lambda>m. add_lv m v)) (vg_logical_volumes item)
         (st\<lparr>smanager := m\<rparr>))))"

definition parse_volume_groups ::
  "storage_config \<Rightarrow> StorageInstaller \<Rightarrow> error + StorageInstaller" where
  "parse_volume_groups cfg st =
     (case volume_groups cfg of
        None \<Rightarrow> Inr (st\<lparr>has_lvm := False\<rparr>)
      | Some vg_list \<Rightarrow>
          and_then (for_each parse_vg_item vg_list st)
            (\<lambda>st'. Inr (st'\<lparr>has_lvm := (vg_list \<noteq> [])\<rparr>)))"

text \<open>
  \<open>StorageInstaller.__init__\<close>, up to \<open>_validate\<close>; what follows it only collects package
  names and cannot fail.
\<close>

definition StorageInstaller_new :: "string \<Rightarrow> StorageInstaller" where
  "StorageInstaller_new root =
     \<lparr>smanager = StorageManager_init\<lparr>mount_root_base := Some root\<rparr>, units_dict = [],
      has_disks = False, has_crypto = False, has_raids = False, has_lvm = False,
      target_root = root\<rparr>"

definition StorageInstaller_init :: "string \<Rightarrow> storage_config \<Rightarrow> error + StorageInstaller" where
  "StorageInstaller_init root cfg =
     and_then (parse_disks cfg (StorageInstaller_new root)) (\<lambda>st1.
     and_then (parse_crypto_volumes cfg st1) (\<lambda>st2.
     and_then (parse_raids cfg st2) (\<lambda>st3.
     and_then (parse_volume_groups cfg st3) validate)))"

section \<open>Effects: commands, device methods, events\<close>

text \<open>
  What the code does to the host is recorded as a log of steps, in the order in which they
  are attempted. A step that raises is in the log too: it was attempted.
\<close>

datatype phase = Apply | PostApply | Cleanup

datatype step =
    Cmd "string list"                \<comment> \<open>\<open>run_cmd(args)\<close>\<close>
  | Makedirs string                  \<comment> \<open>\<open>os.makedirs(dst)\<close>\<close>
  | WriteFile string string          \<comment> \<open>\<open>write_file(path, 'w', data)\<close>\<close>
  | Event string                     \<comment> \<open>\<open>event_receiver.start_event(msg)\<close>\<close>
  | CreatePartitions string          \<comment> \<open>\<open>disk.create_partitions()\<close>, \<open>raid.create_partitions()\<close>\<close>
  | MakeFs string                    \<comment> \<open>\<open>unit.make_fs()\<close>\<close>
  | OpenVolumes                      \<comment> \<open>\<open>cryptsetup.open_volumes()\<close>\<close>
  | CreateLogicalVolumes string      \<comment> \<open>\<open>vg.create_logical_volumes()\<close>\<close>
  | Deactivate string                \<comment> \<open>\<open>vg.deactivate()\<close>\<close>
  | Stop string                      \<comment> \<open>\<open>raid.stop()\<close>\<close>
  | CloseVolumes                     \<comment> \<open>\<open>cryptsetup.close_volumes()\<close>\<close>
  | Call phase string                \<comment> \<open>a lifecycle method of the installer of that name\<close>
  | CopyYamlConfig                   \<comment> \<open>\<open>self._copy_yaml_config()\<close>\<close>
  | RmdirTargetRoot                  \<comment> \<open>\<open>os.rmdir(self.TARGET_ROOT)\<close>\<close>

text \<open>
  The host: the exit status of a command and whether any other step raises, both given the
  steps attempted so far; the block device of a unit and the result of its \<open>fs_uuid\<close>
  property (the properties live in \<open>smanager/storage_unit.py\<close>, which is not under src/).
\<close>

record world =
  exit_status :: "step list \<Rightarrow> string list \<Rightarrow> int"
  raises :: "step list \<Rightarrow> step \<Rightarrow> bool"
  block_device :: "StorageUnit \<Rightarrow> string"
  fs_uuid :: "StorageUnit \<Rightarrow> error + string"

type_synonym action = "step list \<Rightarrow> error option \<times> step list"

definition skip :: action where
  "skip log = (None, log)"

text \<open>Sequencing: an exception in the first action leaves the second one out.\<close>

definition then_do :: "action \<Rightarrow> action \<Rightarrow> action" where
  "then_do a b log = (case a log of (Some e, log') \<Rightarrow> (Some e, log') | (None, log') \<Rightarrow> b log')"

fun for_steps :: "('a \<Rightarrow> action) \<Rightarrow> 'a list \<Rightarrow> action" where
  "for_steps f [] = skip"
| "for_steps f (x # xs) = then_do (f x) (for_steps f xs)"

text \<open>
  Modelled from the spec: \<open>run_cmd\<close> (common/utils.py) is not under src/. The exit status
  of the invocation is the sole success signal: a non-zero status is a hard failure, unless
  the caller passes \<open>ignore_status=True\<close>.
\<close>

definition run_cmd :: "world \<Rightarrow> string list \<Rightarrow> bool \<Rightarrow> action" where
  "run_cmd w args ignore_status log =
     (if exit_status w log args \<noteq> 0 \<and> \<not> ignore_status
      then (Some (CommandFailed args), log @ [Cmd args])
      else (None, log @ [Cmd args]))"

definition start_event :: "string \<Rightarrow> action" where
  "start_event msg log = (None, log @ [Event msg])"

text \<open>
  A method that is not under src/ (a device method, a file operation, a lifecycle method of
  another installer): one step, which returns or raises as the host decides.
\<close>

definition step_name :: "step \<Rightarrow> string" where
  "step_name s =
     (case s of
        Makedirs p \<Rightarrow> p | WriteFile p d \<Rightarrow> p | CreatePartitions i \<Rightarrow> i | MakeFs i \<Rightarrow> i
      | CreateLogicalVolumes i \<Rightarrow> i | Deactivate i \<Rightarrow> i | Stop i \<Rightarrow> i | Call ph n \<Rightarrow> n
      | _ \<Rightarrow> [])"

definition do_step :: "world \<Rightarrow> step \<Rightarrow> action" where
  "do_step w s log =
     (if raises w log s then (Some (StepFailed (step_name s)), log @ [s]) else (None, log @ [s]))"

subsection \<open>StorageManager: the phase operations\<close>

definition path_relative_to_mount_root_base :: "StorageManager \<Rightarrow> string \<Rightarrow> string" where
  "path_relative_to_mount_root_base m path =
     (case mount_root_base m of
        None \<Rightarrow> path
      | Some base \<Rightarrow>
          if base = [] then path
          else os_path_join base (if os_path_isabs path then lstrip_slash path else path))"

text \<open>The \<open>items\<close> of \<open>mount()\<close> and of \<open>unmount()\<close>, from an enumeration of the mount points.\<close>

definition mount_items :: "(string \<times> StorageUnit) list \<Rightarrow> (string \<times> StorageUnit) list" where
  "mount_items mps = py_sorted fst mps"

definition unmount_items :: "(string \<times> StorageUnit) list \<Rightarrow> (string \<times> StorageUnit) list" where
  "unmount_items mps = py_sorted_reverse fst mps"

definition mount :: "world \<Rightarrow> StorageManager \<Rightarrow> action" where
  "mount w m =
     for_steps (\<lambda>(mount_point, unit).
         let mnt_dir = path_relative_to_mount_root_base m mount_point in
         then_do (run_cmd w [''mkdir'', ''-p'', mnt_dir] False)
           (run_cmd w [''mount'', ''-t'', str_fs_type (fs_type unit), block_device w unit, mnt_dir]
              False))
       (mount_items (mount_points m))"

definition unmount :: "world \<Rightarrow> StorageManager \<Rightarrow> action" where
  "unmount w m =
     for_steps (\<lambda>(mount_point, unit).
         run_cmd w [''umount'', path_relative_to_mount_root_base m mount_point] False)
       (unmount_items (mount_points m))"

definition deactivate_block_devices :: "world \<Rightarrow> StorageManager \<Rightarrow> action" where
  "deactivate_block_devices w m =
     then_do (for_steps (\<lambda>vg. do_step w (Deactivate (dev_id vg)))
                (get_devices_by_type m is_VolumeGroup))
    (then_do (for_steps (\<lambda>raid. do_step w (Stop (dev_id raid)))
                (get_devices_by_type m is_RAID))
             (do_step w CloseVolumes))"

definition make_all_fs :: "world \<Rightarrow> StorageUnit list \<Rightarrow> action" where
  "make_all_fs w us = for_steps (\<lambda>u. do_step w (MakeFs (unit_id u))) us"

definition create_filesystems :: "world \<Rightarrow> StorageManager \<Rightarrow> action" where
  "create_filesystems w m =
     then_do (for_steps (\<lambda>disk. then_do (do_step w (CreatePartitions (dev_id disk)))
                                   (make_all_fs w (storage_units disk)))
                (get_devices_by_type m is_Disk))
    (then_do (do_step w OpenVolumes)
    (then_do (make_all_fs w (container_units m cryptsetup_id))
    (then_do (for_steps (\<lambda>raid. then_do (do_step w (CreatePartitions (dev_id raid)))
                                   (make_all_fs w (storage_units raid)))
                (get_devices_by_type m is_RAID))
             (for_steps (\<lambda>vg. then_do (do_step w (CreateLogicalVolumes (dev_id vg)))
                                   (make_all_fs w (storage_units vg)))
                (get_devices_by_type m is_VolumeGroup)))))"

subsection \<open>write_fstab\<close>

definition str_opt :: "string option \<Rightarrow> string" where
  "str_opt v = (case v of None \<Rightarrow> ''None'' | Some x \<Rightarrow> x)"

text \<open>The body of the loop of \<open>write_fstab\<close>, for a unit whose UUID is \<open>fs_spec\<close>.\<close>

definition fstab_line :: "string \<Rightarrow> StorageUnit \<Rightarrow> string" where
  "fstab_line fs_spec unit =
     (let fs_file = (if fs_type unit = Some SWAP then ''none'' else str_opt (mount_point unit));
          fs_vfstype = str_fs_type (fs_type unit);
          fs_mntopts = (if fs_type unit = Some SWAP \<or> fs_opts unit = [] then ''defaults''
                        else str_join '','' (fs_opts unit));
          fs_freq = ''0'';
          fs_passno = (if fs_type unit = Some SWAP then ''0''
                       else if mount_point unit = Some ''/'' then ''1''
                       else ''2'')
      in ''UUID='' @ fs_spec @ '' '' @ fs_file @ '' '' @ fs_vfstype @ '' '' @ fs_mntopts
           @ '' '' @ fs_freq @ '' '' @ fs_passno @ [CHR 0x0A])"

fun fstab_lines :: "world \<Rightarrow> StorageUnit list \<Rightarrow> error + string list" where
  "fstab_lines w [] = Inr []"
| "fstab_lines w (unit # us) =
     and_then (fs_uuid w unit) (\<lambda>fs_spec.
     and_then (fstab_lines w us) (\<lambda>lines. Inr (fstab_line fs_spec unit # lines)))"

text \<open>
  \<open>write_fstab\<close> reads the \<open>storage_units\<close> property twice: for \<open>swap_units\<close> and, through
  \<open>mount_points\<close>, for \<open>mount_units\<close>. Each reading iterates over a new
  \<open>set(self._devices.values())\<close>, in an order that Python does not specify, and the order
  of the swap lines is that order. So the two iterations are parameters: an iteration
  lists the values of the registry in the order in which the set made of them is iterated.
\<close>

type_synonym iteration = "StorageDevice list \<Rightarrow> StorageDevice list"

definition storage_units_iterated :: "iteration \<Rightarrow> StorageManager \<Rightarrow> StorageUnit list" where
  "storage_units_iterated iter m = concat (map storage_units (iter (devices_values m)))"

definition mount_points_iterated ::
  "iteration \<Rightarrow> StorageManager \<Rightarrow> (string \<times> StorageUnit) list" where
  "mount_points_iterated iter m = units_mount_points (storage_units_iterated iter m)"

text \<open>
  \<open>write_fstab\<close>; \<open>iter_swap\<close> is the iteration of the first reading and \<open>iter_mount\<close> that of
  the second. An exception of a UUID lookup leaves the loop before anything is written.
\<close>

definition write_fstab ::
  "world \<Rightarrow> iteration \<Rightarrow> iteration \<Rightarrow> StorageManager \<Rightarrow> string \<Rightarrow> action" where
  "write_fstab w iter_swap iter_mount m path log =
     (let swap_units = filter (\<lambda>u. fs_type u = Some SWAP) (storage_units_iterated iter_swap m);
          mount_units = map snd (py_sorted fst (mount_points_iterated iter_mount m))
      in case fstab_lines w (mount_units @ swap_units) of
           Inl e \<Rightarrow> (Some e, log)
         | Inr lines \<Rightarrow> do_step w (WriteFile path (concat lines)) log)"

subsection \<open>StorageInstaller: apply and cleanup\<close>

definition bind_mounts :: "string list" where
  "bind_mounts = [''dev'', ''proc'', ''sys'']"

definition abs_target_path :: "StorageInstaller \<Rightarrow> string \<Rightarrow> string" where
  "abs_target_path st rel_target_path =
     os_path_join (target_root st) (lstrip_slash rel_target_path)"

text \<open>
  \<open>_file_systems\<close>: the filesystem kinds of the registered units, each once. It is a Python
  set, iterated by \<open>apply()\<close> in an unspecified order; it is listed here in the order of
  first registration. It only decides the order of the \<open>modprobe\<close> commands, whose exit
  status is ignored, and no result below depends on that order.
\<close>

definition file_systems :: "StorageInstaller \<Rightarrow> FSType list" where
  "file_systems st = remdups (List.map_filter (\<lambda>(i, u). fs_type u) (units_dict st))"

definition StorageInstaller_apply :: "world \<Rightarrow> StorageInstaller \<Rightarrow> action" where
  "StorageInstaller_apply w st =
     then_do (start_event ''Creating and mounting file systems'')
    (then_do (for_steps (\<lambda>fs. run_cmd w [''modprobe'', FSType_str fs] True) (file_systems st))
    (then_do (create_filesystems w (smanager st))
    (then_do (mount w (smanager st))
             (for_steps (\<lambda>mount.
                  let src = os_path_join ''/'' mount; dst = abs_target_path st mount in
                  then_do (do_step w (Makedirs dst))
                    (run_cmd w [''mount'', ''-o'', ''bind'', src, dst] False))
                bind_mounts))))"

definition StorageInstaller_cleanup :: "world \<Rightarrow> StorageInstaller \<Rightarrow> action" where
  "StorageInstaller_cleanup w st =
     then_do (start_event ''Unmounting file systems'')
    (then_do (for_steps (\<lambda>mount. run_cmd w [''umount'', abs_target_path st mount] False)
                bind_mounts)
    (then_do (unmount w (smanager st))
             (deactivate_block_devices w (smanager st))))"

text \<open>
  The storage part of a run: \<open>_install_config\<close> constructs the storage installer, and only
  then may \<open>apply()\<close> start.
\<close>

definition storage_construct_and_apply ::
  "world \<Rightarrow> string \<Rightarrow> storage_config \<Rightarrow> error option \<times> step list" where
  "storage_construct_and_apply w root cfg =
     (case StorageInstaller_init root cfg of
        Inl e \<Rightarrow> (Some e, [])
      | Inr st \<Rightarrow> StorageInstaller_apply w st [])"

subsection \<open>The installation run (controllers/installer.py)\<close>

text \<open>
  \<open>_install_config\<close> once the installers are constructed: the \<open>apply()\<close> loop, the
  \<open>post_apply()\<close> loop, the copy of the configuration, the \<open>cleanup()\<close> loop over the
  reversed list, and the removal of the target root. The installers are given by their
  names, in the order of the list; a call of a lifecycle method is one step. The loop that
  collects the package names and the log lines do nothing to the host and are left out.
\<close>

definition install_config :: "world \<Rightarrow> bool \<Rightarrow> string list \<Rightarrow> action" where
  "install_config w copy_config installers =
     then_do (for_steps (\<lambda>i. do_step w (Call Apply i)) installers)
    (then_do (for_steps (\<lambda>i. do_step w (Call PostApply i)) installers)
    (then_do (if copy_config then do_step w CopyYamlConfig else skip)
    (then_do (for_steps (\<lambda>i. do_step w (Call Cleanup i)) (rev installers))
             (do_step w RmdirTargetRoot))))"

section \<open>Predicates and example inputs of the statements\<close>

text \<open>A result that is not an exception, and whose value has the property.\<close>

definition succeeds_with :: "('a \<Rightarrow> bool) \<Rightarrow> error + 'a \<Rightarrow> bool" where
  "succeeds_with P r = (case r of Inl e \<Rightarrow> False | Inr x \<Rightarrow> P x)"

text \<open>The Cryptsetup singleton is registered under its id.\<close>

definition has_cryptsetup :: "StorageManager \<Rightarrow> bool" where
  "has_cryptsetup m =
     (case get_device_by_id m cryptsetup_id of
        None \<Rightarrow> False
      | Some d \<Rightarrow> dev_class d = Cryptsetup \<and> dev_id d = cryptsetup_id)"

definition example_root :: UnitParams where
  "example_root =
     \<lparr>p_id = ''root'', p_size = 2147483648, p_fs_type = Some EXT4, p_mount_point = Some ''/'',
      p_crypto_passphrase = None, p_fs_opts = [], p_flags = []\<rparr>"

text \<open>
  A configuration in which the id \<open>/dev/vda\<close> names a disk and one of its partitions, and the
  id \<open>data\<close> names a partition and the volume group built on it.
\<close>

definition example_shared_id :: storage_config where
  "example_shared_id =
     \<lparr>disks =
        [\<lparr>disk_id = Some ''/dev/vda'',
          disk_partitions =
            [\<lparr>p_id = ''/dev/vda'', p_size = 2147483648, p_fs_type = Some EXT4,
              p_mount_point = Some ''/'', p_crypto_passphrase = None, p_fs_opts = [],
              p_flags = []\<rparr>,
             \<lparr>p_id = ''data'', p_size = 0, p_fs_type = Some PHYSICAL_VOLUME,
              p_mount_point = None, p_crypto_passphrase = None, p_fs_opts = [],
              p_flags = []\<rparr>]\<rparr>],
      crypto_volumes = None,
      raids = None,
      volume_groups =
        Some [\<lparr>vg_id = Some ''data'', vg_physical_volumes = [''data''],
               vg_logical_volumes =
                 [\<lparr>p_id = ''home'', p_size = 0, p_fs_type = Some EXT4,
                   p_mount_point = Some ''/home'', p_crypto_passphrase = None, p_fs_opts = [],
                   p_flags = []\<rparr>]\<rparr>]\<rparr>"

definition example_root_unit :: StorageUnit where
  "example_root_unit =
     \<lparr>unit_class = Partition, unit_id = ''root'', unit_device = ''/dev/vda'',
      unit_size = 2147483648, fs_type = Some EXT4, fs_opts = [], mount_point = Some ''/'',
      flags = [], crypto_passphrase = None, unit_partition = None\<rparr>"

definition example_unit_at :: "string \<Rightarrow> string \<Rightarrow> StorageUnit" where
  "example_unit_at i mp =
     \<lparr>unit_class = Partition, unit_id = i, unit_device = ''/dev/vda'',
      unit_size = 1073741824, fs_type = Some EXT4, fs_opts = [], mount_point = Some mp,
      flags = [], crypto_passphrase = None, unit_partition = None\<rparr>"

definition example_mount_points :: "(string \<times> StorageUnit) list" where
  "example_mount_points =
     [(''/home'', example_unit_at ''home'' ''/home''),
      (''/boot/efi'', example_unit_at ''efi'' ''/boot/efi''),
      (''/'', example_unit_at ''root'' ''/''),
      (''/boot'', example_unit_at ''boot'' ''/boot'')]"

text \<open>\<open>a\<close> is processed before \<open>b\<close> in the list.\<close>

definition processed_before :: "'a \<Rightarrow> 'a \<Rightarrow> 'a list \<Rightarrow> bool" where
  "processed_before a b l = (\<exists>xs ys zs. l = xs @ a # ys @ b # zs)"

text \<open>The fstab line of the claim, without its newline, for a unit whose UUID is given.\<close>

definition is_swap :: "StorageUnit \<Rightarrow> bool" where
  "is_swap u = (fs_type u = Some SWAP)"

definition is_mounted :: "StorageUnit \<Rightarrow> bool" where
  "is_mounted u = (case mount_point u of None \<Rightarrow> False | Some mp \<Rightarrow> mp \<noteq> [])"

definition fstab_entry :: "string \<Rightarrow> StorageUnit \<Rightarrow> string" where
  "fstab_entry uuid u =
     ''UUID='' @ uuid @ '' ''
     @ (if is_swap u then ''none'' else the (mount_point u)) @ '' ''
     @ str_fs_type (fs_type u) @ '' ''
     @ (if is_swap u \<or> fs_opts u = [] then ''defaults'' else str_join '','' (fs_opts u))
     @ '' 0 ''
     @ (if is_swap u then ''0'' else if mount_point u = Some ''/'' then ''1'' else ''2'')"

text \<open>The mounted units in ascending order of their mount points, and the swap units.\<close>

definition mounted_ascending :: "StorageUnit list \<Rightarrow> StorageUnit list" where
  "mounted_ascending us = sort_key (\<lambda>u. the (mount_point u)) (filter is_mounted us)"

definition swap_units :: "StorageUnit list \<Rightarrow> StorageUnit list" where
  "swap_units us = filter is_swap us"

text \<open>UUIDs for the units of the examples, and a host on which every step succeeds.\<close>

definition example_uuid :: "StorageUnit \<Rightarrow> string" where
  "example_uuid u =
     (if unit_id u = ''root'' then ''ABCD'' else if unit_id u = ''home'' then ''EF01'' else ''2345'')"

definition example_world :: world where
  "example_world =
     \<lparr>exit_status = (\<lambda>log args. 0), raises = (\<lambda>log s. False),
      block_device = (\<lambda>u. ''/dev/mapper/'' @ unit_id u),
      fs_uuid = (\<lambda>u. Inr (example_uuid u))\<rparr>"

text \<open>
  Attempting a list of steps in order, stopping at the first one that raises: the
  exception of a step on a host, and the steps attempted with the exception that ended them.
\<close>

definition step_error :: "world \<Rightarrow> step list \<Rightarrow> step \<Rightarrow> error option" where
  "step_error w log s =
     (case s of
        Cmd args \<Rightarrow> if exit_status w log args \<noteq> 0 then Some (CommandFailed args) else None
      | Event msg \<Rightarrow> None
      | _ \<Rightarrow> if raises w log s then Some (StepFailed (step_name s)) else None)"

fun attempt :: "world \<Rightarrow> step list \<Rightarrow> action" where
  "attempt w [] log = (None, log)"
| "attempt w (s # ss) log =
     (case step_error w log s of
        Some e \<Rightarrow> (Some e, log @ [s])
      | None \<Rightarrow> attempt w ss (log @ [s]))"

text \<open>The teardown steps of \<open>StorageInstaller.cleanup\<close>, in the order of the code.\<close>

definition cleanup_steps :: "StorageInstaller \<Rightarrow> step list" where
  "cleanup_steps st =
     [Event ''Unmounting file systems'']
     @ map (\<lambda>mount. Cmd [''umount'', abs_target_path st mount]) bind_mounts
     @ map (\<lambda>(mp, u). Cmd [''umount'', path_relative_to_mount_root_base (smanager st) mp])
         (unmount_items (mount_points (smanager st)))
     @ map (\<lambda>vg. Deactivate (dev_id vg)) (get_devices_by_type (smanager st) is_VolumeGroup)
     @ map (\<lambda>raid. Stop (dev_id raid)) (get_devices_by_type (smanager st) is_RAID)
     @ [CloseVolumes]"

declare attempt.simps [simp del]

text \<open>
  The scenario of the spec: one disk with an EFI partition, a boot partition and a root
  partition; and the installer constructed from it.
\<close>

definition example_simple_config :: storage_config where
  "example_simple_config =
     \<lparr>disks =
        [\<lparr>disk_id = Some ''/dev/vda'',
          disk_partitions =
            [\<lparr>p_id = ''efi'', p_size = 536870912, p_fs_type = Some VFAT,
              p_mount_point = Some ''/boot/efi'', p_crypto_passphrase = None, p_fs_opts = [],
              p_flags = [ESP]\<rparr>,
             \<lparr>p_id = ''boot'', p_size = 1073741824, p_fs_type = Some EXT4,
              p_mount_point = Some ''/boot'', p_crypto_passphrase = None, p_fs_opts = [],
              p_flags = []\<rparr>,
             \<lparr>p_id = ''root'', p_size = 0, p_fs_type = Some EXT4,
              p_mount_point = Some ''/'', p_crypto_passphrase = None, p_fs_opts = [],
              p_flags = []\<rparr>]\<rparr>],
      crypto_volumes = None, raids = None, volume_groups = None\<rparr>"

definition example_simple_installer :: StorageInstaller where
  "example_simple_installer =
     (case StorageInstaller_init ''/mnt/target_root'' example_simple_config of
        Inl e \<Rightarrow> StorageInstaller_new ''/mnt/target_root''
      | Inr st \<Rightarrow> st)"

text \<open>A host on which exactly the given command exits with a non-zero status.\<close>

definition world_failing :: "string list \<Rightarrow> world" where
  "world_failing cmd =
     \<lparr>exit_status = (\<lambda>log args. if args = cmd then 32 else 0), raises = (\<lambda>log s. False),
      block_device = (\<lambda>u. ''/dev/mapper/'' @ unit_id u), fs_uuid = (\<lambda>u. Inr (unit_id u))\<rparr>"

text \<open>The installers of \<open>_install_config\<close>, in the order of its list.\<close>

definition installers :: "string list" where
  "installers =
     [''StorageInstaller'', ''RepoInstaller'', ''ProxyInstaller'', ''PackagesInstaller'',
      ''ServicesInstaller'', ''SwapfileInstaller'', ''TimezoneInstaller'', ''UsersInstaller'',
      ''NetworkInstaller'', ''KernelInstaller'', ''BootloaderInstaller'',
      ''SecureBootInstaller'', ''PostScriptsInstaller'']"

text \<open>
  The steps of a run in the order of the code, and those of them that come before the
  \<open>cleanup()\<close> of the first installer of the list, which is the last one to be cleaned up.
\<close>

definition before_first_cleanup :: "bool \<Rightarrow> string \<Rightarrow> string list \<Rightarrow> step list" where
  "before_first_cleanup copy_config first others =
     map (Call Apply) (first # others) @ map (Call PostApply) (first # others)
     @ (if copy_config then [CopyYamlConfig] else [])
     @ map (Call Cleanup) (rev others)"

definition install_steps :: "bool \<Rightarrow> string \<Rightarrow> string list \<Rightarrow> step list" where
  "install_steps copy_config first others =
     before_first_cleanup copy_config first others @ [Call Cleanup first, RmdirTargetRoot]"

text \<open>A host on which exactly the given step raises.\<close>

definition world_raising :: "step \<Rightarrow> world" where
  "world_raising s =
     \<lparr>exit_status = (\<lambda>log args. 0), raises = (\<lambda>log s'. s' = s),
      block_device = (\<lambda>u. ''/dev/mapper/'' @ unit_id u), fs_uuid = (\<lambda>u. Inr (unit_id u))\<rparr>"

text \<open>The ids under which devices are registered, in registration order.\<close>

definition device_ids :: "StorageManager \<Rightarrow> string list" where
  "device_ids m = map fst (devices_dict m)"

text \<open>A list that may be missing from the configuration.\<close>

definition opt_list :: "'a list option \<Rightarrow> 'a list" where
  "opt_list v = (case v of None \<Rightarrow> [] | Some xs \<Rightarrow> xs)"

text \<open>
  The device ids that a configuration registers: the Cryptsetup singleton, the disks under
  their ids, the RAIDs under their joined ids, the volume groups under their ids.
\<close>

definition config_device_ids :: "storage_config \<Rightarrow> string list" where
  "config_device_ids cfg =
     cryptsetup_id # map (\<lambda>d. the (disk_id d)) (disks cfg)
     @ map (\<lambda>r. raid_device_id (the (raid_id r))) (opt_list (raids cfg))
     @ map (\<lambda>v. the (vg_id v)) (opt_list (volume_groups cfg))"

text \<open>Every device registered in \<open>m\<close> is still registered in \<open>m'\<close>, with the same class.\<close>

definition keeps :: "StorageManager \<Rightarrow> StorageManager \<Rightarrow> bool" where
  "keeps m m' =
     (\<forall>k d. get_device_by_id m k = Some d
        \<longrightarrow> (\<exists>d'. get_device_by_id m' k = Some d' \<and> dev_class d' = dev_class d))"

text \<open>What the three unit factories have in common.\<close>

definition unit_factory ::
  "(StorageManager \<Rightarrow> UnitParams \<Rightarrow> error + (StorageManager \<times> StorageUnit)) \<Rightarrow> string \<Rightarrow> bool" where
  "unit_factory F dev =
     (\<forall>m p m' u. F m p = Inr (m', u) \<longrightarrow>
        m' = append_unit m dev u \<and> check_mount_point m (p_mount_point p) = Inr ()
        \<and> mount_point u = p_mount_point p \<and> unit_id u = p_id p)"

text \<open>
  The example configuration of the header comment of installers/storage.py, with the id
  and the metadata key of its RAID entry as parameters (the comment has \<open>some_raid\<close> and no
  metadata key).
\<close>

definition unit_params ::
  "string \<Rightarrow> nat \<Rightarrow> FSType option \<Rightarrow> string option \<Rightarrow> UnitParams" where
  "unit_params i sz fs mp =
     \<lparr>p_id = i, p_size = sz, p_fs_type = fs, p_mount_point = mp,
      p_crypto_passphrase = None, p_fs_opts = [], p_flags = []\<rparr>"

definition example_header_config :: "string \<Rightarrow> string option \<Rightarrow> storage_config" where
  "example_header_config rid md =
     \<lparr>disks =
        [\<lparr>disk_id = Some ''/dev/vda'',
          disk_partitions =
            [(unit_params ''efi'' 536870912 (Some VFAT) (Some ''/boot/efi''))\<lparr>p_flags := [ESP]\<rparr>,
             unit_params ''boot'' 1073741824 (Some EXT4) (Some ''/boot''),
             unit_params ''raid_vda'' 10737418240 (Some RAID_MEMBER) None,
             (unit_params ''secret_data'' 0 (Some CRYPTO_PARTITION) None)
               \<lparr>p_crypto_passphrase := Some ''super-secret''\<rparr>]\<rparr>,
         \<lparr>disk_id = Some ''/dev/vdb'',
          disk_partitions = [unit_params ''raid_vdb'' 10737418240 (Some RAID_MEMBER) None]\<rparr>],
      crypto_volumes =
        Some [\<lparr>crypto_params =
                 (unit_params ''crypto_volume'' 0 (Some EXT4) (Some ''/secret''))
                   \<lparr>p_fs_opts := [''ro'']\<rparr>,
               on_partition = Some ''secret_data''\<rparr>],
      raids =
        Some [\<lparr>raid_id = Some rid, raid_level = Some 1, raid_metadata = md,
               raid_members = [''raid_vda'', ''raid_vdb''],
               raid_partitions =
                 [unit_params ''pv1'' 5368709120 (Some PHYSICAL_VOLUME) None,
                  unit_params ''pv2'' 0 (Some PHYSICAL_VOLUME) None]\<rparr>],
      volume_groups =
        Some [\<lparr>vg_id = Some ''some_vg'', vg_physical_volumes = [''pv1'', ''pv2''],
               vg_logical_volumes =
                 [unit_params ''root'' 2147483648 (Some EXT4) (Some ''/''),
                  (unit_params ''home'' 0 (Some EXT4) (Some ''/home''))
                    \<lparr>p_fs_opts := [''noauto'']\<rparr>]\<rparr>]\<rparr>"

text \<open>The unit entries of a configuration, and those that ask for the mount point \<open>/\<close>.\<close>

definition config_units :: "storage_config \<Rightarrow> UnitParams list" where
  "config_units cfg =
     concat (map disk_partitions (disks cfg))
     @ map crypto_params (opt_list (crypto_volumes cfg))
     @ concat (map raid_partitions (opt_list (raids cfg)))
     @ concat (map vg_logical_volumes (opt_list (volume_groups cfg)))"

definition is_root_params :: "UnitParams \<Rightarrow> bool" where
  "is_root_params p = (p_mount_point p = Some ''/'')"

definition root_params :: "storage_config \<Rightarrow> UnitParams list" where
  "root_params cfg = filter is_root_params (config_units cfg)"

text \<open>The units of the manager that are mounted at \<open>/\<close>.\<close>

definition root_units :: "StorageManager \<Rightarrow> StorageUnit list" where
  "root_units m = filter (\<lambda>u. mount_point u = Some ''/'') (manager_storage_units m)"

text \<open>
  The invariant of the construction: device ids are pairwise distinct, the device \<open>dev\<close> is
  registered, and at most one unit is mounted at \<open>/\<close>.
\<close>

definition registry_inv :: "string \<Rightarrow> StorageInstaller \<Rightarrow> bool" where
  "registry_inv dev st =
     (distinct (device_ids (smanager st)) \<and> dev \<in> set (device_ids (smanager st))
      \<and> length (root_units (smanager st)) \<le> 1)"

text \<open>The scenario with the root partition mounted elsewhere, and with two root partitions.\<close>

definition example_no_root_config :: storage_config where
  "example_no_root_config =
     \<lparr>disks =
        [\<lparr>disk_id = Some ''/dev/vda'',
          disk_partitions =
            [unit_params ''boot'' 1073741824 (Some EXT4) (Some ''/boot''),
             unit_params ''data'' 0 (Some EXT4) (Some ''/data'')]\<rparr>],
      crypto_volumes = None, raids = None, volume_groups = None\<rparr>"

definition example_two_roots_config :: storage_config where
  "example_two_roots_config =
     \<lparr>disks =
        [\<lparr>disk_id = Some ''/dev/vda'',
          disk_partitions = [unit_params ''root'' 1073741824 (Some EXT4) (Some ''/'')]\<rparr>,
         \<lparr>disk_id = Some ''/dev/vdb'',
          disk_partitions = [unit_params ''root2'' 1073741824 (Some EXT4) (Some ''/'')]\<rparr>],
      crypto_volumes = None, raids = None, volume_groups = None\<rparr>"

text \<open>The ids of the Disk partitions of a configuration.\<close>

definition disk_partition_ids :: "storage_config \<Rightarrow> string list" where
  "disk_partition_ids cfg = map p_id (concat (map disk_partitions (disks cfg)))"

text \<open>
  While the disks and the crypto volumes are parsed, every registered unit is a Disk
  partition of the configuration or a crypto volume.
\<close>

definition disk_or_crypto :: "storage_config \<Rightarrow> StorageInstaller \<Rightarrow> bool" where
  "disk_or_crypto cfg st =
     (\<forall>i u. map_of (units_dict st) i = Some u
        \<longrightarrow> i \<in> set (disk_partition_ids cfg) \<or> unit_class u = CryptoVolume)"



text \<open>The commands of \<open>mount()\<close> for one item, and the command of \<open>unmount()\<close>.\<close>

definition mount_commands :: "world \<Rightarrow> StorageManager \<Rightarrow> string \<times> StorageUnit \<Rightarrow> step list" where
  "mount_commands w m item =
     (case item of (mp, u) \<Rightarrow>
        [Cmd [''mkdir'', ''-p'', path_relative_to_mount_root_base m mp],
         Cmd [''mount'', ''-t'', str_fs_type (fs_type u), block_device w u,
              path_relative_to_mount_root_base m mp]])"

definition unmount_command :: "StorageManager \<Rightarrow> string \<times> StorageUnit \<Rightarrow> step" where
  "unmount_command m item =
     (case item of (mp, u) \<Rightarrow> Cmd [''umount'', path_relative_to_mount_root_base m mp])"

text \<open>
  One disk whose four partitions are declared in the order \<open>/boot/efi\<close>, \<open>/home\<close>, \<open>/boot\<close>,
  \<open>/\<close>, and the manager of the installer constructed from it.
\<close>

definition example_mounts_config :: storage_config where
  "example_mounts_config =
     \<lparr>disks =
        [\<lparr>disk_id = Some ''/dev/vda'',
          disk_partitions =
            [unit_params ''efi'' 1073741824 (Some EXT4) (Some ''/boot/efi''),
             unit_params ''home'' 1073741824 (Some EXT4) (Some ''/home''),
             unit_params ''boot'' 1073741824 (Some EXT4) (Some ''/boot''),
             unit_params ''root'' 1073741824 (Some EXT4) (Some ''/'')]\<rparr>],
      crypto_volumes = None, raids = None, volume_groups = None\<rparr>"

definition example_mounts_manager :: StorageManager where
  "example_mounts_manager =
     (case StorageInstaller_init ''/mnt/target_root'' example_mounts_config of
        Inl e \<Rightarrow> StorageManager_init
      | Inr st \<Rightarrow> smanager st)"

text \<open>An iteration over the set of the devices of a manager lists every device once.\<close>

definition is_iteration :: "iteration \<Rightarrow> StorageManager \<Rightarrow> bool" where
  "is_iteration iter m = (mset (iter (devices_values m)) = mset (devices_values m))"

text \<open>
  Two disks: the first with an unformatted partition, a swap partition, \<open>/home\<close> and \<open>/\<close>,
  the second with a swap partition; the manager of the installer constructed from them;
  and a host on which the UUID lookup of an unformatted unit raises.
\<close>

definition example_fstab_config :: storage_config where
  "example_fstab_config =
     \<lparr>disks =
        [\<lparr>disk_id = Some ''/dev/vda'',
          disk_partitions =
            [unit_params ''bios'' 1048576 None None,
             unit_params ''swap'' 1073741824 (Some SWAP) None,
             (unit_params ''home'' 1073741824 (Some EXT4) (Some ''/home''))
               \<lparr>p_fs_opts := [''noauto'', ''ro'']\<rparr>,
             unit_params ''root'' 0 (Some EXT4) (Some ''/'')]\<rparr>,
         \<lparr>disk_id = Some ''/dev/vdb'',
          disk_partitions = [unit_params ''swap2'' 0 (Some SWAP) None]\<rparr>],
      crypto_volumes = None, raids = None, volume_groups = None\<rparr>"

definition example_fstab_manager :: StorageManager where
  "example_fstab_manager =
     (case StorageInstaller_init ''/mnt/target_root'' example_fstab_config of
        Inl e \<Rightarrow> StorageManager_init
      | Inr st \<Rightarrow> smanager st)"

definition example_fstab_uuid :: "StorageUnit \<Rightarrow> string" where
  "example_fstab_uuid u = (if unit_id u = ''swap2'' then ''6789'' else example_uuid u)"

definition example_fstab_world :: world where
  "example_fstab_world =
     \<lparr>exit_status = (\<lambda>log args. 0), raises = (\<lambda>log s. False),
      block_device = (\<lambda>u. ''/dev/mapper/'' @ unit_id u),
      fs_uuid = (\<lambda>u. if fs_type u = None then Inl (NoUUID (unit_id u))
                       else Inr (example_fstab_uuid u))\<rparr>"

section \<open>Results\<close>

subsection \<open>The registry and the Cryptsetup singleton\<close>

lemma map_of_append_absent:
  "map_of xs i = None \<Longrightarrow> map_of (xs @ [(i, d)]) k = (if k = i then Some d else map_of xs k)"
  by (induction xs) auto

lemma map_of_append_unit:
  "map_of (map (\<lambda>(k, d). if k = i then (k, f d) else (k, d)) xs) k
     = map_option (\<lambda>d. if k = i then f d else d) (map_of xs k)"
  by (induction xs) auto

lemma get_device_append_unit:
  "get_device_by_id (append_unit m i u) k
     = map_option (\<lambda>d. if k = i then d\<lparr>storage_units := storage_units d @ [u]\<rparr> else d)
         (get_device_by_id m k)"
  unfolding get_device_by_id_def append_unit_def
  using map_of_append_unit [of i "\<lambda>d. d\<lparr>storage_units := storage_units d @ [u]\<rparr>" "devices_dict m" k]
  by simp

lemma has_cryptsetup_append_unit: "has_cryptsetup m \<Longrightarrow> has_cryptsetup (append_unit m i u)"
  by (auto simp: has_cryptsetup_def get_device_append_unit split: option.splits)

lemma has_cryptsetup_register:
  "has_cryptsetup m \<Longrightarrow> get_device_by_id m i = None
     \<Longrightarrow> has_cryptsetup (m\<lparr>devices_dict := devices_dict m @ [(i, d)]\<rparr>)"
  by (auto simp: has_cryptsetup_def get_device_by_id_def map_of_append_absent split: option.splits)

lemma has_cryptsetup_add_disk: "has_cryptsetup m \<Longrightarrow> add_disk m i = Inr m' \<Longrightarrow> has_cryptsetup m'"
  by (auto simp: add_disk_def has_cryptsetup_register split: option.splits)

lemma has_cryptsetup_add_vg: "has_cryptsetup m \<Longrightarrow> add_vg m i pvs = Inr m' \<Longrightarrow> has_cryptsetup m'"
  by (auto simp: add_vg_def and_then_def has_cryptsetup_register split: option.splits sum.splits)

lemma has_cryptsetup_add_raid:
  "has_cryptsetup m \<Longrightarrow> add_raid m i l ms md = Inr m' \<Longrightarrow> has_cryptsetup m'"
  by (auto simp: add_raid_def and_then_def has_cryptsetup_register split: option.splits sum.splits)

lemma has_cryptsetup_add_partition:
  "has_cryptsetup m \<Longrightarrow> add_partition m dev p = Inr (m', u) \<Longrightarrow> has_cryptsetup m'"
  by (auto simp: add_partition_def and_then_def Let_def has_cryptsetup_append_unit split: sum.splits)

lemma has_cryptsetup_add_lv:
  "has_cryptsetup m \<Longrightarrow> add_lv m dev p = Inr (m', u) \<Longrightarrow> has_cryptsetup m'"
  by (auto simp: add_lv_def and_then_def Let_def has_cryptsetup_append_unit split: sum.splits)

lemma has_cryptsetup_add_volume:
  "has_cryptsetup m \<Longrightarrow> add_volume m part p = Inr (m', u) \<Longrightarrow> has_cryptsetup m'"
  by (auto simp: add_volume_def and_then_def Let_def has_cryptsetup_append_unit split: sum.splits if_splits)

lemma has_cryptsetup_init: "has_cryptsetup StorageManager_init"
  by (simp add: has_cryptsetup_def StorageManager_init_def get_device_by_id_def)

lemma has_cryptsetup_in_devices:
  "has_cryptsetup m \<Longrightarrow> \<exists>d\<in>set (devices m). dev_class d = Cryptsetup \<and> dev_id d = cryptsetup_id"
  unfolding has_cryptsetup_def devices_def devices_values_def get_device_by_id_def
  by (auto split: option.splits dest!: map_of_SomeD intro!: bexI [where x = "(cryptsetup_id, _)"])

text \<open>
  C10. A freshly constructed manager has the Cryptsetup singleton registered under
  \<open>__cryptsetup__\<close>; every factory operation keeps it registered; so \<open>add_disk\<close>, \<open>add_vg\<close>
  and \<open>add_raid\<close> with that id raise the duplicate-id error, and the devices always contain
  the Cryptsetup device.
\<close>

theorem cryptsetup_always_registered:
  "has_cryptsetup StorageManager_init
   \<and> (has_cryptsetup m \<longrightarrow>
        (add_disk m i = Inr m1 \<longrightarrow> has_cryptsetup m1)
      \<and> (add_vg m i pvs = Inr m2 \<longrightarrow> has_cryptsetup m2)
      \<and> (add_raid m i level members metadata = Inr m3 \<longrightarrow> has_cryptsetup m3)
      \<and> (add_partition m dev p = Inr (m4, u4) \<longrightarrow> has_cryptsetup m4)
      \<and> (add_lv m dev p = Inr (m5, u5) \<longrightarrow> has_cryptsetup m5)
      \<and> (add_volume m part p = Inr (m6, u6) \<longrightarrow> has_cryptsetup m6)
      \<and> add_disk m cryptsetup_id = Inl (AlreadyExists cryptsetup_id)
      \<and> add_vg m cryptsetup_id pvs = Inl (AlreadyExists cryptsetup_id)
      \<and> add_raid m cryptsetup_id level members metadata = Inl (AlreadyExists cryptsetup_id)
      \<and> (\<exists>d\<in>set (devices m). dev_class d = Cryptsetup \<and> dev_id d = cryptsetup_id))"
proof (intro conjI impI)
  show "has_cryptsetup StorageManager_init" by (rule has_cryptsetup_init)
next
  assume h: "has_cryptsetup m"
  show "add_disk m cryptsetup_id = Inl (AlreadyExists cryptsetup_id)"
    using h by (auto simp: has_cryptsetup_def add_disk_def split: option.splits)
  show "add_vg m cryptsetup_id pvs = Inl (AlreadyExists cryptsetup_id)"
    using h by (auto simp: has_cryptsetup_def add_vg_def split: option.splits)
  show "add_raid m cryptsetup_id level members metadata = Inl (AlreadyExists cryptsetup_id)"
    using h by (auto simp: has_cryptsetup_def add_raid_def split: option.splits)
  show "\<exists>d\<in>set (devices m). dev_class d = Cryptsetup \<and> dev_id d = cryptsetup_id"
    using h by (rule has_cryptsetup_in_devices)
qed (auto intro: has_cryptsetup_add_disk has_cryptsetup_add_vg has_cryptsetup_add_raid
       has_cryptsetup_add_partition has_cryptsetup_add_lv has_cryptsetup_add_volume)

lemma succeeds_withI: "r = Inr x \<Longrightarrow> P x \<Longrightarrow> succeeds_with P r"
  by (simp add: succeeds_with_def)

lemma succeeds_withE: "succeeds_with P r \<Longrightarrow> \<exists>x. r = Inr x \<and> P x"
  by (cases r) (auto simp: succeeds_with_def)

theorem cryptsetup_always_registered_witness:
  "succeeds_with (\<lambda>m. has_cryptsetup m
       \<and> add_disk m cryptsetup_id = Inl (AlreadyExists cryptsetup_id)
       \<and> succeeds_with (\<lambda>(m', u). has_cryptsetup m') (add_partition m ''/dev/vda'' example_root))
     (add_disk StorageManager_init ''/dev/vda'')
   \<and> succeeds_with has_cryptsetup (add_vg StorageManager_init ''some_vg'' [])
   \<and> succeeds_with has_cryptsetup (add_raid StorageManager_init ''/dev/md/some_raid'' 1 [] ''1.2'')"
proof -
  have i: "has_cryptsetup StorageManager_init"
    using cryptsetup_always_registered by blast
  obtain m1 where a: "add_disk StorageManager_init ''/dev/vda'' = Inr m1"
    by (simp add: add_disk_def get_device_by_id_def StorageManager_init_def cryptsetup_id_def)
  have h1: "has_cryptsetup m1"
    using cryptsetup_always_registered [of StorageManager_init "''/dev/vda''" m1] a i by blast
  have d1: "add_disk m1 cryptsetup_id = Inl (AlreadyExists cryptsetup_id)"
    using cryptsetup_always_registered [of m1] h1 by blast
  obtain m4 u4 where b: "add_partition m1 ''/dev/vda'' example_root = Inr (m4, u4)"
    using a
    by (auto simp: add_disk_def get_device_by_id_def StorageManager_init_def cryptsetup_id_def
        add_partition_def check_mount_point_def check_can_mount_to_def example_root_def
        os_path_isabs_def get_unit_by_mount_point_internal_def devices_values_def
        check_not_after_rest_def container_units_def and_then_def Let_def)
  have h4: "has_cryptsetup m4"
    using cryptsetup_always_registered [of m1 _ _ _ _ _ _ _ _ "''/dev/vda''" example_root m4 u4] h1 b
    by blast
  obtain m2 where c: "add_vg StorageManager_init ''some_vg'' [] = Inr m2"
    by (simp add: add_vg_def get_device_by_id_def StorageManager_init_def cryptsetup_id_def
        VolumeGroup_new_def and_then_def)
  have h2: "has_cryptsetup m2"
    using cryptsetup_always_registered [of StorageManager_init "''some_vg''" _ "[]" m2] c i by blast
  obtain m3 where d: "add_raid StorageManager_init ''/dev/md/some_raid'' 1 [] ''1.2'' = Inr m3"
    by (simp add: add_raid_def get_device_by_id_def StorageManager_init_def cryptsetup_id_def
        RAID_new_def and_then_def)
  have h3: "has_cryptsetup m3"
    using cryptsetup_always_registered
      [of StorageManager_init "''/dev/md/some_raid''" _ _ _ 1 "[]" "''1.2''" m3] d i
    by blast
  show ?thesis
    using a b c d h1 h2 h3 h4 d1 by (simp add: succeeds_with_def)
qed

subsection \<open>Uniqueness of ids\<close>

text \<open>
  C4, as amended. There are two registries, each with ids unique within it: the manager's
  \<open>_devices\<close>, which \<open>add_disk\<close>, \<open>add_vg\<close> and \<open>add_raid\<close> consult, and the installer's
  \<open>_units\<close>, which \<open>_add_unit\<close> consults for every partition, logical volume and crypto
  volume. A device id already registered as a device is rejected, and a unit id already
  registered as a unit is rejected. A registration that succeeds records the id in its own
  registry and keeps the ids registered before, so that a second registration under that
  id, as a disk, a volume group or a RAID (for a unit: as any unit), is rejected. An id
  that is absent from a registration's own registry is not rejected as a duplicate,
  whatever the other registry holds.
\<close>

theorem ids_unique_per_registry:
  "(get_device_by_id m i = Some d \<longrightarrow>
       add_disk m i = Inl (AlreadyExists (dev_id d))
     \<and> add_vg m i pvs = Inl (AlreadyExists (dev_id d))
     \<and> add_raid m i level members metadata = Inl (AlreadyExists (dev_id d)))
   \<and> (map_of (units_dict st) (unit_id u) \<noteq> None \<longrightarrow>
        add_unit st u = Inl (UnitAlreadyDefined (unit_id u)))
   \<and> (get_device_by_id (smanager st) i = None \<longrightarrow>
        \<not> isl (add_disk (smanager st) i)
      \<and> (\<forall>x. add_vg (smanager st) i pvs \<noteq> Inl (AlreadyExists x))
      \<and> (\<forall>x. add_raid (smanager st) i level members metadata \<noteq> Inl (AlreadyExists x)))
   \<and> (map_of (units_dict st) (unit_id u) = None \<longrightarrow> \<not> isl (add_unit st u))
   \<and> (add_disk m i = Inr m1 \<or> add_vg m i pvs = Inr m1
        \<or> add_raid m i level members metadata = Inr m1 \<longrightarrow>
        get_device_by_id m i = None
      \<and> (\<exists>d1. get_device_by_id m1 i = Some d1 \<and> dev_id d1 = i)
      \<and> (get_device_by_id m k = Some d0 \<longrightarrow> get_device_by_id m1 k = Some d0)
      \<and> add_disk m1 i = Inl (AlreadyExists i)
      \<and> add_vg m1 i pvs' = Inl (AlreadyExists i)
      \<and> add_raid m1 i level' members' metadata' = Inl (AlreadyExists i))
   \<and> (add_unit st u = Inr st1 \<longrightarrow>
        map_of (units_dict st) (unit_id u) = None
      \<and> map_of (units_dict st1) (unit_id u) = Some u
      \<and> (map_of (units_dict st) j = Some u0 \<longrightarrow> map_of (units_dict st1) j = Some u0)
      \<and> smanager st1 = smanager st
      \<and> (unit_id u' = unit_id u \<longrightarrow> add_unit st1 u' = Inl (UnitAlreadyDefined (unit_id u))))"
proof -
  have a: "get_device_by_id m i = Some d \<longrightarrow>
       add_disk m i = Inl (AlreadyExists (dev_id d))
     \<and> add_vg m i pvs = Inl (AlreadyExists (dev_id d))
     \<and> add_raid m i level members metadata = Inl (AlreadyExists (dev_id d))"
    by (simp add: add_disk_def add_vg_def add_raid_def)
  have b: "map_of (units_dict st) (unit_id u) \<noteq> None \<longrightarrow>
        add_unit st u = Inl (UnitAlreadyDefined (unit_id u))"
    by (simp add: add_unit_def)
  have c: "get_device_by_id (smanager st) i = None \<longrightarrow>
        \<not> isl (add_disk (smanager st) i)
      \<and> (\<forall>x. add_vg (smanager st) i pvs \<noteq> Inl (AlreadyExists x))
      \<and> (\<forall>x. add_raid (smanager st) i level members metadata \<noteq> Inl (AlreadyExists x))"
    by (auto simp: add_disk_def add_vg_def add_raid_def and_then_def VolumeGroup_new_def
        RAID_new_def split: option.splits)
  have d: "map_of (units_dict st) (unit_id u) = None \<longrightarrow> \<not> isl (add_unit st u)"
    by (simp add: add_unit_def)
  have reg: "get_device_by_id m i = None \<Longrightarrow> m1 = m\<lparr>devices_dict := devices_dict m @ [(i, d1)]\<rparr>
      \<Longrightarrow> dev_id d1 = i
      \<Longrightarrow> (\<exists>d1. get_device_by_id m1 i = Some d1 \<and> dev_id d1 = i)
      \<and> (get_device_by_id m k = Some d0 \<longrightarrow> get_device_by_id m1 k = Some d0)
      \<and> add_disk m1 i = Inl (AlreadyExists i)
      \<and> add_vg m1 i pvs' = Inl (AlreadyExists i)
      \<and> add_raid m1 i level' members' metadata' = Inl (AlreadyExists i)" for d1
    by (simp add: get_device_by_id_def map_add_def add_disk_def add_vg_def add_raid_def)
  have e: "add_disk m i = Inr m1 \<or> add_vg m i pvs = Inr m1
        \<or> add_raid m i level members metadata = Inr m1 \<longrightarrow>
        get_device_by_id m i = None
      \<and> (\<exists>d1. get_device_by_id m1 i = Some d1 \<and> dev_id d1 = i)
      \<and> (get_device_by_id m k = Some d0 \<longrightarrow> get_device_by_id m1 k = Some d0)
      \<and> add_disk m1 i = Inl (AlreadyExists i)
      \<and> add_vg m1 i pvs' = Inl (AlreadyExists i)
      \<and> add_raid m1 i level' members' metadata' = Inl (AlreadyExists i)"
  proof
    assume h: "add_disk m i = Inr m1 \<or> add_vg m i pvs = Inr m1
        \<or> add_raid m i level members metadata = Inr m1"
    have n: "get_device_by_id m i = None"
      using h by (auto simp: add_disk_def add_vg_def add_raid_def split: option.splits)
    obtain d1 where "m1 = m\<lparr>devices_dict := devices_dict m @ [(i, d1)]\<rparr>" "dev_id d1 = i"
      using h n
      by (auto simp: add_disk_def add_vg_def add_raid_def and_then_def VolumeGroup_new_def
          RAID_new_def split: option.splits)
    then show "get_device_by_id m i = None
      \<and> (\<exists>d1. get_device_by_id m1 i = Some d1 \<and> dev_id d1 = i)
      \<and> (get_device_by_id m k = Some d0 \<longrightarrow> get_device_by_id m1 k = Some d0)
      \<and> add_disk m1 i = Inl (AlreadyExists i)
      \<and> add_vg m1 i pvs' = Inl (AlreadyExists i)
      \<and> add_raid m1 i level' members' metadata' = Inl (AlreadyExists i)"
      using reg [OF n] n by blast
  qed
  have f: "add_unit st u = Inr st1 \<longrightarrow>
        map_of (units_dict st) (unit_id u) = None
      \<and> map_of (units_dict st1) (unit_id u) = Some u
      \<and> (map_of (units_dict st) j = Some u0 \<longrightarrow> map_of (units_dict st1) j = Some u0)
      \<and> smanager st1 = smanager st
      \<and> (unit_id u' = unit_id u \<longrightarrow> add_unit st1 u' = Inl (UnitAlreadyDefined (unit_id u)))"
    by (auto simp: add_unit_def map_add_def split: if_splits)
  show ?thesis using a b c d e f by blast
qed

theorem ids_unique_per_registry_witness:
  "succeeds_with
     (\<lambda>m1. get_device_by_id m1 ''/dev/vda'' \<noteq> None
        \<and> add_disk m1 ''/dev/vda'' = Inl (AlreadyExists ''/dev/vda'')
        \<and> add_vg m1 ''/dev/vda'' [] = Inl (AlreadyExists ''/dev/vda'')
        \<and> add_raid m1 ''/dev/vda'' 1 [] ''1.2'' = Inl (AlreadyExists ''/dev/vda'')
        \<and> add_disk m1 cryptsetup_id = Inl (AlreadyExists cryptsetup_id))
     (add_disk StorageManager_init ''/dev/vda'')
   \<and> succeeds_with
     (\<lambda>m2. get_device_by_id m2 ''some_vg'' \<noteq> None
        \<and> add_disk m2 ''some_vg'' = Inl (AlreadyExists ''some_vg'')
        \<and> add_vg m2 ''some_vg'' [] = Inl (AlreadyExists ''some_vg'')
        \<and> add_raid m2 ''some_vg'' 1 [] ''1.2'' = Inl (AlreadyExists ''some_vg''))
     (add_vg StorageManager_init ''some_vg'' [])
   \<and> succeeds_with
     (\<lambda>m3. get_device_by_id m3 ''/dev/md/some_raid'' \<noteq> None
        \<and> add_disk m3 ''/dev/md/some_raid'' = Inl (AlreadyExists ''/dev/md/some_raid'')
        \<and> add_vg m3 ''/dev/md/some_raid'' [] = Inl (AlreadyExists ''/dev/md/some_raid'')
        \<and> add_raid m3 ''/dev/md/some_raid'' 1 [] ''1.2''
            = Inl (AlreadyExists ''/dev/md/some_raid''))
     (add_raid StorageManager_init ''/dev/md/some_raid'' 1 [] ''1.2'')
   \<and> succeeds_with
     (\<lambda>st1. map_of (units_dict st1) ''root'' = Some example_root_unit
        \<and> add_unit st1 example_root_unit = Inl (UnitAlreadyDefined ''root'')
        \<and> add_unit st1 (example_unit_at ''root'' ''/home'') = Inl (UnitAlreadyDefined ''root'')
        \<and> \<not> isl (add_disk (smanager st1) ''root'')
        \<and> add_vg (smanager st1) ''root'' [] \<noteq> Inl (AlreadyExists ''root'')
        \<and> add_raid (smanager st1) ''root'' 1 [] ''1.2'' \<noteq> Inl (AlreadyExists ''root'')
        \<and> \<not> isl (add_unit st1 (example_unit_at ''__cryptsetup__'' ''/home'')))
     (add_unit (StorageInstaller_new ''/mnt/target_root'') example_root_unit)"
proof -
  let ?c = "\<lparr>dev_class = Cryptsetup, dev_id = cryptsetup_id, storage_units = []\<rparr>"
  let ?st = "StorageInstaller_new ''/mnt/target_root''"
  have g: "get_device_by_id StorageManager_init cryptsetup_id = Some ?c"
    by (simp add: get_device_by_id_def StorageManager_init_def)
  obtain m1 where a1: "add_disk StorageManager_init ''/dev/vda'' = Inr m1"
    by (simp add: add_disk_def get_device_by_id_def StorageManager_init_def cryptsetup_id_def)
  note t1 = ids_unique_per_registry [where m = StorageManager_init and i = "''/dev/vda''"
      and ?m1.0 = m1 and pvs' = "[]" and level' = 1 and members' = "[]" and metadata' = "''1.2''"
      and k = cryptsetup_id and ?d0.0 = ?c]
  have r1: "get_device_by_id m1 ''/dev/vda'' \<noteq> None
        \<and> add_disk m1 ''/dev/vda'' = Inl (AlreadyExists ''/dev/vda'')
        \<and> add_vg m1 ''/dev/vda'' [] = Inl (AlreadyExists ''/dev/vda'')
        \<and> add_raid m1 ''/dev/vda'' 1 [] ''1.2'' = Inl (AlreadyExists ''/dev/vda'')
        \<and> get_device_by_id m1 cryptsetup_id = Some ?c"
    using t1 a1 g by blast
  have r1c: "add_disk m1 cryptsetup_id = Inl (AlreadyExists (dev_id ?c))"
    using ids_unique_per_registry [where m = m1 and i = cryptsetup_id and d = ?c] r1 by blast
  obtain m2 where a2: "add_vg StorageManager_init ''some_vg'' [] = Inr m2"
    by (simp add: add_vg_def get_device_by_id_def StorageManager_init_def cryptsetup_id_def
        VolumeGroup_new_def and_then_def)
  have r2: "get_device_by_id m2 ''some_vg'' \<noteq> None
        \<and> add_disk m2 ''some_vg'' = Inl (AlreadyExists ''some_vg'')
        \<and> add_vg m2 ''some_vg'' [] = Inl (AlreadyExists ''some_vg'')
        \<and> add_raid m2 ''some_vg'' 1 [] ''1.2'' = Inl (AlreadyExists ''some_vg'')"
    using ids_unique_per_registry [where m = StorageManager_init and i = "''some_vg''"
      and pvs = "[]" and ?m1.0 = m2 and pvs' = "[]" and level' = 1 and members' = "[]"
      and metadata' = "''1.2''"] a2
    by blast
  obtain m3 where a3: "add_raid StorageManager_init ''/dev/md/some_raid'' 1 [] ''1.2'' = Inr m3"
    by (simp add: add_raid_def get_device_by_id_def StorageManager_init_def cryptsetup_id_def
        RAID_new_def and_then_def)
  have r3: "get_device_by_id m3 ''/dev/md/some_raid'' \<noteq> None
        \<and> add_disk m3 ''/dev/md/some_raid'' = Inl (AlreadyExists ''/dev/md/some_raid'')
        \<and> add_vg m3 ''/dev/md/some_raid'' [] = Inl (AlreadyExists ''/dev/md/some_raid'')
        \<and> add_raid m3 ''/dev/md/some_raid'' 1 [] ''1.2''
            = Inl (AlreadyExists ''/dev/md/some_raid'')"
    using ids_unique_per_registry [where m = StorageManager_init and i = "''/dev/md/some_raid''"
      and level = 1 and members = "[]" and metadata = "''1.2''" and ?m1.0 = m3 and pvs' = "[]"
      and level' = 1 and members' = "[]" and metadata' = "''1.2''"] a3
    by blast
  obtain st1 where a4: "add_unit ?st example_root_unit = Inr st1"
    by (simp add: add_unit_def StorageInstaller_new_def)
  have id_root: "unit_id example_root_unit = ''root''"
    by (simp add: example_root_unit_def)
  have id_at: "unit_id (example_unit_at j mp) = j" for j mp
    by (simp add: example_unit_at_def)
  have r4: "map_of (units_dict st1) ''root'' = Some example_root_unit
        \<and> smanager st1 = smanager ?st
        \<and> add_unit st1 (example_unit_at ''root'' ''/home'') = Inl (UnitAlreadyDefined ''root'')"
    using ids_unique_per_registry [where st = ?st and u = example_root_unit and ?st1.0 = st1
        and u' = "example_unit_at ''root'' ''/home''"] a4 id_root id_at
    by simp
  have r4b: "add_unit st1 example_root_unit = Inl (UnitAlreadyDefined ''root'')"
    using ids_unique_per_registry [where st = st1 and u = example_root_unit] r4 id_root
    by simp
  have n: "get_device_by_id (smanager st1) ''root'' = None"
    using r4 by (simp add: get_device_by_id_def StorageInstaller_new_def StorageManager_init_def
        cryptsetup_id_def)
  have r5: "\<not> isl (add_disk (smanager st1) ''root'')
        \<and> add_vg (smanager st1) ''root'' [] \<noteq> Inl (AlreadyExists ''root'')
        \<and> add_raid (smanager st1) ''root'' 1 [] ''1.2'' \<noteq> Inl (AlreadyExists ''root'')"
    using ids_unique_per_registry [where st = st1 and i = "''root''" and pvs = "[]"
        and level = 1 and members = "[]" and metadata = "''1.2''"] n
    by blast
  have u: "map_of (units_dict st1) (unit_id (example_unit_at ''__cryptsetup__'' ''/home'')) = None"
    using a4 by (auto simp: add_unit_def StorageInstaller_new_def id_at id_root split: if_splits)
  have r6: "\<not> isl (add_unit st1 (example_unit_at ''__cryptsetup__'' ''/home''))"
    using ids_unique_per_registry
      [where st = st1 and u = "example_unit_at ''__cryptsetup__'' ''/home''"] u
    by blast
  show ?thesis
    using a1 a2 a3 a4 r1 r1c r2 r3 r4 r4b r5 r6 by (simp add: succeeds_with_def)
qed

text \<open>
  The claim as stated (one namespace for units and devices) fails: this configuration is
  accepted, with \<open>data\<close> and \<open>/dev/vda\<close> each registered both as a unit and as a device.
\<close>

theorem shared_namespace_counterexample:
  "succeeds_with
     (\<lambda>st. map_of (units_dict st) ''data'' \<noteq> None \<and> get_device_by_id (smanager st) ''data'' \<noteq> None
          \<and> map_of (units_dict st) ''/dev/vda'' \<noteq> None
          \<and> get_device_by_id (smanager st) ''/dev/vda'' \<noteq> None)
     (StorageInstaller_init ''/mnt/target_root'' example_shared_id)"
  unfolding succeeds_with_def example_shared_id_def StorageInstaller_init_def
    parse_disks_def parse_crypto_volumes_def parse_raids_def parse_volume_groups_def
    parse_disk_item_def parse_vg_item_def parse_unit_def validate_def StorageInstaller_new_def
    StorageManager_init_def cryptsetup_id_def
  by (simp add: and_then_def read_key_or_fail_def add_disk_def add_vg_def add_unit_def
      add_partition_def add_lv_def get_device_by_id_def check_mount_point_def
      check_can_mount_to_def check_not_after_rest_def container_units_def append_unit_def
      get_unit_by_mount_point_internal_def devices_values_def os_path_isabs_def Let_def
      unit_by_id_def VolumeGroup_new_def physical_volume_ok_def owner_is_def
      get_unit_by_mount_point_def mount_points_def manager_storage_units_def devices_def)

subsection \<open>Steps attempted in order\<close>

text \<open>The definitions that evaluating the construction of an installer unfolds.\<close>

lemmas parse_defs =
  StorageInstaller_init_def parse_disks_def parse_crypto_volumes_def parse_raids_def
  parse_volume_groups_def parse_disk_item_def parse_crypto_item_def parse_raid_item_def
  parse_vg_item_def parse_unit_def validate_def StorageInstaller_new_def
  StorageManager_init_def cryptsetup_id_def and_then_def read_key_or_fail_def add_disk_def
  add_vg_def add_raid_def add_unit_def add_partition_def add_lv_def add_volume_def
  get_device_by_id_def check_mount_point_def check_can_mount_to_def check_not_after_rest_def
  container_units_def append_unit_def get_unit_by_mount_point_internal_def devices_values_def
  os_path_isabs_def Let_def unit_by_id_def VolumeGroup_new_def RAID_new_def
  physical_volume_ok_def raid_member_ok_def owner_is_def get_unit_by_mount_point_def
  mount_points_def manager_storage_units_def devices_def raid_device_id_def os_path_join_def

lemma attempt_append:
  "attempt w (xs @ ys) log = then_do (attempt w xs) (attempt w ys) log"
  by (induction xs arbitrary: log) (auto simp: then_do_def attempt.simps split: option.splits)

lemma attempt_single: "attempt w [s] log = (step_error w log s, log @ [s])"
  by (simp add: attempt.simps split: option.splits)

lemma run_cmd_attempt: "run_cmd w args False log = attempt w [Cmd args] log"
  by (simp add: run_cmd_def step_error_def attempt_single)

lemma start_event_attempt: "start_event msg log = attempt w [Event msg] log"
  by (simp add: start_event_def step_error_def attempt_single)

lemma do_step_attempt:
  "(\<And>a. s \<noteq> Cmd a) \<Longrightarrow> (\<And>m. s \<noteq> Event m) \<Longrightarrow> do_step w s log = attempt w [s] log"
  by (cases s) (auto simp: do_step_def step_error_def attempt_single)

lemma for_steps_attempt:
  "(\<And>x log. f x log = attempt w [g x] log) \<Longrightarrow> for_steps f xs log = attempt w (map g xs) log"
proof (induction xs arbitrary: log)
  case Nil
  then show ?case by (simp add: skip_def attempt.simps)
next
  case (Cons x xs)
  have ih: "\<And>l. for_steps f xs l = attempt w (map g xs) l"
    using Cons.IH Cons.prems by blast
  have hx: "f x log = attempt w [g x] log"
    by (rule Cons.prems)
  have "for_steps f (x # xs) log = then_do (attempt w [g x]) (attempt w (map g xs)) log"
    by (auto simp: then_do_def ih hx split: prod.splits option.splits)
  then show ?case
    using attempt_append [of w "[g x]" "map g xs" log] by simp
qed

lemma then_do_attempt:
  "(\<And>log. a log = attempt w xs log) \<Longrightarrow> (\<And>log. b log = attempt w ys log)
     \<Longrightarrow> then_do a b log = attempt w (xs @ ys) log"
  by (auto simp: attempt_append then_do_def split: prod.splits option.splits)

lemma unmount_attempt:
  "unmount w m log =
     attempt w (map (\<lambda>(mp, u). Cmd [''umount'', path_relative_to_mount_root_base m mp])
                  (unmount_items (mount_points m))) log"
  unfolding unmount_def
  by (rule for_steps_attempt) (auto simp: run_cmd_attempt split: prod.splits)

lemma for_steps_attempt_many:
  "(\<And>x log. f x log = attempt w (g x) log)
     \<Longrightarrow> for_steps f xs log = attempt w (concat (map g xs)) log"
proof (induction xs arbitrary: log)
  case Nil
  then show ?case by (simp add: skip_def attempt.simps)
next
  case (Cons x xs)
  have ih: "\<And>l. for_steps f xs l = attempt w (concat (map g xs)) l"
    using Cons.IH Cons.prems by blast
  have hx: "f x log = attempt w (g x) log"
    by (rule Cons.prems)
  have "for_steps f (x # xs) log = then_do (attempt w (g x)) (attempt w (concat (map g xs))) log"
    by (auto simp: then_do_def ih hx split: prod.splits option.splits)
  then show ?case
    using attempt_append [of w "g x" "concat (map g xs)" log] by simp
qed

text \<open>\<open>mount()\<close> runs its two commands for each item, in the order of the items.\<close>

lemma mount_attempt:
  "mount w m log =
     attempt w (concat (map (\<lambda>(mp, u).
         [Cmd [''mkdir'', ''-p'', path_relative_to_mount_root_base m mp],
          Cmd [''mount'', ''-t'', str_fs_type (fs_type u), block_device w u,
               path_relative_to_mount_root_base m mp]])
       (mount_items (mount_points m)))) log"
  unfolding mount_def
proof (rule for_steps_attempt_many)
  fix x :: "string \<times> StorageUnit" and l
  obtain mp u where x: "x = (mp, u)" by (cases x)
  have "then_do (run_cmd w [''mkdir'', ''-p'', path_relative_to_mount_root_base m mp] False)
          (run_cmd w [''mount'', ''-t'', str_fs_type (fs_type u), block_device w u,
               path_relative_to_mount_root_base m mp] False) l
        = attempt w ([Cmd [''mkdir'', ''-p'', path_relative_to_mount_root_base m mp]]
            @ [Cmd [''mount'', ''-t'', str_fs_type (fs_type u), block_device w u,
               path_relative_to_mount_root_base m mp]]) l"
    by (rule then_do_attempt) (rule run_cmd_attempt)+
  then show "(case x of (mp, u) \<Rightarrow>
         let mnt_dir = path_relative_to_mount_root_base m mp in
         then_do (run_cmd w [''mkdir'', ''-p'', mnt_dir] False)
           (run_cmd w [''mount'', ''-t'', str_fs_type (fs_type u), block_device w u, mnt_dir]
              False)) l
      = attempt w (case x of (mp, u) \<Rightarrow>
         [Cmd [''mkdir'', ''-p'', path_relative_to_mount_root_base m mp],
          Cmd [''mount'', ''-t'', str_fs_type (fs_type u), block_device w u,
               path_relative_to_mount_root_base m mp]]) l"
    using x by (simp add: Let_def)
qed

lemma deactivate_attempt:
  "deactivate_block_devices w m log =
     attempt w (map (\<lambda>vg. Deactivate (dev_id vg)) (get_devices_by_type m is_VolumeGroup)
                @ map (\<lambda>raid. Stop (dev_id raid)) (get_devices_by_type m is_RAID)
                @ [CloseVolumes]) log"
  unfolding deactivate_block_devices_def
  by (intro then_do_attempt for_steps_attempt do_step_attempt) auto

lemma cleanup_attempt:
  "StorageInstaller_cleanup w st log = attempt w (cleanup_steps st) log"
  unfolding StorageInstaller_cleanup_def cleanup_steps_def
  by (intro then_do_attempt for_steps_attempt start_event_attempt run_cmd_attempt
      unmount_attempt deactivate_attempt)

lemma attempt_first_failure:
  "attempt w pre log = (None, log') \<Longrightarrow> step_error w log' s = Some e
     \<Longrightarrow> attempt w (pre @ s # post) log = (Some e, log' @ [s])"
  by (simp add: attempt_append then_do_def attempt.simps)

lemma attempt_log: "attempt w xs log = (None, log') \<Longrightarrow> log' = log @ xs"
proof (induction xs arbitrary: log)
  case Nil
  then show ?case by (simp add: attempt.simps)
next
  case (Cons a xs)
  then have "attempt w xs (log @ [a]) = (None, log')"
    by (auto simp: attempt.simps split: option.splits)
  then have "log' = (log @ [a]) @ xs" by (rule Cons.IH)
  then show ?case by simp
qed

subsection \<open>The order of mounting and unmounting\<close>

lemma filter_key_distinct:
  "distinct (map f xs) \<Longrightarrow> k \<in> set xs \<Longrightarrow> filter (\<lambda>x. f k = f x) xs = [k]"
proof (induction xs)
  case Nil
  then show ?case by simp
next
  case (Cons a xs)
  show ?case
  proof (cases "k = a")
    case True
    have "filter (\<lambda>x. f a = f x) xs = []"
      using Cons.prems(1) by (auto simp: filter_empty_conv)
    then show ?thesis using True by simp
  next
    case False
    then have "k \<in> set xs" using Cons.prems(2) by simp
    moreover have "f k \<noteq> f a" using Cons.prems(1) \<open>k \<in> set xs\<close> by (force simp: image_iff)
    ultimately show ?thesis using Cons by simp
  qed
qed

lemma distinct_keys_mset:
  "mset ys = mset xs \<Longrightarrow> distinct (map f xs) \<Longrightarrow> distinct (map f ys)"
proof -
  assume a: "mset ys = mset xs" and d: "distinct (map f xs)"
  have "mset (map f ys) = mset (map f xs)" using a by (metis mset_map)
  then show ?thesis using d by (metis mset_eq_imp_distinct_iff)
qed

lemma sort_key_distinct_unique:
  assumes "distinct (map f xs)" and "mset ys = mset xs"
  shows "sort_key f ys = sort_key f xs"
proof (rule properties_for_sort_key)
  show "mset (sort_key f xs) = mset ys" using assms(2) by simp
  show "sorted (map f (sort_key f xs))" by simp
next
  fix k assume k: "k \<in> set (sort_key f xs)"
  have d1: "distinct (map f (sort_key f xs))"
    by (rule distinct_keys_mset [OF _ assms(1)]) simp
  have d2: "distinct (map f ys)"
    by (rule distinct_keys_mset [OF assms(2) assms(1)])
  have "k \<in> set ys" using k assms(2) by (metis mset_eq_setD set_sort)
  then show "filter (\<lambda>x. f k = f x) (sort_key f xs) = filter (\<lambda>x. f k = f x) ys"
    using filter_key_distinct [OF d1 k] filter_key_distinct [OF d2] by simp
qed

lemma strict_sorted_sort_key:
  "distinct (map f xs) \<Longrightarrow> sorted_wrt (<) (map f (sort_key f xs))"
proof -
  assume d: "distinct (map f xs)"
  have "distinct (map f (sort_key f xs))"
    by (rule distinct_keys_mset [OF _ d]) simp
  then show ?thesis by (simp add: strict_sorted_iff)
qed

lemma before_in_strict_sorted:
  fixes f :: "'a \<Rightarrow> 'b::linorder"
  assumes "sorted_wrt (<) (map f l)" and "a \<in> set l" and "b \<in> set l" and "f a < f b"
  shows "processed_before a b l"
proof -
  obtain xs ys where l: "l = xs @ a # ys" using assms(2) by (meson split_list)
  have "b \<notin> set xs"
  proof
    assume "b \<in> set xs"
    then have "f b < f a" using assms(1) l by (auto simp: sorted_wrt_append)
    then show False using assms(4) by simp
  qed
  moreover have "b \<noteq> a" using assms(4) by auto
  ultimately have "b \<in> set ys" using assms(3) l by auto
  then obtain ys1 zs where "ys = ys1 @ b # zs" by (meson split_list)
  then show ?thesis using l by (auto simp: processed_before_def)
qed

lemma strict_prefix_less: "strict_prefix p q \<Longrightarrow> p < (q :: 'a::linorder list)"
proof -
  assume "strict_prefix p q"
  then obtain zs where zs: "q = p @ zs" "zs \<noteq> []"
    by (auto simp: strict_prefix_def prefix_def)
  then obtain b z where "zs = b # z" by (cases zs) auto
  then have "q = p @ b # z" using zs by simp
  then show ?thesis by (simp add: list_less_def lexord_append_rightI)
qed

text \<open>
  C3. Let \<open>mps\<close> and \<open>mps'\<close> be two enumerations of the same (mount point, unit) pairs, with
  pairwise distinct mount points. The items of \<open>mount()\<close> on \<open>mps\<close> are in strictly ascending
  order of the mount-point string, so a mount point that is a proper prefix of another one
  comes first; the items of \<open>unmount()\<close> on \<open>mps'\<close> are in descending order, the exact reverse
  of the mount order. When these pairs are the mount points of the manager, in whatever
  order its devices are iterated, \<open>mount()\<close> attempts \<open>mkdir -p\<close> and \<open>mount\<close> for each pair in
  the ascending order, and \<open>unmount()\<close> attempts \<open>umount\<close> for each pair in the reverse of
  it, each up to the first command that fails.
\<close>

theorem mount_ascending_unmount_reverse:
  assumes "distinct (map fst mps)" and "mset mps' = mset mps"
  shows "sorted_wrt (<) (map fst (mount_items mps))
    \<and> mset (mount_items mps) = mset mps
    \<and> unmount_items mps' = rev (mount_items mps)
    \<and> sorted_wrt (>) (map fst (unmount_items mps'))
    \<and> ((p, u) \<in> set mps \<and> (q, v) \<in> set mps \<and> strict_prefix p q
          \<longrightarrow> processed_before (p, u) (q, v) (mount_items mps))
    \<and> (mset (mount_points m) = mset mps \<longrightarrow>
          mount w m log = attempt w (concat (map (mount_commands w m) (mount_items mps))) log
        \<and> unmount w m log = attempt w (map (unmount_command m) (rev (mount_items mps))) log)"
proof -
  have s: "sorted_wrt (<) (map fst (mount_items mps))"
    unfolding mount_items_def py_sorted_def by (rule strict_sorted_sort_key [OF assms(1)])
  have m: "mset (mount_items mps) = mset mps"
    by (simp add: mount_items_def py_sorted_def)
  have "mset (rev mps') = mset mps" using assms(2) by simp
  then have "sort_key fst (rev mps') = sort_key fst mps"
    by (rule sort_key_distinct_unique [OF assms(1)])
  then have r: "unmount_items mps' = rev (mount_items mps)"
    by (simp add: unmount_items_def mount_items_def py_sorted_def py_sorted_reverse_def)
  have d: "sorted_wrt (>) (map fst (unmount_items mps'))"
    using s by (simp add: r rev_map [symmetric] sorted_wrt_rev)
  have b: "(p, u) \<in> set mps \<and> (q, v) \<in> set mps \<and> strict_prefix p q
          \<longrightarrow> processed_before (p, u) (q, v) (mount_items mps)"
  proof
    assume h: "(p, u) \<in> set mps \<and> (q, v) \<in> set mps \<and> strict_prefix p q"
    have "set (mount_items mps) = set mps" using m by (rule mset_eq_setD)
    then show "processed_before (p, u) (q, v) (mount_items mps)"
      using before_in_strict_sorted [OF s, of "(p, u)" "(q, v)"] h strict_prefix_less [of p q]
      by simp
  qed
  have c: "mset (mount_points m) = mset mps \<longrightarrow>
          mount w m log = attempt w (concat (map (mount_commands w m) (mount_items mps))) log
        \<and> unmount w m log = attempt w (map (unmount_command m) (rev (mount_items mps))) log"
  proof
    assume e: "mset (mount_points m) = mset mps"
    have i: "mount_items (mount_points m) = mount_items mps"
      unfolding mount_items_def py_sorted_def
      by (rule sort_key_distinct_unique [OF assms(1) e])
    have "mset (rev (mount_points m)) = mset mps" using e by simp
    then have "sort_key fst (rev (mount_points m)) = sort_key fst mps"
      by (rule sort_key_distinct_unique [OF assms(1)])
    then have j: "unmount_items (mount_points m) = rev (mount_items mps)"
      by (simp add: unmount_items_def mount_items_def py_sorted_def py_sorted_reverse_def)
    have f: "mount_commands w m = (\<lambda>(mp, u).
         [Cmd [''mkdir'', ''-p'', path_relative_to_mount_root_base m mp],
          Cmd [''mount'', ''-t'', str_fs_type (fs_type u), block_device w u,
               path_relative_to_mount_root_base m mp]])"
      by (rule ext) (simp add: mount_commands_def)
    have g: "unmount_command m = (\<lambda>(mp, u). Cmd [''umount'', path_relative_to_mount_root_base m mp])"
      by (rule ext) (simp add: unmount_command_def)
    show "mount w m log = attempt w (concat (map (mount_commands w m) (mount_items mps))) log
        \<and> unmount w m log = attempt w (map (unmount_command m) (rev (mount_items mps))) log"
      using mount_attempt [of w m log] unmount_attempt [of w m log] by (simp add: i j f g)
  qed
  show ?thesis using s m r d b c by blast
qed

lemma example_sorted:
  "sort_key fst example_mount_points =
     [(''/'', example_unit_at ''root'' ''/''), (''/boot'', example_unit_at ''boot'' ''/boot''),
      (''/boot/efi'', example_unit_at ''efi'' ''/boot/efi''),
      (''/home'', example_unit_at ''home'' ''/home'')]"
  by (simp add: example_mount_points_def less_eq_char_def less_char_def)

theorem mount_ascending_unmount_reverse_witness:
  "map fst (mount_items example_mount_points) = [''/'', ''/boot'', ''/boot/efi'', ''/home'']
   \<and> map fst (unmount_items (rev example_mount_points))
        = [''/home'', ''/boot/efi'', ''/boot'', ''/'']
   \<and> processed_before (''/boot'', example_unit_at ''boot'' ''/boot'')
        (''/boot/efi'', example_unit_at ''efi'' ''/boot/efi'') (mount_items example_mount_points)
   \<and> mount example_world example_mounts_manager [] =
       (None,
        [Cmd [''mkdir'', ''-p'', ''/mnt/target_root/''],
         Cmd [''mount'', ''-t'', ''ext4'', ''/dev/mapper/root'', ''/mnt/target_root/''],
         Cmd [''mkdir'', ''-p'', ''/mnt/target_root/boot''],
         Cmd [''mount'', ''-t'', ''ext4'', ''/dev/mapper/boot'', ''/mnt/target_root/boot''],
         Cmd [''mkdir'', ''-p'', ''/mnt/target_root/boot/efi''],
         Cmd [''mount'', ''-t'', ''ext4'', ''/dev/mapper/efi'', ''/mnt/target_root/boot/efi''],
         Cmd [''mkdir'', ''-p'', ''/mnt/target_root/home''],
         Cmd [''mount'', ''-t'', ''ext4'', ''/dev/mapper/home'', ''/mnt/target_root/home'']])
   \<and> unmount example_world example_mounts_manager [] =
       (None,
        [Cmd [''umount'', ''/mnt/target_root/home''],
         Cmd [''umount'', ''/mnt/target_root/boot/efi''],
         Cmd [''umount'', ''/mnt/target_root/boot''],
         Cmd [''umount'', ''/mnt/target_root/'']])"
proof -
  have d: "distinct (map fst example_mount_points)"
    by (simp add: example_mount_points_def)
  have m: "mset (rev example_mount_points) = mset example_mount_points"
    by simp
  have e: "mount_items example_mount_points =
     [(''/'', example_unit_at ''root'' ''/''), (''/boot'', example_unit_at ''boot'' ''/boot''),
      (''/boot/efi'', example_unit_at ''efi'' ''/boot/efi''),
      (''/home'', example_unit_at ''home'' ''/home'')]"
    using example_sorted by (simp add: mount_items_def py_sorted_def)
  have p: "(''/boot'', example_unit_at ''boot'' ''/boot'') \<in> set example_mount_points
      \<and> (''/boot/efi'', example_unit_at ''efi'' ''/boot/efi'') \<in> set example_mount_points
      \<and> strict_prefix ''/boot'' ''/boot/efi''"
    by (simp add: example_mount_points_def)
  have mp: "mount_points example_mounts_manager =
     [(''/boot/efi'', example_unit_at ''efi'' ''/boot/efi''),
      (''/home'', example_unit_at ''home'' ''/home''),
      (''/boot'', example_unit_at ''boot'' ''/boot''),
      (''/'', example_unit_at ''root'' ''/'')]"
    unfolding example_mounts_manager_def example_mounts_config_def
    by (simp add: parse_defs unit_params_def example_unit_at_def)
  have b: "mount_root_base example_mounts_manager = Some ''/mnt/target_root''"
    unfolding example_mounts_manager_def example_mounts_config_def
    by (simp add: parse_defs unit_params_def)
  have q: "mset (mount_points example_mounts_manager) = mset example_mount_points"
    by (simp add: mp example_mount_points_def add_mset_commute)
  note t = mount_ascending_unmount_reverse [OF d m, of "''/boot''" "example_unit_at ''boot'' ''/boot''"
      "''/boot/efi''" "example_unit_at ''efi'' ''/boot/efi''" example_mounts_manager
      example_world "[]"]
  have r: "unmount_items (rev example_mount_points) = rev (mount_items example_mount_points)"
    using t by blast
  have pb: "processed_before (''/boot'', example_unit_at ''boot'' ''/boot'')
        (''/boot/efi'', example_unit_at ''efi'' ''/boot/efi'') (mount_items example_mount_points)"
    using t p by blast
  have mo: "mount example_world example_mounts_manager [] =
      attempt example_world
        (concat (map (mount_commands example_world example_mounts_manager)
           (mount_items example_mount_points))) []
    \<and> unmount example_world example_mounts_manager [] =
      attempt example_world
        (map (unmount_command example_mounts_manager) (rev (mount_items example_mount_points))) []"
    using t q by blast
  have ev: "attempt example_world
        (concat (map (mount_commands example_world example_mounts_manager)
           (mount_items example_mount_points))) [] =
       (None,
        [Cmd [''mkdir'', ''-p'', ''/mnt/target_root/''],
         Cmd [''mount'', ''-t'', ''ext4'', ''/dev/mapper/root'', ''/mnt/target_root/''],
         Cmd [''mkdir'', ''-p'', ''/mnt/target_root/boot''],
         Cmd [''mount'', ''-t'', ''ext4'', ''/dev/mapper/boot'', ''/mnt/target_root/boot''],
         Cmd [''mkdir'', ''-p'', ''/mnt/target_root/boot/efi''],
         Cmd [''mount'', ''-t'', ''ext4'', ''/dev/mapper/efi'', ''/mnt/target_root/boot/efi''],
         Cmd [''mkdir'', ''-p'', ''/mnt/target_root/home''],
         Cmd [''mount'', ''-t'', ''ext4'', ''/dev/mapper/home'', ''/mnt/target_root/home'']])"
    by (simp add: e mount_commands_def path_relative_to_mount_root_base_def b os_path_join_def
        os_path_isabs_def lstrip_slash_def example_unit_at_def str_fs_type_def attempt.simps
        step_error_def example_world_def)
  have eu: "attempt example_world
        (map (unmount_command example_mounts_manager) (rev (mount_items example_mount_points))) [] =
       (None,
        [Cmd [''umount'', ''/mnt/target_root/home''],
         Cmd [''umount'', ''/mnt/target_root/boot/efi''],
         Cmd [''umount'', ''/mnt/target_root/boot''],
         Cmd [''umount'', ''/mnt/target_root/'']])"
    by (simp add: e unmount_command_def path_relative_to_mount_root_base_def b os_path_join_def
        os_path_isabs_def lstrip_slash_def attempt.simps step_error_def example_world_def)
  have fm: "mount example_world example_mounts_manager [] =
       (None,
        [Cmd [''mkdir'', ''-p'', ''/mnt/target_root/''],
         Cmd [''mount'', ''-t'', ''ext4'', ''/dev/mapper/root'', ''/mnt/target_root/''],
         Cmd [''mkdir'', ''-p'', ''/mnt/target_root/boot''],
         Cmd [''mount'', ''-t'', ''ext4'', ''/dev/mapper/boot'', ''/mnt/target_root/boot''],
         Cmd [''mkdir'', ''-p'', ''/mnt/target_root/boot/efi''],
         Cmd [''mount'', ''-t'', ''ext4'', ''/dev/mapper/efi'', ''/mnt/target_root/boot/efi''],
         Cmd [''mkdir'', ''-p'', ''/mnt/target_root/home''],
         Cmd [''mount'', ''-t'', ''ext4'', ''/dev/mapper/home'', ''/mnt/target_root/home'']])"
    using mo ev by (simp only:)
  have fu: "unmount example_world example_mounts_manager [] =
       (None,
        [Cmd [''umount'', ''/mnt/target_root/home''],
         Cmd [''umount'', ''/mnt/target_root/boot/efi''],
         Cmd [''umount'', ''/mnt/target_root/boot''],
         Cmd [''umount'', ''/mnt/target_root/'']])"
    using mo eu by (simp only:)
  have fo: "map fst (mount_items example_mount_points) = [''/'', ''/boot'', ''/boot/efi'', ''/home'']
   \<and> map fst (unmount_items (rev example_mount_points))
        = [''/home'', ''/boot/efi'', ''/boot'', ''/'']"
    by (simp add: r e)
  show ?thesis
    using fo pb fm fu by blast
qed

subsection \<open>write_fstab\<close>

lemma units_mount_points_filter:
  "units_mount_points us = map (\<lambda>u. (the (mount_point u), u)) (filter is_mounted us)"
  by (induction us) (auto simp: is_mounted_def split: option.splits)

lemma insort_key_pairs:
  "insort_key fst (k a, a) (map (\<lambda>u. (k u, u)) ys) = map (\<lambda>u. (k u, u)) (insort_key k a ys)"
  by (induction ys) auto

lemma sort_key_pairs:
  "sort_key fst (map (\<lambda>u. (k u, u)) xs) = map (\<lambda>u. (k u, u)) (sort_key k xs)"
  by (induction xs) (auto simp: insort_key_pairs)

lemma mset_concat_map:
  "mset xs = mset ys \<Longrightarrow> mset (concat (map f xs)) = mset (concat (map f ys))"
  by (metis mset_concat mset_map sum_mset_sum_list)

lemma mset_storage_units_iterated:
  "is_iteration iter m \<Longrightarrow> mset (storage_units_iterated iter m) = mset (manager_storage_units m)"
  unfolding is_iteration_def storage_units_iterated_def manager_storage_units_def devices_def
  by (rule mset_concat_map)

lemma fstab_lines_ok:
  "\<forall>u\<in>set xs. fs_uuid w u = Inr (uuid u)
     \<Longrightarrow> fstab_lines w xs = Inr (map (\<lambda>u. fstab_line (uuid u) u) xs)"
  by (induction xs) (auto simp: and_then_def)

lemma fstab_line_entry:
  "is_swap u \<or> is_mounted u \<Longrightarrow> fstab_line s u = fstab_entry s u @ [CHR 0x0A]"
  by (auto simp: fstab_line_def fstab_entry_def is_swap_def is_mounted_def str_opt_def Let_def
      split: option.splits)

lemma mount_units_eq:
  "map snd (py_sorted fst (mount_points_iterated iter m))
     = mounted_ascending (storage_units_iterated iter m)"
  by (simp add: mount_points_iterated_def mounted_ascending_def py_sorted_def
      units_mount_points_filter sort_key_pairs comp_def)

lemma swap_units_eq:
  "filter (\<lambda>u. fs_type u = Some SWAP) us = swap_units us"
  by (simp add: swap_units_def is_swap_def [abs_def])

text \<open>
  C7. Let the UUID of every mounted unit and of every swap unit be readable (the UUID of
  any other unit is not read). For every pair of iterations over the devices,
  \<open>write_fstab\<close> writes one line for every mounted unit, in ascending order of the mount
  points, followed by one line for every swap unit, in the order of the first iteration.
  The line is \<open>UUID=<fs_uuid> <fs_file> <fs_vfstype> <fs_mntopts> 0 <fs_passno>\<close>: \<open>fs_file\<close> is
  the mount point, or \<open>none\<close> for swap; \<open>fs_mntopts\<close> the comma-joined options, or
  \<open>defaults\<close> for swap or no options; \<open>fs_passno\<close> is 0 for swap, 1 for the unit mounted at
  \<open>/\<close> and 2 otherwise. Every mounted unit and every swap unit of the manager has its line,
  once.
\<close>

theorem fstab_rendering:
  assumes "is_iteration iter_swap m" and "is_iteration iter_mount m"
    and "\<forall>u\<in>set (manager_storage_units m). is_swap u \<or> is_mounted u \<longrightarrow> fs_uuid w u = Inr (uuid u)"
  shows "write_fstab w iter_swap iter_mount m path log =
           do_step w (WriteFile path (concat (map (\<lambda>u. fstab_entry (uuid u) u @ [CHR 0x0A])
                  (mounted_ascending (storage_units_iterated iter_mount m)
                   @ swap_units (storage_units_iterated iter_swap m))))) log
    \<and> sorted (map (\<lambda>u. the (mount_point u))
                (mounted_ascending (storage_units_iterated iter_mount m)))
    \<and> mset (mounted_ascending (storage_units_iterated iter_mount m))
        = mset (filter is_mounted (manager_storage_units m))
    \<and> mset (swap_units (storage_units_iterated iter_swap m))
        = mset (filter is_swap (manager_storage_units m))"
proof -
  let ?mu = "mounted_ascending (storage_units_iterated iter_mount m)"
  let ?su = "swap_units (storage_units_iterated iter_swap m)"
  have ms: "mset (storage_units_iterated iter_swap m) = mset (manager_storage_units m)"
    by (rule mset_storage_units_iterated [OF assms(1)])
  have mm: "mset (storage_units_iterated iter_mount m) = mset (manager_storage_units m)"
    by (rule mset_storage_units_iterated [OF assms(2)])
  have c3: "mset ?mu = mset (filter is_mounted (manager_storage_units m))"
    by (simp add: mounted_ascending_def mm)
  have c4: "mset ?su = mset (filter is_swap (manager_storage_units m))"
    by (simp add: swap_units_def ms)
  have k: "is_swap u \<or> is_mounted u" if "u \<in> set (?mu @ ?su)" for u
    using that by (auto simp: mounted_ascending_def swap_units_def)
  have i: "u \<in> set (manager_storage_units m)" if "u \<in> set (?mu @ ?su)" for u
  proof -
    have "set ?mu \<subseteq> set (manager_storage_units m)"
      using mset_eq_setD [OF c3] by auto
    moreover have "set ?su \<subseteq> set (manager_storage_units m)"
      using mset_eq_setD [OF c4] by auto
    ultimately show ?thesis using that by auto
  qed
  have a: "\<forall>u\<in>set (?mu @ ?su). fs_uuid w u = Inr (uuid u)"
    using assms(3) k i by blast
  have "map (\<lambda>u. fstab_line (uuid u) u) (?mu @ ?su)
          = map (\<lambda>u. fstab_entry (uuid u) u @ [CHR 0x0A]) (?mu @ ?su)"
    by (rule map_cong [OF refl]) (simp add: fstab_line_entry k)
  then have l: "fstab_lines w (?mu @ ?su)
          = Inr (map (\<lambda>u. fstab_entry (uuid u) u @ [CHR 0x0A]) (?mu @ ?su))"
    using fstab_lines_ok [OF a] by simp
  have c1: "write_fstab w iter_swap iter_mount m path log =
           do_step w (WriteFile path (concat (map (\<lambda>u. fstab_entry (uuid u) u @ [CHR 0x0A])
                  (?mu @ ?su)))) log"
    unfolding write_fstab_def Let_def mount_units_eq swap_units_eq by (simp only: l sum.case)
  have c2: "sorted (map (\<lambda>u. the (mount_point u)) ?mu)"
    by (simp add: mounted_ascending_def)
  show ?thesis using c1 c2 c3 c4 by blast
qed

theorem fstab_rendering_witness:
  "write_fstab example_fstab_world rev (\<lambda>ds. ds) example_fstab_manager
       ''/mnt/target_root/etc/fstab'' [] =
     (None,
      [WriteFile ''/mnt/target_root/etc/fstab''
         (''UUID=ABCD / ext4 defaults 0 1'' @ [CHR 0x0A]
          @ ''UUID=EF01 /home ext4 noauto,ro 0 2'' @ [CHR 0x0A]
          @ ''UUID=6789 none swap defaults 0 0'' @ [CHR 0x0A]
          @ ''UUID=2345 none swap defaults 0 0'' @ [CHR 0x0A])])
   \<and> list_ex (\<lambda>u. fs_uuid example_fstab_world u = Inl (NoUUID ''bios''))
        (manager_storage_units example_fstab_manager)"
proof -
  let ?unit = "\<lambda>i dev sz fs opts mp.
     \<lparr>unit_class = Partition, unit_id = i, unit_device = dev, unit_size = sz, fs_type = fs,
      fs_opts = opts, mount_point = mp, flags = [], crypto_passphrase = None,
      unit_partition = None\<rparr>"
  let ?bios = "?unit ''bios'' ''/dev/vda'' 1048576 None [] None"
  let ?swap = "?unit ''swap'' ''/dev/vda'' 1073741824 (Some SWAP) [] None"
  let ?home = "?unit ''home'' ''/dev/vda'' 1073741824 (Some EXT4) [''noauto'', ''ro''] (Some ''/home'')"
  let ?root = "?unit ''root'' ''/dev/vda'' 0 (Some EXT4) [] (Some ''/'')"
  let ?swap2 = "?unit ''swap2'' ''/dev/vdb'' 0 (Some SWAP) [] None"
  have v: "devices_values example_fstab_manager =
     [\<lparr>dev_class = Cryptsetup, dev_id = ''__cryptsetup__'', storage_units = []\<rparr>,
      \<lparr>dev_class = Disk, dev_id = ''/dev/vda'', storage_units = [?bios, ?swap, ?home, ?root]\<rparr>,
      \<lparr>dev_class = Disk, dev_id = ''/dev/vdb'', storage_units = [?swap2]\<rparr>]"
    unfolding example_fstab_manager_def example_fstab_config_def
    by (simp add: parse_defs unit_params_def)
  have i1: "is_iteration rev example_fstab_manager"
    by (simp add: is_iteration_def)
  have i2: "is_iteration (\<lambda>ds. ds) example_fstab_manager"
    by (simp add: is_iteration_def)
  have a: "\<forall>u\<in>set (manager_storage_units example_fstab_manager).
      is_swap u \<or> is_mounted u \<longrightarrow> fs_uuid example_fstab_world u = Inr (example_fstab_uuid u)"
    by (simp add: manager_storage_units_def devices_def v is_swap_def is_mounted_def
        example_fstab_world_def)
  have mu: "mounted_ascending (storage_units_iterated (\<lambda>ds. ds) example_fstab_manager)
      = [?root, ?home]"
    by (simp add: storage_units_iterated_def v mounted_ascending_def is_mounted_def
        less_eq_char_def less_char_def)
  have su: "swap_units (storage_units_iterated rev example_fstab_manager) = [?swap2, ?swap]"
    by (simp add: storage_units_iterated_def v swap_units_def is_swap_def)
  have b: "list_ex (\<lambda>u. fs_uuid example_fstab_world u = Inl (NoUUID ''bios''))
        (manager_storage_units example_fstab_manager)"
    by (simp add: manager_storage_units_def devices_def v example_fstab_world_def)
  show ?thesis
    using fstab_rendering [OF i1 i2 a, of "''/mnt/target_root/etc/fstab''" "[]"] b
    by (simp add: mu su fstab_entry_def example_fstab_uuid_def example_uuid_def is_swap_def
        str_fs_type_def do_step_def example_fstab_world_def)
qed

subsection \<open>Teardown\<close>

lemma example_simple_init:
  "StorageInstaller_init ''/mnt/target_root'' example_simple_config = Inr example_simple_installer"
  unfolding example_simple_installer_def example_simple_config_def
  by (simp add: parse_defs)

lemma example_simple_cleanup_steps:
  "cleanup_steps example_simple_installer =
     [Event ''Unmounting file systems'',
      Cmd [''umount'', ''/mnt/target_root/dev''],
      Cmd [''umount'', ''/mnt/target_root/proc''],
      Cmd [''umount'', ''/mnt/target_root/sys''],
      Cmd [''umount'', ''/mnt/target_root/boot/efi''],
      Cmd [''umount'', ''/mnt/target_root/boot''],
      Cmd [''umount'', ''/mnt/target_root/''],
      CloseVolumes]"
  unfolding example_simple_installer_def example_simple_config_def cleanup_steps_def
  by (simp add: parse_defs bind_mounts_def abs_target_path_def lstrip_slash_def
      path_relative_to_mount_root_base_def unmount_items_def py_sorted_reverse_def
      get_devices_by_type_def less_eq_char_def less_char_def)

text \<open>
  C2, as amended. \<open>cleanup()\<close> attempts its teardown steps in order (the bind-mount
  unmounts, the unmounts of the layered filesystems, the deactivations) and has no handler:
  the first step that fails raises its exception out of \<open>cleanup()\<close>, and the steps after it
  are not attempted. A step is attempted exactly when every step before it has succeeded.
\<close>

theorem cleanup_stops_at_first_failure:
  "StorageInstaller_cleanup w st log = attempt w (cleanup_steps st) log
   \<and> (cleanup_steps st = pre @ s # post \<and> attempt w pre log = (None, log')
        \<and> step_error w log' s = Some e
      \<longrightarrow> log' = log @ pre \<and> StorageInstaller_cleanup w st log = (Some e, log @ pre @ [s]))"
proof (intro conjI impI)
  show "StorageInstaller_cleanup w st log = attempt w (cleanup_steps st) log"
    by (rule cleanup_attempt)
next
  assume h: "cleanup_steps st = pre @ s # post \<and> attempt w pre log = (None, log')
        \<and> step_error w log' s = Some e"
  then show l: "log' = log @ pre" using attempt_log by blast
  show "StorageInstaller_cleanup w st log = (Some e, log @ pre @ [s])"
    using h l attempt_first_failure [of w pre log log' s e post] by (simp add: cleanup_attempt)
qed

theorem cleanup_stops_at_first_failure_witness:
  "StorageInstaller_cleanup (world_failing [''umount'', ''/mnt/target_root/boot''])
       example_simple_installer [] =
     (Some (CommandFailed [''umount'', ''/mnt/target_root/boot'']),
      [Event ''Unmounting file systems'',
       Cmd [''umount'', ''/mnt/target_root/dev''],
       Cmd [''umount'', ''/mnt/target_root/proc''],
       Cmd [''umount'', ''/mnt/target_root/sys''],
       Cmd [''umount'', ''/mnt/target_root/boot/efi''],
       Cmd [''umount'', ''/mnt/target_root/boot'']])"
proof -
  let ?w = "world_failing [''umount'', ''/mnt/target_root/boot'']"
  let ?pre = "[Event ''Unmounting file systems'',
      Cmd [''umount'', ''/mnt/target_root/dev''],
      Cmd [''umount'', ''/mnt/target_root/proc''],
      Cmd [''umount'', ''/mnt/target_root/sys''],
      Cmd [''umount'', ''/mnt/target_root/boot/efi'']]"
  let ?s = "Cmd [''umount'', ''/mnt/target_root/boot'']"
  let ?post = "[Cmd [''umount'', ''/mnt/target_root/''], CloseVolumes]"
  have a: "cleanup_steps example_simple_installer = ?pre @ ?s # ?post"
    by (simp add: example_simple_cleanup_steps)
  have b: "attempt ?w ?pre [] = (None, ?pre)"
    by (simp add: attempt.simps step_error_def world_failing_def)
  have c: "step_error ?w ?pre ?s = Some (CommandFailed [''umount'', ''/mnt/target_root/boot''])"
    by (simp add: step_error_def world_failing_def)
  have "StorageInstaller_cleanup ?w example_simple_installer [] =
          (Some (CommandFailed [''umount'', ''/mnt/target_root/boot'']), [] @ ?pre @ [?s])"
    using cleanup_stops_at_first_failure [of ?w example_simple_installer "[]" ?pre ?s ?post ?pre
        "CommandFailed [''umount'', ''/mnt/target_root/boot'']"] a b c
    by blast
  then show ?thesis by simp
qed

text \<open>
  The claim as stated (a failing teardown step is logged and the remaining steps are still
  attempted) fails: when the first bind-mount \<open>umount\<close> exits with a non-zero status,
  \<open>cleanup()\<close> raises and attempts nothing else.
\<close>

theorem teardown_failure_counterexample:
  "succeeds_with
     (\<lambda>st. StorageInstaller_cleanup (world_failing [''umount'', ''/mnt/target_root/dev'']) st [] =
        (Some (CommandFailed [''umount'', ''/mnt/target_root/dev'']),
         [Event ''Unmounting file systems'', Cmd [''umount'', ''/mnt/target_root/dev'']]))
     (StorageInstaller_init ''/mnt/target_root'' example_simple_config)"
  by (simp add: example_simple_init succeeds_with_def cleanup_attempt
      example_simple_cleanup_steps attempt.simps step_error_def world_failing_def)

subsection \<open>The installation run\<close>

lemma skip_attempt: "skip log = attempt w [] log"
  by (simp add: skip_def attempt.simps)

lemma copy_attempt:
  "(if cc then do_step w CopyYamlConfig else skip) log =
     attempt w (if cc then [CopyYamlConfig] else []) log"
  by (simp add: skip_attempt do_step_attempt)

lemma install_config_attempt:
  "install_config w cc (first # others) log = attempt w (install_steps cc first others) log"
proof -
  have "install_config w cc (first # others) log =
      attempt w (map (Call Apply) (first # others) @ map (Call PostApply) (first # others)
        @ (if cc then [CopyYamlConfig] else []) @ map (Call Cleanup) (rev (first # others))
        @ [RmdirTargetRoot]) log"
    unfolding install_config_def
    by (intro then_do_attempt for_steps_attempt do_step_attempt copy_attempt) auto
  then show ?thesis
    by (simp add: install_steps_def before_first_cleanup_def)
qed

lemma attempt_log_within:
  "\<exists>ys. snd (attempt w xs log) = log @ ys \<and> set ys \<subseteq> set xs"
proof (induction xs arbitrary: log)
  case Nil
  then show ?case by (simp add: attempt.simps)
next
  case (Cons a xs)
  show ?case
  proof (cases "step_error w log a")
    case None
    obtain ys where "snd (attempt w xs (log @ [a])) = (log @ [a]) @ ys" "set ys \<subseteq> set xs"
      using Cons.IH by blast
    then have "snd (attempt w (a # xs) log) = log @ (a # ys) \<and> set (a # ys) \<subseteq> set (a # xs)"
      using None by (auto simp: attempt.simps)
    then show ?thesis by blast
  next
    case (Some e)
    then have "snd (attempt w (a # xs) log) = log @ [a] \<and> set [a] \<subseteq> set (a # xs)"
      by (simp add: attempt.simps)
    then show ?thesis by blast
  qed
qed

lemma reached_iff:
  assumes "s \<notin> set pre"
  shows "s \<in> set (snd (attempt w (pre @ s # post) [])) \<longleftrightarrow> fst (attempt w pre []) = None"
proof (cases "attempt w pre []")
  case (Pair r l)
  obtain ys where ys: "l = ys" "set ys \<subseteq> set pre"
    using attempt_log_within [of w pre "[]"] Pair by auto
  show ?thesis
  proof (cases r)
    case None
    obtain zs where "snd (attempt w (s # post) l) = l @ zs" and "zs \<noteq> []" and "hd zs = s"
    proof (cases "step_error w l s")
      case None
      obtain vs where "snd (attempt w post (l @ [s])) = (l @ [s]) @ vs"
        using attempt_log_within [of w post "l @ [s]"] by blast
      then have "snd (attempt w (s # post) l) = l @ (s # vs)"
        using None by (simp add: attempt.simps)
      then show ?thesis using that [of "s # vs"] by simp
    next
      case (Some e)
      then have "snd (attempt w (s # post) l) = l @ [s]" by (simp add: attempt.simps)
      then show ?thesis using that [of "[s]"] by simp
    qed
    then have "s \<in> set (snd (attempt w (s # post) l))"
      by (cases zs) auto
    then show ?thesis
      using Pair None by (simp add: attempt_append then_do_def)
  next
    case (Some e)
    then have "snd (attempt w (pre @ s # post) []) = l"
      using Pair by (simp add: attempt_append then_do_def)
    then show ?thesis
      using Pair Some ys assms by auto
  qed
qed

text \<open>
  C1, as amended. \<open>_install_config\<close> runs its loops in sequence with no handler around
  them. The storage installer is the first of the list, so its \<open>cleanup()\<close> is the last
  one called; it is called exactly when every step before it (the \<open>apply()\<close> and the
  \<open>post_apply()\<close> of every installer, the copy of the configuration if requested, and the
  \<open>cleanup()\<close> of every other installer) has returned without an exception.
\<close>

theorem cleanup_only_after_success:
  assumes "first \<notin> set others"
  shows "install_config w cc (first # others) log = attempt w (install_steps cc first others) log
    \<and> (Call Cleanup first \<in> set (snd (install_config w cc (first # others) []))
         \<longleftrightarrow> fst (attempt w (before_first_cleanup cc first others) []) = None)"
proof -
  have n: "Call Cleanup first \<notin> set (before_first_cleanup cc first others)"
    using assms by (auto simp: before_first_cleanup_def)
  show ?thesis
    using reached_iff [OF n, of w "[RmdirTargetRoot]"]
    by (simp add: install_config_attempt install_steps_def)
qed

theorem cleanup_only_after_success_witness:
  "Call Cleanup ''StorageInstaller''
     \<in> set (snd (install_config example_world True installers []))"
proof -
  have a: "''StorageInstaller'' \<notin> set (tl installers)"
    by (simp add: installers_def)
  have b: "installers = ''StorageInstaller'' # tl installers"
    by (simp add: installers_def)
  have c: "fst (attempt example_world
              (before_first_cleanup True ''StorageInstaller'' (tl installers)) []) = None"
    by (simp add: installers_def before_first_cleanup_def attempt.simps step_error_def
        example_world_def)
  have t: "Call Cleanup ''StorageInstaller''
     \<in> set (snd (install_config example_world True (''StorageInstaller'' # tl installers) []))"
    using cleanup_only_after_success [OF a, of example_world True "[]"] c by blast
  show ?thesis
    by (subst b) (rule t)
qed

text \<open>
  The claim as stated (the storage \<open>cleanup()\<close> runs whether or not an \<open>apply()\<close> raised)
  fails: when the \<open>apply()\<close> of the packages installer raises, after the storage installer
  has created and mounted the file systems, the run ends there and no \<open>cleanup()\<close> is called.
\<close>

theorem cleanup_skipped_counterexample:
  "install_config (world_raising (Call Apply ''PackagesInstaller'')) False installers [] =
     (Some (StepFailed ''PackagesInstaller''),
      [Call Apply ''StorageInstaller'', Call Apply ''RepoInstaller'',
       Call Apply ''ProxyInstaller'', Call Apply ''PackagesInstaller''])"
proof -
  have b: "installers = ''StorageInstaller'' # tl installers"
    by (simp add: installers_def)
  have "install_config (world_raising (Call Apply ''PackagesInstaller'')) False
          (''StorageInstaller'' # tl installers) [] =
     (Some (StepFailed ''PackagesInstaller''),
      [Call Apply ''StorageInstaller'', Call Apply ''RepoInstaller'',
       Call Apply ''ProxyInstaller'', Call Apply ''PackagesInstaller''])"
    unfolding install_config_attempt
    by (simp add: installers_def install_steps_def before_first_cleanup_def attempt.simps
        step_error_def world_raising_def step_name_def)
  then show ?thesis by (subst b)
qed

subsection \<open>Loops\<close>

lemma and_then_Inr:
  "and_then r f = Inr y \<longleftrightarrow> (\<exists>x. r = Inr x \<and> f x = Inr y)"
  by (cases r) (auto simp: and_then_def)

lemma and_then_isl: "isl r \<Longrightarrow> isl (and_then r f)"
  by (cases r) (auto simp: and_then_def)

lemma for_each_invariant:
  assumes "for_each f xs s = Inr s'" and "P s"
    and "\<And>x t t'. x \<in> set xs \<Longrightarrow> P t \<Longrightarrow> f x t = Inr t' \<Longrightarrow> P t'"
  shows "P s'"
  using assms
proof (induction xs arbitrary: s)
  case Nil
  then show ?case by simp
next
  case (Cons x xs)
  from Cons.prems(1) obtain t where t: "f x s = Inr t" "for_each f xs t = Inr s'"
    by (auto simp: and_then_Inr)
  have pt: "P t" using Cons.prems(3) [of x s t] Cons.prems(2) t(1) by simp
  have step: "P u'" if "z \<in> set xs" "P u" "f z u = Inr u'" for z u u'
    using Cons.prems(3) [of z u u'] that by simp
  show ?case by (rule Cons.IH [OF t(2) pt step])
qed

lemma for_each_fold:
  assumes "for_each f xs s = Inr s'"
    and "\<And>x t t'. x \<in> set xs \<Longrightarrow> f x t = Inr t' \<Longrightarrow> g t' = h x (g t)"
  shows "g s' = fold h xs (g s)"
  using assms
proof (induction xs arbitrary: s)
  case Nil
  then show ?case by simp
next
  case (Cons x xs)
  from Cons.prems(1) obtain t where t: "f x s = Inr t" "for_each f xs t = Inr s'"
    by (auto simp: and_then_Inr)
  have gt: "g t = h x (g s)" using Cons.prems(2) [of x s t] t(1) by simp
  have step: "g u' = h z (g u)" if "z \<in> set xs" "f z u = Inr u'" for z u u'
    using Cons.prems(2) [of z u u'] that by simp
  show ?case using Cons.IH [OF t(2) step] gt by simp
qed

lemma for_each_fails:
  assumes "x \<in> set xs" and "P s"
    and "\<And>y t t'. y \<in> set xs \<Longrightarrow> P t \<Longrightarrow> f y t = Inr t' \<Longrightarrow> P t'"
    and "\<And>t. P t \<Longrightarrow> isl (f x t)"
  shows "isl (for_each f xs s)"
  using assms
proof (induction xs arbitrary: s)
  case Nil
  then show ?case by simp
next
  case (Cons y ys)
  show ?case
  proof (cases "f y s")
    case (Inl e)
    then show ?thesis by (simp add: and_then_def)
  next
    case (Inr t)
    have pt: "P t" using Cons.prems(3) [of y s t] Cons.prems(2) Inr by simp
    show ?thesis
    proof (cases "x = y")
      case True
      then show ?thesis using Cons.prems(2,4) Inr by (metis sum.disc(2))
    next
      case False
      then have xin: "x \<in> set ys" using Cons.prems(1) by simp
      have step: "P u'" if "z \<in> set ys" "P u" "f z u = Inr u'" for z u u'
        using Cons.prems(3) [of z u u'] that by simp
      have "isl (for_each f ys t)"
        by (rule Cons.IH [OF xin pt step Cons.prems(4)])
      then show ?thesis using Inr by (simp add: and_then_def)
    qed
  qed
qed

lemma for_each_processed:
  assumes "for_each f xs s = Inr s'" and "x \<in> set xs"
  shows "\<exists>pre post t t'. xs = pre @ x # post \<and> for_each f pre s = Inr t \<and> f x t = Inr t'
           \<and> for_each f post t' = Inr s'"
  using assms
proof (induction xs arbitrary: s)
  case Nil
  then show ?case by simp
next
  case (Cons y ys)
  from Cons.prems(1) obtain t where t: "f y s = Inr t" "for_each f ys t = Inr s'"
    by (auto simp: and_then_Inr)
  show ?case
  proof (cases "x = y")
    case True
    have "y # ys = [] @ x # ys \<and> for_each f [] s = Inr s \<and> f x s = Inr t
            \<and> for_each f ys t = Inr s'"
      using True t by simp
    then show ?thesis by blast
  next
    case False
    then have "x \<in> set ys" using Cons.prems(2) by simp
    from Cons.IH [OF t(2) this] obtain pre post u u' where
      p: "ys = pre @ x # post" "for_each f pre t = Inr u" "f x u = Inr u'"
         "for_each f post u' = Inr s'"
      by blast
    have "y # ys = (y # pre) @ x # post \<and> for_each f (y # pre) s = Inr u \<and> f x u = Inr u'
            \<and> for_each f post u' = Inr s'"
      using p t(1) by (simp add: and_then_def)
    then show ?thesis by blast
  qed
qed

subsection \<open>The factory operations\<close>

lemma keeps_refl: "keeps m m"
  by (simp add: keeps_def)

lemma keeps_trans: "keeps a b \<Longrightarrow> keeps b c \<Longrightarrow> keeps a c"
  unfolding keeps_def by (metis)

lemma absent_iff: "get_device_by_id m i = None \<longleftrightarrow> i \<notin> set (device_ids m)"
  by (simp add: get_device_by_id_def device_ids_def map_of_eq_None_iff)

lemma register_ids:
  "device_ids (m\<lparr>devices_dict := devices_dict m @ [(i, d)]\<rparr>) = device_ids m @ [i]"
  by (simp add: device_ids_def)

lemma register_keeps:
  "get_device_by_id m i = None \<Longrightarrow> keeps m (m\<lparr>devices_dict := devices_dict m @ [(i, d)]\<rparr>)"
  by (auto simp: keeps_def get_device_by_id_def map_of_append_absent)

lemma register_get:
  "get_device_by_id m i = None
     \<Longrightarrow> get_device_by_id (m\<lparr>devices_dict := devices_dict m @ [(i, d)]\<rparr>) i = Some d"
  by (simp add: get_device_by_id_def map_add_def)

lemma add_disk_Inr:
  assumes "add_disk m i = Inr m'"
  shows "i \<notin> set (device_ids m)" and "device_ids m' = device_ids m @ [i]" and "keeps m m'"
    and "manager_storage_units m' = manager_storage_units m"
    and "\<exists>d. get_device_by_id m' i = Some d \<and> dev_class d = Disk"
  using assms
  by (auto simp: add_disk_def absent_iff [symmetric] register_ids register_keeps register_get
      manager_storage_units_def devices_def devices_values_def split: option.splits)

lemma add_vg_Inr:
  assumes "add_vg m i pvs = Inr m'"
  shows "i \<notin> set (device_ids m)" and "device_ids m' = device_ids m @ [i]" and "keeps m m'"
    and "manager_storage_units m' = manager_storage_units m"
    and "\<exists>d. get_device_by_id m' i = Some d \<and> dev_class d = VolumeGroup pvs"
  using assms
  by (auto simp: add_vg_def and_then_Inr VolumeGroup_new_def absent_iff [symmetric] register_ids
      register_keeps register_get manager_storage_units_def devices_def devices_values_def
      split: option.splits)

lemma add_raid_Inr:
  assumes "add_raid m i level members metadata = Inr m'"
  shows "i \<notin> set (device_ids m)" and "device_ids m' = device_ids m @ [i]" and "keeps m m'"
    and "manager_storage_units m' = manager_storage_units m"
    and "\<exists>d. get_device_by_id m' i = Some d \<and> dev_class d = RAID level metadata members"
  using assms
  by (auto simp: add_raid_def and_then_Inr RAID_new_def absent_iff [symmetric] register_ids
      register_keeps register_get manager_storage_units_def devices_def devices_values_def
      split: option.splits)

lemma append_unit_ids: "device_ids (append_unit m i u) = device_ids m"
  by (simp add: device_ids_def append_unit_def comp_def case_prod_unfold)

lemma append_unit_keeps: "keeps m (append_unit m i u)"
  by (auto simp: keeps_def get_device_append_unit)

lemma add_partition_Inr:
  assumes "add_partition m dev p = Inr (m', u)"
  shows "m' = append_unit m dev u" and "check_mount_point m (p_mount_point p) = Inr ()"
    and "mount_point u = p_mount_point p" and "unit_id u = p_id p" and "unit_class u = Partition"
    and "unit_device u = dev"
  using assms by (auto simp: add_partition_def and_then_Inr Let_def)

lemma add_lv_Inr:
  assumes "add_lv m dev p = Inr (m', u)"
  shows "m' = append_unit m dev u" and "check_mount_point m (p_mount_point p) = Inr ()"
    and "mount_point u = p_mount_point p" and "unit_id u = p_id p"
    and "unit_class u = LogicalVolume" and "unit_device u = dev"
  using assms by (auto simp: add_lv_def and_then_Inr Let_def)

lemma add_volume_Inr:
  assumes "add_volume m part p = Inr (m', u)"
  shows "m' = append_unit m cryptsetup_id u"
    and "check_mount_point m (p_mount_point p) = Inr ()"
    and "mount_point u = p_mount_point p" and "unit_id u = p_id p"
    and "unit_class u = CryptoVolume" and "unit_device u = cryptsetup_id"
    and "unit_class part = Partition"
  using assms by (auto simp: add_volume_def and_then_Inr Let_def split: if_splits)

lemma unit_factory_add_partition: "unit_factory (\<lambda>m. add_partition m dev) dev"
  unfolding unit_factory_def using add_partition_Inr by blast

lemma unit_factory_add_lv: "unit_factory (\<lambda>m. add_lv m dev) dev"
  unfolding unit_factory_def using add_lv_Inr by blast

lemma unit_factory_add_volume: "unit_factory (\<lambda>m. add_volume m part) cryptsetup_id"
  unfolding unit_factory_def using add_volume_Inr by blast

subsection \<open>The parser, item by item\<close>

lemma and_thenE:
  assumes "and_then r f = Inr y"
  obtains x where "r = Inr x" and "f x = Inr y"
  using assms by (cases r) (auto simp: and_then_def)

lemma read_keyE:
  assumes "read_key_or_fail v key = Inr x"
  shows "v = Some x"
  using assms by (cases v) (auto simp: read_key_or_fail_def)

lemma add_unit_Inr:
  assumes "add_unit st u = Inr st'"
  shows "map_of (units_dict st) (unit_id u) = None"
    and "st' = st\<lparr>units_dict := units_dict st @ [(unit_id u, u)]\<rparr>"
  using assms by (auto simp: add_unit_def split: if_splits)

lemma parse_unit_Inr:
  assumes "parse_unit F p st = Inr st'"
  shows "\<exists>m u. F (smanager st) p = Inr (m, u) \<and> map_of (units_dict st) (unit_id u) = None
           \<and> st' = st\<lparr>smanager := m, units_dict := units_dict st @ [(unit_id u, u)]\<rparr>"
proof -
  from assms obtain mu where a: "F (smanager st) p = Inr mu"
    and b: "(case mu of (m, u) \<Rightarrow> add_unit (st\<lparr>smanager := m\<rparr>) u) = Inr st'"
    unfolding parse_unit_def by (rule and_thenE)
  obtain m u where mu: "mu = (m, u)" by (cases mu)
  have c: "add_unit (st\<lparr>smanager := m\<rparr>) u = Inr st'" using b mu by simp
  show ?thesis
    using a mu add_unit_Inr [OF c] by simp
qed

lemma parse_disk_item_Inr:
  assumes "parse_disk_item item st = Inr st'"
  shows "\<exists>i m. disk_id item = Some i \<and> add_disk (smanager st) i = Inr m
           \<and> for_each (parse_unit (\<lambda>m. add_partition m i)) (disk_partitions item)
                (st\<lparr>smanager := m\<rparr>) = Inr st'"
  using assms unfolding parse_disk_item_def
  by (elim and_thenE) (auto dest: read_keyE)

lemma parse_crypto_item_Inr:
  assumes "parse_crypto_item item st = Inr st'"
  shows "\<exists>pid part. on_partition item = Some pid \<and> unit_by_id st pid = Inr part
           \<and> parse_unit (\<lambda>m. add_volume m part) (crypto_params item) st = Inr st'"
  using assms unfolding parse_crypto_item_def
  by (elim and_thenE) (auto dest: read_keyE)

lemma parse_raid_item_Inr:
  assumes "parse_raid_item item st = Inr st'"
  shows "\<exists>r level md members m.
           raid_id item = Some r \<and> raid_level item = Some level \<and> raid_metadata item = Some md
           \<and> units_by_ids st (raid_members item) = Inr members
           \<and> add_raid (smanager st) (raid_device_id r) level members
                (if md = [] then ''1.2'' else md) = Inr m
           \<and> for_each (parse_unit (\<lambda>m. add_partition m (raid_device_id r)))
                (raid_partitions item) (st\<lparr>smanager := m\<rparr>) = Inr st'"
proof -
  from assms obtain r where r: "read_key_or_fail (raid_id item) ''id'' = Inr r"
    and 1: "and_then (read_key_or_fail (raid_level item) ''level'') (\<lambda>level.
     and_then (read_key_or_fail (raid_metadata item) ''metadata'') (\<lambda>md.
       let metadata = (if md = [] then ''1.2'' else md) in
       and_then (units_by_ids st (raid_members item)) (\<lambda>members.
       and_then (add_raid (smanager st) (raid_device_id r) level members metadata) (\<lambda>m.
         for_each (parse_unit (\<lambda>m. add_partition m (raid_device_id r))) (raid_partitions item)
           (st\<lparr>smanager := m\<rparr>))))) = Inr st'"
    unfolding parse_raid_item_def by (rule and_thenE)
  from 1 obtain level where l: "read_key_or_fail (raid_level item) ''level'' = Inr level"
    and 2: "and_then (read_key_or_fail (raid_metadata item) ''metadata'') (\<lambda>md.
       let metadata = (if md = [] then ''1.2'' else md) in
       and_then (units_by_ids st (raid_members item)) (\<lambda>members.
       and_then (add_raid (smanager st) (raid_device_id r) level members metadata) (\<lambda>m.
         for_each (parse_unit (\<lambda>m. add_partition m (raid_device_id r))) (raid_partitions item)
           (st\<lparr>smanager := m\<rparr>)))) = Inr st'"
    by (rule and_thenE)
  from 2 obtain md where md: "read_key_or_fail (raid_metadata item) ''metadata'' = Inr md"
    and 3: "and_then (units_by_ids st (raid_members item)) (\<lambda>members.
       and_then (add_raid (smanager st) (raid_device_id r) level members
           (if md = [] then ''1.2'' else md)) (\<lambda>m.
         for_each (parse_unit (\<lambda>m. add_partition m (raid_device_id r))) (raid_partitions item)
           (st\<lparr>smanager := m\<rparr>))) = Inr st'"
    unfolding Let_def by (rule and_thenE)
  from 3 obtain members where ms: "units_by_ids st (raid_members item) = Inr members"
    and 4: "and_then (add_raid (smanager st) (raid_device_id r) level members
           (if md = [] then ''1.2'' else md)) (\<lambda>m.
         for_each (parse_unit (\<lambda>m. add_partition m (raid_device_id r))) (raid_partitions item)
           (st\<lparr>smanager := m\<rparr>)) = Inr st'"
    by (rule and_thenE)
  from 4 obtain m where m: "add_raid (smanager st) (raid_device_id r) level members
           (if md = [] then ''1.2'' else md) = Inr m"
    and 5: "for_each (parse_unit (\<lambda>m. add_partition m (raid_device_id r))) (raid_partitions item)
           (st\<lparr>smanager := m\<rparr>) = Inr st'"
    by (rule and_thenE)
  show ?thesis
    using read_keyE [OF r] read_keyE [OF l] read_keyE [OF md] ms m 5 by blast
qed

lemma parse_vg_item_Inr:
  assumes "parse_vg_item item st = Inr st'"
  shows "\<exists>v pvs m. vg_id item = Some v \<and> units_by_ids st (vg_physical_volumes item) = Inr pvs
           \<and> add_vg (smanager st) v pvs = Inr m
           \<and> for_each (parse_unit (\<lambda>m. add_lv m v)) (vg_logical_volumes item)
                (st\<lparr>smanager := m\<rparr>) = Inr st'"
  using assms unfolding parse_vg_item_def
  by (elim and_thenE) (auto dest: read_keyE)

subsection \<open>Device ids through the parser\<close>

lemma units_loop_manager:
  assumes "for_each (parse_unit F) ps st = Inr st'" and "unit_factory F dev"
  shows "device_ids (smanager st') = device_ids (smanager st)"
    and "keeps (smanager st) (smanager st')"
proof -
  have "device_ids (smanager st') = device_ids (smanager st) \<and> keeps (smanager st) (smanager st')"
  proof (rule for_each_invariant [OF assms(1),
        where P = "\<lambda>t. device_ids (smanager t) = device_ids (smanager st)
                      \<and> keeps (smanager st) (smanager t)"])
    show "device_ids (smanager st) = device_ids (smanager st) \<and> keeps (smanager st) (smanager st)"
      by (simp add: keeps_refl)
  next
    fix p t t'
    assume h: "device_ids (smanager t) = device_ids (smanager st)
                 \<and> keeps (smanager st) (smanager t)"
      and s: "parse_unit F p t = Inr t'"
    from parse_unit_Inr [OF s] obtain m u where
      f: "F (smanager t) p = Inr (m, u)" and t': "smanager t' = m"
      by auto
    have m: "m = append_unit (smanager t) dev u"
      using assms(2) f unfolding unit_factory_def by blast
    show "device_ids (smanager t') = device_ids (smanager st) \<and> keeps (smanager st) (smanager t')"
      using h t' m append_unit_ids append_unit_keeps keeps_trans by metis
  qed
  then show "device_ids (smanager st') = device_ids (smanager st)"
    and "keeps (smanager st) (smanager st')" by simp_all
qed

lemma parse_disk_item_manager:
  assumes "parse_disk_item item st = Inr st'"
  shows "device_ids (smanager st') = device_ids (smanager st) @ [the (disk_id item)]"
    and "the (disk_id item) \<notin> set (device_ids (smanager st))"
    and "keeps (smanager st) (smanager st')"
proof -
  from parse_disk_item_Inr [OF assms] obtain i m where
    i: "disk_id item = Some i" and a: "add_disk (smanager st) i = Inr m"
    and l: "for_each (parse_unit (\<lambda>m. add_partition m i)) (disk_partitions item)
              (st\<lparr>smanager := m\<rparr>) = Inr st'"
    by blast
  note u = units_loop_manager [OF l unit_factory_add_partition]
  show "device_ids (smanager st') = device_ids (smanager st) @ [the (disk_id item)]"
    using u(1) add_disk_Inr(2) [OF a] i by simp
  show "the (disk_id item) \<notin> set (device_ids (smanager st))"
    using add_disk_Inr(1) [OF a] i by simp
  show "keeps (smanager st) (smanager st')"
    using u(2) add_disk_Inr(3) [OF a] keeps_trans by fastforce
qed

lemma parse_raid_item_manager:
  assumes "parse_raid_item item st = Inr st'"
  shows "device_ids (smanager st') = device_ids (smanager st) @ [raid_device_id (the (raid_id item))]"
    and "raid_device_id (the (raid_id item)) \<notin> set (device_ids (smanager st))"
    and "keeps (smanager st) (smanager st')"
    and "\<exists>d level md ms. get_device_by_id (smanager st') (raid_device_id (the (raid_id item))) = Some d
           \<and> dev_class d = RAID level md ms \<and> raid_level item = Some level"
proof -
  from parse_raid_item_Inr [OF assms] obtain r level md members m where
    r: "raid_id item = Some r" and lv: "raid_level item = Some level"
    and a: "add_raid (smanager st) (raid_device_id r) level members
                (if md = [] then ''1.2'' else md) = Inr m"
    and l: "for_each (parse_unit (\<lambda>m. add_partition m (raid_device_id r)))
                (raid_partitions item) (st\<lparr>smanager := m\<rparr>) = Inr st'"
    by blast
  note u = units_loop_manager [OF l unit_factory_add_partition]
  show "device_ids (smanager st') = device_ids (smanager st) @ [raid_device_id (the (raid_id item))]"
    using u(1) add_raid_Inr(2) [OF a] r by simp
  show "raid_device_id (the (raid_id item)) \<notin> set (device_ids (smanager st))"
    using add_raid_Inr(1) [OF a] r by simp
  show "keeps (smanager st) (smanager st')"
    using u(2) add_raid_Inr(3) [OF a] keeps_trans by fastforce
  from add_raid_Inr(5) [OF a] obtain d where
    d: "get_device_by_id m (raid_device_id r) = Some d"
       "dev_class d = RAID level (if md = [] then ''1.2'' else md) members"
    by blast
  from u(2) d(1) obtain d' where
    "get_device_by_id (smanager st') (raid_device_id r) = Some d'" "dev_class d' = dev_class d"
    unfolding keeps_def by fastforce
  then show "\<exists>d level md ms.
      get_device_by_id (smanager st') (raid_device_id (the (raid_id item))) = Some d
      \<and> dev_class d = RAID level md ms \<and> raid_level item = Some level"
    using d(2) r lv by auto
qed

lemma parse_vg_item_manager:
  assumes "parse_vg_item item st = Inr st'"
  shows "device_ids (smanager st') = device_ids (smanager st) @ [the (vg_id item)]"
    and "the (vg_id item) \<notin> set (device_ids (smanager st))"
    and "keeps (smanager st) (smanager st')"
proof -
  from parse_vg_item_Inr [OF assms] obtain v pvs m where
    v: "vg_id item = Some v" and a: "add_vg (smanager st) v pvs = Inr m"
    and l: "for_each (parse_unit (\<lambda>m. add_lv m v)) (vg_logical_volumes item)
              (st\<lparr>smanager := m\<rparr>) = Inr st'"
    by blast
  note u = units_loop_manager [OF l unit_factory_add_lv]
  show "device_ids (smanager st') = device_ids (smanager st) @ [the (vg_id item)]"
    using u(1) add_vg_Inr(2) [OF a] v by simp
  show "the (vg_id item) \<notin> set (device_ids (smanager st))"
    using add_vg_Inr(1) [OF a] v by simp
  show "keeps (smanager st) (smanager st')"
    using u(2) add_vg_Inr(3) [OF a] keeps_trans by fastforce
qed

lemma parse_crypto_item_manager:
  assumes "parse_crypto_item item st = Inr st'"
  shows "device_ids (smanager st') = device_ids (smanager st)"
    and "keeps (smanager st) (smanager st')"
proof -
  from parse_crypto_item_Inr [OF assms] obtain pid part where
    p: "parse_unit (\<lambda>m. add_volume m part) (crypto_params item) st = Inr st'"
    by blast
  then have l: "for_each (parse_unit (\<lambda>m. add_volume m part)) [crypto_params item] st = Inr st'"
    by (simp add: and_then_def)
  note u = units_loop_manager [OF l unit_factory_add_volume]
  show "device_ids (smanager st') = device_ids (smanager st)" by (rule u(1))
  show "keeps (smanager st) (smanager st')" by (rule u(2))
qed

lemma fold_snoc_keys: "fold (\<lambda>x ks. ks @ [k x]) xs ks0 = ks0 @ map k xs"
  by (induction xs arbitrary: ks0) auto

lemma items_loop_ids:
  assumes "for_each f xs s = Inr s'"
    and "\<And>x t t'. x \<in> set xs \<Longrightarrow> f x t = Inr t'
           \<Longrightarrow> device_ids (smanager t') = device_ids (smanager t) @ [k x]"
  shows "device_ids (smanager s') = device_ids (smanager s) @ map k xs"
  using for_each_fold [OF assms(1), where g = "\<lambda>t. device_ids (smanager t)"
      and h = "\<lambda>x ks. ks @ [k x]"] assms(2)
  by (simp add: fold_snoc_keys)

lemma items_loop_keeps:
  assumes "for_each f xs s = Inr s'"
    and "\<And>x t t'. x \<in> set xs \<Longrightarrow> f x t = Inr t' \<Longrightarrow> keeps (smanager t) (smanager t')"
  shows "keeps (smanager s) (smanager s')"
proof (rule for_each_invariant [OF assms(1), where P = "\<lambda>t. keeps (smanager s) (smanager t)"])
  show "keeps (smanager s) (smanager s)" by (rule keeps_refl)
next
  fix x t t'
  assume "x \<in> set xs" "keeps (smanager s) (smanager t)" "f x t = Inr t'"
  then show "keeps (smanager s) (smanager t')"
    using assms(2) keeps_trans by blast
qed

lemma items_loop_distinct:
  assumes "for_each f xs s = Inr s'" and "distinct (device_ids (smanager s))"
    and "\<And>x t t'. x \<in> set xs \<Longrightarrow> f x t = Inr t'
           \<Longrightarrow> device_ids (smanager t') = device_ids (smanager t) @ [k x]
               \<and> k x \<notin> set (device_ids (smanager t))"
  shows "distinct (device_ids (smanager s'))"
proof (rule for_each_invariant [OF assms(1), where P = "\<lambda>t. distinct (device_ids (smanager t))"])
  show "distinct (device_ids (smanager s))" by (rule assms(2))
next
  fix x t t'
  assume "x \<in> set xs" "distinct (device_ids (smanager t))" "f x t = Inr t'"
  then show "distinct (device_ids (smanager t'))"
    using assms(3) [of x t t'] by simp
qed

lemma parse_disks_manager:
  assumes "parse_disks cfg st = Inr st'"
  shows "device_ids (smanager st')
           = device_ids (smanager st) @ map (\<lambda>d. the (disk_id d)) (disks cfg)"
    and "keeps (smanager st) (smanager st')"
    and "distinct (device_ids (smanager st)) \<Longrightarrow> distinct (device_ids (smanager st'))"
proof -
  from assms obtain t where l: "for_each parse_disk_item (disks cfg) st = Inr t"
    and t: "st' = t\<lparr>has_disks := (disks cfg \<noteq> [])\<rparr>"
    unfolding parse_disks_def by (elim and_thenE) auto
  show "device_ids (smanager st')
           = device_ids (smanager st) @ map (\<lambda>d. the (disk_id d)) (disks cfg)"
    using items_loop_ids [OF l, of "\<lambda>d. the (disk_id d)"] parse_disk_item_manager(1) t by simp
  show "keeps (smanager st) (smanager st')"
    using items_loop_keeps [OF l] parse_disk_item_manager(3) t by simp
  show "distinct (device_ids (smanager st'))" if "distinct (device_ids (smanager st))"
    using items_loop_distinct [OF l that, of "\<lambda>d. the (disk_id d)"]
      parse_disk_item_manager(1,2) t by simp
qed

lemma parse_crypto_volumes_manager:
  assumes "parse_crypto_volumes cfg st = Inr st'"
  shows "device_ids (smanager st') = device_ids (smanager st)"
    and "keeps (smanager st) (smanager st')"
proof -
  have "device_ids (smanager st') = device_ids (smanager st) \<and> keeps (smanager st) (smanager st')"
  proof (cases "crypto_volumes cfg")
    case None
    then show ?thesis using assms by (auto simp: parse_crypto_volumes_def keeps_refl)
  next
    case (Some cl)
    from assms Some obtain t where l: "for_each parse_crypto_item cl st = Inr t"
      and t: "st' = t\<lparr>has_crypto := (cl \<noteq> [])\<rparr>"
      unfolding parse_crypto_volumes_def by (auto elim!: and_thenE)
    have "device_ids (smanager t) = device_ids (smanager st)"
      by (rule for_each_invariant [OF l,
            where P = "\<lambda>u. device_ids (smanager u) = device_ids (smanager st)"])
         (simp_all add: parse_crypto_item_manager(1))
    moreover have "keeps (smanager st) (smanager t)"
      using items_loop_keeps [OF l] parse_crypto_item_manager(2) by simp
    ultimately show ?thesis using t by simp
  qed
  then show "device_ids (smanager st') = device_ids (smanager st)"
    and "keeps (smanager st) (smanager st')" by simp_all
qed

lemma parse_raids_manager:
  assumes "parse_raids cfg st = Inr st'"
  shows "device_ids (smanager st')
           = device_ids (smanager st)
             @ map (\<lambda>r. raid_device_id (the (raid_id r))) (opt_list (raids cfg))"
    and "keeps (smanager st) (smanager st')"
    and "distinct (device_ids (smanager st)) \<Longrightarrow> distinct (device_ids (smanager st'))"
proof -
  let ?k = "\<lambda>r. raid_device_id (the (raid_id r))"
  have "device_ids (smanager st') = device_ids (smanager st) @ map ?k (opt_list (raids cfg))
      \<and> keeps (smanager st) (smanager st')
      \<and> (distinct (device_ids (smanager st)) \<longrightarrow> distinct (device_ids (smanager st')))"
  proof (cases "raids cfg")
    case None
    then show ?thesis using assms by (auto simp: parse_raids_def keeps_refl opt_list_def)
  next
    case (Some rl)
    from assms Some obtain t where l: "for_each parse_raid_item rl st = Inr t"
      and t: "st' = t\<lparr>has_raids := (rl \<noteq> [])\<rparr>"
      unfolding parse_raids_def by (auto elim!: and_thenE)
    have "device_ids (smanager t) = device_ids (smanager st) @ map ?k rl"
      using items_loop_ids [OF l, of ?k] parse_raid_item_manager(1) by simp
    moreover have "keeps (smanager st) (smanager t)"
      using items_loop_keeps [OF l] parse_raid_item_manager(3) by simp
    moreover have "distinct (device_ids (smanager t))" if "distinct (device_ids (smanager st))"
      using items_loop_distinct [OF l that, of ?k] parse_raid_item_manager(1,2) by simp
    ultimately show ?thesis using t Some by (simp add: opt_list_def)
  qed
  then show "device_ids (smanager st')
           = device_ids (smanager st) @ map ?k (opt_list (raids cfg))"
    and "keeps (smanager st) (smanager st')"
    and "distinct (device_ids (smanager st)) \<Longrightarrow> distinct (device_ids (smanager st'))"
    by blast+
qed

lemma parse_volume_groups_manager:
  assumes "parse_volume_groups cfg st = Inr st'"
  shows "device_ids (smanager st')
           = device_ids (smanager st) @ map (\<lambda>v. the (vg_id v)) (opt_list (volume_groups cfg))"
    and "keeps (smanager st) (smanager st')"
    and "distinct (device_ids (smanager st)) \<Longrightarrow> distinct (device_ids (smanager st'))"
proof -
  let ?k = "\<lambda>v. the (vg_id v)"
  have "device_ids (smanager st') = device_ids (smanager st) @ map ?k (opt_list (volume_groups cfg))
      \<and> keeps (smanager st) (smanager st')
      \<and> (distinct (device_ids (smanager st)) \<longrightarrow> distinct (device_ids (smanager st')))"
  proof (cases "volume_groups cfg")
    case None
    then show ?thesis using assms by (auto simp: parse_volume_groups_def keeps_refl opt_list_def)
  next
    case (Some vl)
    from assms Some obtain t where l: "for_each parse_vg_item vl st = Inr t"
      and t: "st' = t\<lparr>has_lvm := (vl \<noteq> [])\<rparr>"
      unfolding parse_volume_groups_def by (auto elim!: and_thenE)
    have "device_ids (smanager t) = device_ids (smanager st) @ map ?k vl"
      using items_loop_ids [OF l, of ?k] parse_vg_item_manager(1) by simp
    moreover have "keeps (smanager st) (smanager t)"
      using items_loop_keeps [OF l] parse_vg_item_manager(3) by simp
    moreover have "distinct (device_ids (smanager t))" if "distinct (device_ids (smanager st))"
      using items_loop_distinct [OF l that, of ?k] parse_vg_item_manager(1,2) by simp
    ultimately show ?thesis using t Some by (simp add: opt_list_def)
  qed
  then show "device_ids (smanager st')
           = device_ids (smanager st) @ map ?k (opt_list (volume_groups cfg))"
    and "keeps (smanager st) (smanager st')"
    and "distinct (device_ids (smanager st)) \<Longrightarrow> distinct (device_ids (smanager st'))"
    by blast+
qed

lemma validate_Inr: "validate st = Inr st' \<Longrightarrow> st' = st"
  by (auto simp: validate_def split: if_splits)

text \<open>The phases of a successful construction.\<close>

lemma init_phases:
  assumes "StorageInstaller_init root cfg = Inr st"
  obtains st1 st2 st3 where "parse_disks cfg (StorageInstaller_new root) = Inr st1"
    and "parse_crypto_volumes cfg st1 = Inr st2" and "parse_raids cfg st2 = Inr st3"
    and "parse_volume_groups cfg st3 = Inr st" and "validate st = Inr st"
proof -
  from assms obtain st1 where 1: "parse_disks cfg (StorageInstaller_new root) = Inr st1"
    and a: "and_then (parse_crypto_volumes cfg st1) (\<lambda>st2.
     and_then (parse_raids cfg st2) (\<lambda>st3.
     and_then (parse_volume_groups cfg st3) validate)) = Inr st"
    unfolding StorageInstaller_init_def by (rule and_thenE)
  from a obtain st2 where 2: "parse_crypto_volumes cfg st1 = Inr st2"
    and b: "and_then (parse_raids cfg st2) (\<lambda>st3.
     and_then (parse_volume_groups cfg st3) validate) = Inr st"
    by (rule and_thenE)
  from b obtain st3 where 3: "parse_raids cfg st2 = Inr st3"
    and c: "and_then (parse_volume_groups cfg st3) validate = Inr st"
    by (rule and_thenE)
  from c obtain st4 where 4: "parse_volume_groups cfg st3 = Inr st4" and 5: "validate st4 = Inr st"
    by (rule and_thenE)
  have "st4 = st" using validate_Inr [OF 5] by simp
  then show ?thesis using that 1 2 3 4 5 by simp
qed

lemma init_device_ids:
  assumes "StorageInstaller_init root cfg = Inr st"
  shows "device_ids (smanager st) = config_device_ids cfg"
    and "distinct (config_device_ids cfg)"
proof -
  from assms obtain st1 st2 st3 where 1: "parse_disks cfg (StorageInstaller_new root) = Inr st1"
    and 2: "parse_crypto_volumes cfg st1 = Inr st2" and 3: "parse_raids cfg st2 = Inr st3"
    and 4: "parse_volume_groups cfg st3 = Inr st"
    by (rule init_phases)
  have 0: "device_ids (smanager (StorageInstaller_new root)) = [cryptsetup_id]"
    by (simp add: StorageInstaller_new_def StorageManager_init_def device_ids_def)
  show i: "device_ids (smanager st) = config_device_ids cfg"
    using parse_disks_manager(1) [OF 1] parse_crypto_volumes_manager(1) [OF 2]
      parse_raids_manager(1) [OF 3] parse_volume_groups_manager(1) [OF 4] 0
    by (simp add: config_device_ids_def)
  have "distinct (device_ids (smanager st))"
    using parse_disks_manager(3) [OF 1] parse_crypto_volumes_manager(1) [OF 2]
      parse_raids_manager(3) [OF 3] parse_volume_groups_manager(3) [OF 4] 0
    by simp
  then show "distinct (config_device_ids cfg)" using i by simp
qed

lemma header_with_metadata_ok:
  "\<not> isl (StorageInstaller_init ''/mnt/target_root'' (example_header_config ''some_raid'' (Some ''1.2'')))"
  unfolding example_header_config_def unit_params_def
  by (simp add: parse_defs)

lemma header_without_metadata:
  "StorageInstaller_init ''/mnt/target_root'' (example_header_config ''some_raid'' None)
     = Inl (KeyNotSet ''metadata'')"
  unfolding example_header_config_def unit_params_def
  by (simp add: parse_defs)

subsection \<open>RAID entries\<close>

lemma raid_device_id_relative: "\<not> os_path_isabs r \<Longrightarrow> raid_device_id r = ''/dev/md/'' @ r"
  by (simp add: raid_device_id_def os_path_join_def)

lemma raid_device_id_absolute: "os_path_isabs r \<Longrightarrow> raid_device_id r = r"
  by (simp add: raid_device_id_def os_path_join_def)

lemma parse_raids_item_registered:
  assumes "parse_raids cfg st = Inr st'" and "raids cfg = Some rl" and "item \<in> set rl"
  shows "\<exists>d level md ms.
           get_device_by_id (smanager st') (raid_device_id (the (raid_id item))) = Some d
           \<and> dev_class d = RAID level md ms \<and> raid_level item = Some level"
proof -
  from assms(1,2) obtain t where l: "for_each parse_raid_item rl st = Inr t"
    and t: "st' = t\<lparr>has_raids := (rl \<noteq> [])\<rparr>"
    unfolding parse_raids_def by (auto elim!: and_thenE)
  from for_each_processed [OF l assms(3)] obtain pre post u u' where
    p: "rl = pre @ item # post" "parse_raid_item item u = Inr u'"
       "for_each parse_raid_item post u' = Inr t"
    by blast
  from parse_raid_item_manager(4) [OF p(2)] obtain d level md ms where
    d: "get_device_by_id (smanager u') (raid_device_id (the (raid_id item))) = Some d"
       "dev_class d = RAID level md ms" "raid_level item = Some level"
    by blast
  have "keeps (smanager u') (smanager t)"
    using items_loop_keeps [OF p(3)] parse_raid_item_manager(3) by simp
  then obtain d' where
    "get_device_by_id (smanager t) (raid_device_id (the (raid_id item))) = Some d'"
    "dev_class d' = dev_class d"
    using d(1) unfolding keeps_def by blast
  then show ?thesis using d(2,3) t by auto
qed

text \<open>
  C9, as amended. For a RAID entry whose configured id \<open>r\<close> does not start with a slash, the
  RAID is registered under the joined id \<open>/dev/md/r\<close>, which differs from \<open>r\<close>: after a
  successful construction the device under \<open>/dev/md/r\<close> is a RAID with the level of the entry,
  and there is a device under \<open>r\<close> only if \<open>r\<close> is itself one of the ids that the
  configuration registers. Duplicate detection works on the joined ids: the registered ids
  of an accepted configuration are pairwise distinct.
\<close>

theorem raid_registered_under_joined_id:
  assumes "StorageInstaller_init root cfg = Inr st" and "raids cfg = Some rl"
    and "item \<in> set rl" and "raid_id item = Some r" and "\<not> os_path_isabs r"
  shows "raid_device_id r = ''/dev/md/'' @ r \<and> ''/dev/md/'' @ r \<noteq> r
    \<and> (\<exists>d level md ms. get_device_by_id (smanager st) (''/dev/md/'' @ r) = Some d
          \<and> dev_class d = RAID level md ms \<and> raid_level item = Some level)
    \<and> (get_device_by_id (smanager st) r = None \<longleftrightarrow> r \<notin> set (config_device_ids cfg))
    \<and> distinct (config_device_ids cfg)"
proof -
  from assms(1) obtain st1 st2 st3 where
    3: "parse_raids cfg st2 = Inr st3" and 4: "parse_volume_groups cfg st3 = Inr st"
    by (rule init_phases)
  have j: "raid_device_id r = ''/dev/md/'' @ r"
    by (rule raid_device_id_relative [OF assms(5)])
  from parse_raids_item_registered [OF 3 assms(2,3)] obtain d level md ms where
    d: "get_device_by_id (smanager st3) (raid_device_id r) = Some d"
       "dev_class d = RAID level md ms" "raid_level item = Some level"
    using assms(4) by auto
  obtain d' where d': "get_device_by_id (smanager st) (raid_device_id r) = Some d'"
    "dev_class d' = dev_class d"
    using parse_volume_groups_manager(2) [OF 4] d(1) unfolding keeps_def by blast
  have a: "\<exists>d level md ms. get_device_by_id (smanager st) (''/dev/md/'' @ r) = Some d
          \<and> dev_class d = RAID level md ms \<and> raid_level item = Some level"
    using d' d(2,3) j by auto
  have b: "get_device_by_id (smanager st) r = None \<longleftrightarrow> r \<notin> set (config_device_ids cfg)"
    using init_device_ids(1) [OF assms(1)] by (simp add: absent_iff)
  show ?thesis
    using j a b init_device_ids(2) [OF assms(1)] by simp
qed

theorem raid_registered_under_joined_id_witness:
  "succeeds_with
     (\<lambda>st. (\<exists>d level md ms. get_device_by_id (smanager st) ''/dev/md/some_raid'' = Some d
               \<and> dev_class d = RAID level md ms \<and> level = 1)
          \<and> get_device_by_id (smanager st) ''some_raid'' = None)
     (StorageInstaller_init ''/mnt/target_root'' (example_header_config ''some_raid'' (Some ''1.2'')))"
proof -
  let ?cfg = "example_header_config ''some_raid'' (Some ''1.2'')"
  let ?item = "hd (opt_list (raids ?cfg))"
  obtain st where st: "StorageInstaller_init ''/mnt/target_root'' ?cfg = Inr st"
    using header_with_metadata_ok by (cases "StorageInstaller_init ''/mnt/target_root'' ?cfg") auto
  have r: "raids ?cfg = Some [?item]" "?item \<in> set [?item]" "raid_id ?item = Some ''some_raid''"
    "raid_level ?item = Some 1" "\<not> os_path_isabs ''some_raid''"
    by (simp_all add: example_header_config_def opt_list_def os_path_isabs_def)
  have n: "''some_raid'' \<notin> set (config_device_ids ?cfg)"
    by (simp add: config_device_ids_def example_header_config_def opt_list_def
        raid_device_id_def os_path_join_def os_path_isabs_def cryptsetup_id_def)
  note t = raid_registered_under_joined_id [OF st r(1,2,3,5)]
  have "(\<exists>d level md ms. get_device_by_id (smanager st) ''/dev/md/some_raid'' = Some d
               \<and> dev_class d = RAID level md ms \<and> level = 1)
          \<and> get_device_by_id (smanager st) ''some_raid'' = None"
    using t n r(4) by auto
  then show ?thesis using st by (simp add: succeeds_with_def)
qed

text \<open>
  The claim as stated fails for an id that starts with a slash: \<open>os.path.join\<close> then returns
  the id itself, and the RAID is registered under it, not under \<open>/dev/md/\<close> followed by it.
\<close>

theorem raid_absolute_id_counterexample:
  "succeeds_with
     (\<lambda>st. (case get_device_by_id (smanager st) ''/dev/md0'' of
               None \<Rightarrow> False | Some d \<Rightarrow> is_RAID (dev_class d))
          \<and> get_device_by_id (smanager st) (''/dev/md/'' @ ''/dev/md0'') = None)
     (StorageInstaller_init ''/mnt/target_root'' (example_header_config ''/dev/md0'' (Some ''1.2'')))"
  unfolding example_header_config_def unit_params_def succeeds_with_def
  by (simp add: parse_defs)

subsection \<open>The metadata key of a RAID entry\<close>

lemma isl_and_then: "isl (and_then r f) \<longleftrightarrow> isl r \<or> (\<exists>x. r = Inr x \<and> isl (f x))"
  by (cases r) (auto simp: and_then_def)

lemma parse_raid_item_no_metadata:
  "raid_metadata item = None \<Longrightarrow> isl (parse_raid_item item st)"
  by (cases "raid_id item"; cases "raid_level item")
    (simp_all add: parse_raid_item_def and_then_def read_key_or_fail_def)

text \<open>
  C8. The code requires the metadata key: \<open>_parse_raids\<close> reads it with
  \<open>read_key_or_fail\<close>, so a configuration with a RAID entry that omits the key is rejected,
  and an entry with an id and a level fails with the error of the missing key. The default
  \<open>1.2\<close> is reached only by an empty metadata string.
\<close>

theorem raid_without_metadata_rejected:
  assumes "raids cfg = Some rl" and "item \<in> set rl" and "raid_metadata item = None"
  shows "isl (StorageInstaller_init root cfg)
    \<and> (raid_id item = Some r \<and> raid_level item = Some level
         \<longrightarrow> parse_raid_item item st = Inl (KeyNotSet ''metadata''))"
proof -
  have l: "isl (for_each parse_raid_item rl t)" for t
    by (rule for_each_fails [OF assms(2), where P = "\<lambda>t. True"])
       (simp_all add: parse_raid_item_no_metadata [OF assms(3)])
  have "isl (parse_raids cfg t)" for t
    using l [of t] assms(1) by (simp add: parse_raids_def and_then_isl)
  then have "isl (StorageInstaller_init root cfg)"
    unfolding StorageInstaller_init_def by (simp add: isl_and_then) (metis sum.collapse(2))
  moreover have "raid_id item = Some r \<and> raid_level item = Some level
         \<longrightarrow> parse_raid_item item st = Inl (KeyNotSet ''metadata'')"
    using assms(3) by (simp add: parse_raid_item_def and_then_def read_key_or_fail_def)
  ultimately show ?thesis by simp
qed

theorem raid_without_metadata_rejected_witness:
  "StorageInstaller_init ''/mnt/target_root'' (example_header_config ''some_raid'' None)
     = Inl (KeyNotSet ''metadata'')
   \<and> isl (StorageInstaller_init ''/mnt/target_root'' (example_header_config ''some_raid'' None))
   \<and> \<not> isl (StorageInstaller_init ''/mnt/target_root''
             (example_header_config ''some_raid'' (Some ''1.2'')))"
proof -
  let ?cfg = "example_header_config ''some_raid'' None"
  let ?item = "hd (opt_list (raids ?cfg))"
  have r: "raids ?cfg = Some [?item]" "?item \<in> set [?item]" "raid_metadata ?item = None"
    by (simp_all add: example_header_config_def opt_list_def)
  have "isl (StorageInstaller_init ''/mnt/target_root'' ?cfg)"
    using raid_without_metadata_rejected [OF r] by blast
  then show ?thesis
    using header_without_metadata header_with_metadata_ok by simp
qed

subsection \<open>The root mount point\<close>

lemma append_unit_other:
  "i \<notin> fst ` set xs
     \<Longrightarrow> map (\<lambda>(k, d). if k = i then (k, f d) else (k, d)) xs = xs"
  by (induction xs) auto

lemma append_unit_filter:
  assumes "distinct (map fst xs)" and "i \<in> fst ` set xs"
  shows "length (filter P (concat (map storage_units (map snd
            (map (\<lambda>(k, d). if k = i then (k, d\<lparr>storage_units := storage_units d @ [u]\<rparr>)
                           else (k, d)) xs)))))
         = length (filter P (concat (map storage_units (map snd xs)))) + (if P u then 1 else 0)"
  using assms
proof (induction xs)
  case Nil
  then show ?case by simp
next
  case (Cons a xs)
  obtain k d where a: "a = (k, d)" by (cases a)
  show ?case
  proof (cases "k = i")
    case True
    then have "i \<notin> fst ` set xs" using Cons.prems(1) a by auto
    then show ?thesis using True a
      by (simp add: append_unit_other [where f = "\<lambda>d. d\<lparr>storage_units := storage_units d @ [u]\<rparr>"])
  next
    case False
    then have "i \<in> fst ` set xs" using Cons.prems(2) a by auto
    then show ?thesis using Cons.IH Cons.prems(1) False a by simp
  qed
qed

lemma root_units_append_unit:
  assumes "distinct (device_ids m)" and "dev \<in> set (device_ids m)"
  shows "length (root_units (append_unit m dev u))
           = length (root_units m) + (if mount_point u = Some ''/'' then 1 else 0)"
  using append_unit_filter [of "devices_dict m" dev "\<lambda>u. mount_point u = Some ''/''" u] assms
  by (simp add: root_units_def manager_storage_units_def devices_def devices_values_def
      append_unit_def device_ids_def)

lemma check_root_absent:
  assumes "check_mount_point m (Some ''/'') = Inr ()"
  shows "root_units m = []"
proof -
  have "get_unit_by_mount_point_internal m ''/'' = None"
    using assms by (auto simp: check_mount_point_def check_can_mount_to_def split: if_splits)
  then show ?thesis
    by (auto simp: get_unit_by_mount_point_internal_def root_units_def manager_storage_units_def
        devices_def find_None_iff filter_empty_conv)
qed

lemma validate_root:
  assumes "validate st = Inr st'"
  shows "root_units (smanager st) \<noteq> []"
proof -
  have "get_unit_by_mount_point (smanager st) ''/'' \<noteq> None"
    using assms by (auto simp: validate_def split: if_splits)
  then obtain mnt u where "(mnt, u) \<in> set (mount_points (smanager st))" and "''/'' = mnt"
    by (auto simp: get_unit_by_mount_point_def find_None_iff)
  then have "u \<in> set (manager_storage_units (smanager st))" and "mount_point u = Some ''/''"
    by (auto simp: mount_points_def units_mount_points_filter is_mounted_def
        split: option.splits)
  then show ?thesis
    by (auto simp: root_units_def filter_empty_conv)
qed

lemma for_each_fold_inv:
  assumes "for_each f xs s = Inr s'" and "P s"
    and "\<And>x t t'. x \<in> set xs \<Longrightarrow> P t \<Longrightarrow> f x t = Inr t' \<Longrightarrow> P t' \<and> g t' = h x (g t)"
  shows "P s' \<and> g s' = fold h xs (g s)"
  using assms
proof (induction xs arbitrary: s)
  case Nil
  then show ?case by simp
next
  case (Cons x xs)
  from Cons.prems(1) obtain t where t: "f x s = Inr t" "for_each f xs t = Inr s'"
    by (auto simp: and_then_Inr)
  have pt: "P t \<and> g t = h x (g s)" using Cons.prems(3) [of x s t] Cons.prems(2) t(1) by simp
  have step: "P u' \<and> g u' = h z (g u)" if "z \<in> set xs" "P u" "f z u = Inr u'" for z u u'
    using Cons.prems(3) [of z u u'] that by simp
  have "P s' \<and> g s' = fold h xs (g t)"
    using Cons.IH [OF t(2) _ step] pt by blast
  then show ?case using pt by simp
qed

lemma fold_count: "fold (\<lambda>p n. n + (if P p then 1 else 0)) ps (n::nat) = n + length (filter P ps)"
  by (induction ps arbitrary: n) auto

lemma fold_count_concat:
  "fold (\<lambda>x n. n + length (filter P (k x))) xs (n::nat) = n + length (filter P (concat (map k xs)))"
  by (induction xs arbitrary: n) auto

lemma units_loop_roots:
  assumes "for_each (parse_unit F) ps st = Inr st'" and "unit_factory F dev"
    and "registry_inv dev st"
  shows "registry_inv dev st'
    \<and> length (root_units (smanager st'))
        = length (root_units (smanager st)) + length (filter is_root_params ps)"
proof -
  have "registry_inv dev st' \<and> length (root_units (smanager st'))
      = fold (\<lambda>p n. n + (if is_root_params p then 1 else 0)) ps (length (root_units (smanager st)))"
  proof (rule for_each_fold_inv [where P = "registry_inv dev"
        and g = "\<lambda>t. length (root_units (smanager t))"
        and h = "\<lambda>p n. n + (if is_root_params p then 1 else 0)", OF assms(1) assms(3)])
    fix p t t'
    assume inv: "registry_inv dev t" and s: "parse_unit F p t = Inr t'"
    from parse_unit_Inr [OF s] obtain m u where
      f: "F (smanager t) p = Inr (m, u)" and t': "smanager t' = m"
      by auto
    have m: "m = append_unit (smanager t) dev u"
      and c: "check_mount_point (smanager t) (p_mount_point p) = Inr ()"
      and mp: "mount_point u = p_mount_point p"
      using assms(2) f unfolding unit_factory_def by blast+
    have n: "length (root_units m)
        = length (root_units (smanager t)) + (if is_root_params p then 1 else 0)"
      using root_units_append_unit [of "smanager t" dev u] inv m mp
      by (simp add: registry_inv_def is_root_params_def)
    have "length (root_units m) \<le> 1"
    proof (cases "is_root_params p")
      case True
      then have "root_units (smanager t) = []"
        using c check_root_absent by (simp add: is_root_params_def)
      then show ?thesis using n True by simp
    next
      case False
      then show ?thesis using n inv by (simp add: registry_inv_def)
    qed
    then show "registry_inv dev t' \<and> length (root_units (smanager t'))
        = length (root_units (smanager t)) + (if is_root_params p then 1 else 0)"
      using inv n t' m by (simp add: registry_inv_def append_unit_ids)
  qed
  then show ?thesis by (simp add: fold_count)
qed

lemma registry_inv_smanager:
  "smanager a = smanager b \<Longrightarrow> registry_inv d a = registry_inv d b"
  by (simp add: registry_inv_def)

lemma container_roots:
  assumes "device_ids m = device_ids (smanager st) @ [i]"
    and "i \<notin> set (device_ids (smanager st))"
    and "manager_storage_units m = manager_storage_units (smanager st)"
    and "for_each (parse_unit F) ps (st\<lparr>smanager := m\<rparr>) = Inr st'"
    and "unit_factory F i" and "registry_inv cryptsetup_id st"
  shows "registry_inv cryptsetup_id st'
    \<and> length (root_units (smanager st'))
        = length (root_units (smanager st)) + length (filter is_root_params ps)"
proof -
  have r: "root_units m = root_units (smanager st)"
    using assms(3) by (simp add: root_units_def)
  have "registry_inv i (st\<lparr>smanager := m\<rparr>)"
    using assms(1,2,6) r by (simp add: registry_inv_def)
  from units_loop_roots [OF assms(4,5) this]
  have u: "registry_inv i st'"
    "length (root_units (smanager st')) = length (root_units m) + length (filter is_root_params ps)"
    by simp_all
  have "device_ids (smanager st') = device_ids m"
    using units_loop_manager(1) [OF assms(4,5)] by simp
  then have "cryptsetup_id \<in> set (device_ids (smanager st'))"
    using assms(1,6) by (simp add: registry_inv_def)
  then show ?thesis using u r by (simp add: registry_inv_def)
qed

lemma parse_disk_item_roots:
  assumes "parse_disk_item item st = Inr st'" and "registry_inv cryptsetup_id st"
  shows "registry_inv cryptsetup_id st'
    \<and> length (root_units (smanager st'))
        = length (root_units (smanager st)) + length (filter is_root_params (disk_partitions item))"
proof -
  from parse_disk_item_Inr [OF assms(1)] obtain i m where
    a: "add_disk (smanager st) i = Inr m"
    and l: "for_each (parse_unit (\<lambda>m. add_partition m i)) (disk_partitions item)
              (st\<lparr>smanager := m\<rparr>) = Inr st'"
    by blast
  show ?thesis
    by (rule container_roots [OF add_disk_Inr(2) [OF a] add_disk_Inr(1) [OF a]
          add_disk_Inr(4) [OF a] l unit_factory_add_partition assms(2)])
qed

lemma parse_raid_item_roots:
  assumes "parse_raid_item item st = Inr st'" and "registry_inv cryptsetup_id st"
  shows "registry_inv cryptsetup_id st'
    \<and> length (root_units (smanager st'))
        = length (root_units (smanager st)) + length (filter is_root_params (raid_partitions item))"
proof -
  from parse_raid_item_Inr [OF assms(1)] obtain r level md members m where
    a: "add_raid (smanager st) (raid_device_id r) level members
                (if md = [] then ''1.2'' else md) = Inr m"
    and l: "for_each (parse_unit (\<lambda>m. add_partition m (raid_device_id r)))
                (raid_partitions item) (st\<lparr>smanager := m\<rparr>) = Inr st'"
    by blast
  show ?thesis
    by (rule container_roots [OF add_raid_Inr(2) [OF a] add_raid_Inr(1) [OF a]
          add_raid_Inr(4) [OF a] l unit_factory_add_partition assms(2)])
qed

lemma parse_vg_item_roots:
  assumes "parse_vg_item item st = Inr st'" and "registry_inv cryptsetup_id st"
  shows "registry_inv cryptsetup_id st'
    \<and> length (root_units (smanager st'))
        = length (root_units (smanager st))
          + length (filter is_root_params (vg_logical_volumes item))"
proof -
  from parse_vg_item_Inr [OF assms(1)] obtain v pvs m where
    a: "add_vg (smanager st) v pvs = Inr m"
    and l: "for_each (parse_unit (\<lambda>m. add_lv m v)) (vg_logical_volumes item)
              (st\<lparr>smanager := m\<rparr>) = Inr st'"
    by blast
  show ?thesis
    by (rule container_roots [OF add_vg_Inr(2) [OF a] add_vg_Inr(1) [OF a]
          add_vg_Inr(4) [OF a] l unit_factory_add_lv assms(2)])
qed

lemma parse_crypto_item_roots:
  assumes "parse_crypto_item item st = Inr st'" and "registry_inv cryptsetup_id st"
  shows "registry_inv cryptsetup_id st'
    \<and> length (root_units (smanager st'))
        = length (root_units (smanager st)) + length (filter is_root_params [crypto_params item])"
proof -
  from parse_crypto_item_Inr [OF assms(1)] obtain pid part where
    p: "parse_unit (\<lambda>m. add_volume m part) (crypto_params item) st = Inr st'"
    by blast
  then have l: "for_each (parse_unit (\<lambda>m. add_volume m part)) [crypto_params item] st = Inr st'"
    by (simp add: and_then_def)
  show ?thesis
    by (rule units_loop_roots [OF l unit_factory_add_volume assms(2)])
qed

lemma items_loop_roots:
  assumes "for_each f xs s = Inr s'" and "registry_inv cryptsetup_id s"
    and "\<And>x t t'. f x t = Inr t' \<Longrightarrow> registry_inv cryptsetup_id t
           \<Longrightarrow> registry_inv cryptsetup_id t'
               \<and> length (root_units (smanager t'))
                   = length (root_units (smanager t)) + length (filter is_root_params (k x))"
  shows "registry_inv cryptsetup_id s'
    \<and> length (root_units (smanager s'))
        = length (root_units (smanager s)) + length (filter is_root_params (concat (map k xs)))"
proof -
  have "registry_inv cryptsetup_id s' \<and> length (root_units (smanager s'))
      = fold (\<lambda>x n. n + length (filter is_root_params (k x))) xs (length (root_units (smanager s)))"
    by (rule for_each_fold_inv [where P = "registry_inv cryptsetup_id"
          and g = "\<lambda>t. length (root_units (smanager t))"
          and h = "\<lambda>x n. n + length (filter is_root_params (k x))", OF assms(1,2)])
       (simp add: assms(3))
  then show ?thesis by (simp add: fold_count_concat)
qed

lemma init_roots:
  assumes "StorageInstaller_init root cfg = Inr st"
  shows "length (root_units (smanager st)) = length (root_params cfg)"
    and "length (root_units (smanager st)) = 1"
proof -
  from assms obtain st1 st2 st3 where 1: "parse_disks cfg (StorageInstaller_new root) = Inr st1"
    and 2: "parse_crypto_volumes cfg st1 = Inr st2" and 3: "parse_raids cfg st2 = Inr st3"
    and 4: "parse_volume_groups cfg st3 = Inr st" and 5: "validate st = Inr st"
    by (rule init_phases)
  let ?c = "\<lambda>t. length (root_units (smanager t))"
  let ?n = "\<lambda>ps. length (filter is_root_params ps)"
  have 0: "registry_inv cryptsetup_id (StorageInstaller_new root)"
    "?c (StorageInstaller_new root) = 0"
    by (simp_all add: registry_inv_def StorageInstaller_new_def StorageManager_init_def
        device_ids_def root_units_def manager_storage_units_def devices_def devices_values_def)
  have d: "registry_inv cryptsetup_id st1 \<and> ?c st1 = ?n (concat (map disk_partitions (disks cfg)))"
  proof -
    from 1 obtain t where l: "for_each parse_disk_item (disks cfg) (StorageInstaller_new root) = Inr t"
      and t: "st1 = t\<lparr>has_disks := (disks cfg \<noteq> [])\<rparr>"
      unfolding parse_disks_def by (elim and_thenE) auto
    from items_loop_roots [OF l 0(1), of disk_partitions] parse_disk_item_roots 0(2)
    have "registry_inv cryptsetup_id t \<and> ?c t = ?n (concat (map disk_partitions (disks cfg)))"
      by simp
    then show ?thesis using t by (simp add: registry_inv_def)
  qed
  have c: "registry_inv cryptsetup_id st2
      \<and> ?c st2 = ?c st1 + ?n (map crypto_params (opt_list (crypto_volumes cfg)))"
  proof (cases "crypto_volumes cfg")
    case None
    then show ?thesis using 2 d by (auto simp: parse_crypto_volumes_def opt_list_def registry_inv_def)
  next
    case (Some cl)
    from 2 Some obtain t where l: "for_each parse_crypto_item cl st1 = Inr t"
      and t: "st2 = t\<lparr>has_crypto := (cl \<noteq> [])\<rparr>"
      unfolding parse_crypto_volumes_def by (auto elim!: and_thenE)
    from items_loop_roots [OF l, of "\<lambda>item. [crypto_params item]"] parse_crypto_item_roots d
    have "registry_inv cryptsetup_id t \<and> ?c t = ?c st1 + ?n (concat (map (\<lambda>item. [crypto_params item]) cl))"
      by simp
    moreover have "concat (map (\<lambda>item. [crypto_params item]) cl) = map crypto_params cl"
      by (induction cl) auto
    ultimately show ?thesis using t Some by (simp add: registry_inv_def opt_list_def)
  qed
  have r: "registry_inv cryptsetup_id st3
      \<and> ?c st3 = ?c st2 + ?n (concat (map raid_partitions (opt_list (raids cfg))))"
  proof (cases "raids cfg")
    case None
    then show ?thesis using 3 c by (auto simp: parse_raids_def opt_list_def registry_inv_def)
  next
    case (Some rl)
    from 3 Some obtain t where l: "for_each parse_raid_item rl st2 = Inr t"
      and t: "st3 = t\<lparr>has_raids := (rl \<noteq> [])\<rparr>"
      unfolding parse_raids_def by (auto elim!: and_thenE)
    from items_loop_roots [OF l, of raid_partitions] parse_raid_item_roots c
    have "registry_inv cryptsetup_id t \<and> ?c t = ?c st2 + ?n (concat (map raid_partitions rl))"
      by simp
    then show ?thesis using t Some by (simp add: registry_inv_def opt_list_def)
  qed
  have v: "registry_inv cryptsetup_id st
      \<and> ?c st = ?c st3 + ?n (concat (map vg_logical_volumes (opt_list (volume_groups cfg))))"
  proof (cases "volume_groups cfg")
    case None
    then show ?thesis using 4 r by (auto simp: parse_volume_groups_def opt_list_def registry_inv_def)
  next
    case (Some vl)
    from 4 Some obtain t where l: "for_each parse_vg_item vl st3 = Inr t"
      and t: "st = t\<lparr>has_lvm := (vl \<noteq> [])\<rparr>"
      unfolding parse_volume_groups_def by (auto elim!: and_thenE)
    from items_loop_roots [OF l, of vg_logical_volumes] parse_vg_item_roots r
    have "registry_inv cryptsetup_id t \<and> ?c t = ?c st3 + ?n (concat (map vg_logical_volumes vl))"
      by simp
    then show ?thesis using t Some by (simp add: registry_inv_def opt_list_def)
  qed
  show n: "length (root_units (smanager st)) = length (root_params cfg)"
    using d c r v by (simp add: root_params_def config_units_def)
  have "length (root_units (smanager st)) \<le> 1"
    using v by (simp add: registry_inv_def)
  moreover have "root_units (smanager st) \<noteq> []"
    by (rule validate_root [OF 5])
  ultimately show "length (root_units (smanager st)) = 1"
    by (cases "root_units (smanager st)") auto
qed

text \<open>
  C6. A configuration is accepted only if exactly one of its unit entries asks for the mount
  point \<open>/\<close>, and then exactly one unit of the manager is mounted there. A configuration
  with no such entry, or with more than one, is rejected while the installer is constructed:
  the run ends with the error before \<open>apply()\<close> has attempted any step.
\<close>

theorem exactly_one_root:
  "(StorageInstaller_init root cfg = Inr st \<longrightarrow>
      length (root_params cfg) = 1 \<and> length (root_units (smanager st)) = 1)
   \<and> (length (root_params cfg) \<noteq> 1 \<longrightarrow>
        isl (StorageInstaller_init root cfg)
        \<and> (\<exists>e. storage_construct_and_apply w root cfg = (Some e, [])))"
proof (intro conjI impI)
  assume "StorageInstaller_init root cfg = Inr st"
  then show "length (root_params cfg) = 1" and "length (root_units (smanager st)) = 1"
    using init_roots by simp_all
next
  assume n: "length (root_params cfg) \<noteq> 1"
  show i: "isl (StorageInstaller_init root cfg)"
  proof (cases "StorageInstaller_init root cfg")
    case (Inl e)
    then show ?thesis by simp
  next
    case (Inr st)
    then show ?thesis using init_roots [OF Inr] n by simp
  qed
  then show "\<exists>e. storage_construct_and_apply w root cfg = (Some e, [])"
    by (cases "StorageInstaller_init root cfg") (auto simp: storage_construct_and_apply_def)
qed

lemma example_no_root_init:
  "StorageInstaller_init ''/mnt/target_root'' example_no_root_config = Inl NoRootMountPoint"
  unfolding example_no_root_config_def unit_params_def
  by (simp add: parse_defs)

lemma example_two_roots_init:
  "StorageInstaller_init ''/mnt/target_root'' example_two_roots_config
     = Inl (MountPointDefined ''/'')"
  unfolding example_two_roots_config_def unit_params_def
  by (simp add: parse_defs)

theorem exactly_one_root_witness:
  "length (root_units (smanager example_simple_installer)) = 1
   \<and> length (root_params example_simple_config) = 1
   \<and> StorageInstaller_init ''/mnt/target_root'' example_no_root_config = Inl NoRootMountPoint
   \<and> storage_construct_and_apply example_world ''/mnt/target_root'' example_no_root_config
        = (Some NoRootMountPoint, [])
   \<and> StorageInstaller_init ''/mnt/target_root'' example_two_roots_config
        = Inl (MountPointDefined ''/'')
   \<and> storage_construct_and_apply example_world ''/mnt/target_root'' example_two_roots_config
        = (Some (MountPointDefined ''/''), [])"
proof -
  have a: "length (root_params example_simple_config) = 1
      \<and> length (root_units (smanager example_simple_installer)) = 1"
    using exactly_one_root [of "''/mnt/target_root''" example_simple_config
        example_simple_installer] example_simple_init
    by blast
  have n0: "length (root_params example_no_root_config) \<noteq> 1"
    by (simp add: root_params_def config_units_def example_no_root_config_def unit_params_def
        is_root_params_def opt_list_def)
  have n2: "length (root_params example_two_roots_config) \<noteq> 1"
    by (simp add: root_params_def config_units_def example_two_roots_config_def unit_params_def
        is_root_params_def opt_list_def)
  obtain e0 where e0: "storage_construct_and_apply example_world ''/mnt/target_root''
      example_no_root_config = (Some e0, [])"
    using exactly_one_root [of "''/mnt/target_root''" example_no_root_config _ example_world] n0
    by blast
  obtain e2 where e2: "storage_construct_and_apply example_world ''/mnt/target_root''
      example_two_roots_config = (Some e2, [])"
    using exactly_one_root [of "''/mnt/target_root''" example_two_roots_config _ example_world] n2
    by blast
  have "e0 = NoRootMountPoint"
    using e0 by (simp add: storage_construct_and_apply_def example_no_root_init)
  moreover have "e2 = MountPointDefined ''/''"
    using e2 by (simp add: storage_construct_and_apply_def example_two_roots_init)
  ultimately show ?thesis
    using a e0 e2 example_no_root_init example_two_roots_init by simp
qed

subsection \<open>The layering lattice\<close>


lemma disk_or_crypto_smanager:
  "units_dict a = units_dict b \<Longrightarrow> disk_or_crypto cfg a = disk_or_crypto cfg b"
  by (simp add: disk_or_crypto_def)









end
